(* ===== verification/Base.thy ===== *)
theory Base
  imports Main "HOL-Library.Word" "HOL-Library.Sublist"
begin

text \<open>
  The prelude of the development: the Go values every component shares (errors and the
  way they are wrapped and inspected, byte strings and the functions of package strings,
  path and strconv the program calls, times and durations), and the generic lemmas about
  them.  A Go string is a byte sequence, modelled as a char list.  A time.Time is the
  number of nanoseconds since the zero time (1 January of year 1), so that IsZero is
  equality with 0; a time.Duration is an int of nanoseconds.
\<close>

named_theorems go_simps \<open>evaluation rules for the modelled Go library functions\<close>

section \<open>Errors\<close>

text \<open>
  A Go error is a tree: fmt.Errorf with %w and PermanentError wrap one error, errors.Join
  wraps several.  The sentinel errors the program tests for are constructors.
\<close>

datatype go_err =
    ErrMsg string
  | Wrapped string go_err
  | Joined "go_err list"
  | PermanentError "go_err option"
  | Canceled
  | DeadlineExceeded
  | APIError string
  | QuotaExceeded
  | ErrRangeUnsupported

text \<open>errors.Is and errors.As walk the whole tree; the argument is the test of a node.\<close>

fun err_any :: "(go_err \<Rightarrow> bool) \<Rightarrow> go_err \<Rightarrow> bool" where
  "err_any p (Wrapped m e) = (p (Wrapped m e) \<or> err_any p e)"
| "err_any p (Joined es) = (p (Joined es) \<or> list_ex (err_any p) es)"
| "err_any p (PermanentError c) =
     (p (PermanentError c) \<or> (case c of None \<Rightarrow> False | Some e \<Rightarrow> err_any p e))"
| "err_any p e = p e"

definition err_is :: "go_err \<Rightarrow> go_err \<Rightarrow> bool" where
  "err_is e target = err_any (\<lambda>n. n = target) e"

definition is_permanent_node :: "go_err \<Rightarrow> bool" where
  "is_permanent_node e = (case e of PermanentError _ \<Rightarrow> True | _ \<Rightarrow> False)"

definition as_permanent :: "go_err \<Rightarrow> bool" where
  "as_permanent e = err_any is_permanent_node e"

text \<open>errors.As with smithy.APIError: the code of the first API error of the tree.\<close>

fun first_api :: "go_err \<Rightarrow> string option" where
  "first_api (APIError c) = Some c"
| "first_api (Wrapped m e) = first_api e"
| "first_api (Joined es) =
     foldr (\<lambda>x acc. case x of Some c \<Rightarrow> Some c | None \<Rightarrow> acc) (map first_api es) None"
| "first_api (PermanentError c) = (case c of None \<Rightarrow> None | Some e \<Rightarrow> first_api e)"
| "first_api e = None"

text \<open>errors.Join: nil when every argument is nil.\<close>

definition errors_join :: "go_err list \<Rightarrow> go_err option" where
  "errors_join es = (if es = [] then None else Some (Joined es))"

lemma errors_join_None [simp]: "errors_join es = None \<longleftrightarrow> es = []"
  by (simp add: errors_join_def)

section \<open>Signed 64-bit integers\<close>

text \<open>
  An int64 is an int; where an operation can leave the range its result is taken back
  into it by two's complement, as Go does.
\<close>

definition i64_max :: int where "i64_max = 2 ^ 63 - 1"
definition i64_min :: int where "i64_min = - (2 ^ 63)"

definition wrap64 :: "int \<Rightarrow> int" where
  "wrap64 x = (x + 2 ^ 63) mod 2 ^ 64 - 2 ^ 63"

definition in_i64 :: "int \<Rightarrow> bool" where
  "in_i64 x = (i64_min \<le> x \<and> x \<le> i64_max)"

lemma in_i64_iff: "in_i64 x \<longleftrightarrow> - 9223372036854775808 \<le> x \<and> x \<le> 9223372036854775807"
  by (simp add: in_i64_def i64_min_def i64_max_def)

lemma wrap64_id [simp]: "in_i64 x \<Longrightarrow> wrap64 x = x"
  by (simp add: in_i64_def i64_min_def i64_max_def wrap64_def)

lemma wrap64_sint: "wrap64 x = sint (word_of_int x :: 64 word)"
  by (simp add: wrap64_def sint_sbintrunc' signed_take_bit_eq_take_bit_shift take_bit_eq_mod)

lemma in_i64_wrap64 [simp]: "in_i64 (wrap64 x)"
proof -
  have "0 \<le> (x + 2 ^ 63) mod 2 ^ 64" "(x + 2 ^ 63) mod 2 ^ 64 < 2 ^ 64"
    by (simp_all add: pos_mod_bound)
  then show ?thesis by (simp add: in_i64_def i64_min_def i64_max_def wrap64_def)
qed

section \<open>Times and durations\<close>

type_synonym time = int
type_synonym duration = int

definition time_zero :: time where "time_zero = 0"

abbreviation is_zero_time :: "time \<Rightarrow> bool" where "is_zero_time t \<equiv> t = time_zero"

definition millisecond :: duration where "millisecond = 1000000"
definition second :: duration where "second = 1000000000"
definition minute :: duration where "minute = 60000000000"
definition hour :: duration where "hour = 3600000000000"

text \<open>The Unix epoch as nanoseconds since the zero time: 62135596800 seconds.\<close>

definition unix_epoch :: time where "unix_epoch = 62135596800000000000"

text \<open>time.UnixMilli, Time.UnixMilli, Time.Sub (which saturates) and Time.Add.\<close>

definition time_of_unix_milli :: "int \<Rightarrow> time" where
  "time_of_unix_milli ms = unix_epoch + ms * millisecond"

definition unix_milli :: "time \<Rightarrow> int" where
  "unix_milli t = (t - unix_epoch) div millisecond"

definition time_sub :: "time \<Rightarrow> time \<Rightarrow> duration" where
  "time_sub t u = max i64_min (min i64_max (t - u))"

lemma unix_milli_of_unix_milli [simp]: "unix_milli (time_of_unix_milli ms) = ms"
  by (simp add: unix_milli_def time_of_unix_milli_def millisecond_def)

lemma unix_milli_zero [simp]: "unix_milli time_zero = - 62135596800000"
  by (simp add: unix_milli_def time_zero_def unix_epoch_def millisecond_def)

lemma time_of_unix_milli_pos: "0 < ms \<Longrightarrow> time_of_unix_milli ms \<noteq> time_zero"
  by (simp add: time_of_unix_milli_def time_zero_def unix_epoch_def millisecond_def)

section \<open>Byte strings\<close>

subsection \<open>Package strings\<close>

definition has_prefix :: "string \<Rightarrow> string \<Rightarrow> bool" where
  "has_prefix s p = prefix p s"

definition has_suffix :: "string \<Rightarrow> string \<Rightarrow> bool" where
  "has_suffix s p = suffix p s"

lemma has_prefix_append [simp]: "has_prefix (p @ s) p"
  by (simp add: has_prefix_def)

definition trim_prefix :: "string \<Rightarrow> string \<Rightarrow> string" where
  "trim_prefix s p = (if has_prefix s p then drop (length p) s else s)"

definition trim_suffix :: "string \<Rightarrow> string \<Rightarrow> string" where
  "trim_suffix s p = (if has_suffix s p then take (length s - length p) s else s)"

text \<open>strings.CutPrefix: the rest after the prefix, if it is there.\<close>

definition cut_prefix :: "string \<Rightarrow> string \<Rightarrow> string option" where
  "cut_prefix s p = (if has_prefix s p then Some (drop (length p) s) else None)"

text \<open>strings.IndexByte and strings.LastIndexByte; None is the Go result -1.\<close>

fun index_byte :: "string \<Rightarrow> char \<Rightarrow> nat option" where
  "index_byte [] c = None"
| "index_byte (x # xs) c = (if x = c then Some 0 else map_option Suc (index_byte xs c))"

fun last_index_byte :: "string \<Rightarrow> char \<Rightarrow> nat option" where
  "last_index_byte [] c = None"
| "last_index_byte (x # xs) c =
     (case last_index_byte xs c of
        Some i \<Rightarrow> Some (Suc i)
      | None \<Rightarrow> if x = c then Some 0 else None)"

text \<open>strings.Split with a one-byte separator.\<close>

fun split_byte :: "char \<Rightarrow> string \<Rightarrow> string list" where
  "split_byte c [] = [[]]"
| "split_byte c (x # xs) =
     (if x = c then [] # split_byte c xs
      else (case split_byte c xs of [] \<Rightarrow> [[x]] | p # ps \<Rightarrow> (x # p) # ps))"

text \<open>strings.Join.\<close>

fun join_str :: "string \<Rightarrow> string list \<Rightarrow> string" where
  "join_str sep [] = []"
| "join_str sep [s] = s"
| "join_str sep (s # t # ts) = s @ sep @ join_str sep (t # ts)"

text \<open>strings.Cut around a one-byte separator.\<close>

definition cut_byte :: "string \<Rightarrow> char \<Rightarrow> string \<times> string \<times> bool" where
  "cut_byte s c =
     (case index_byte s c of
        None \<Rightarrow> (s, [], False)
      | Some i \<Rightarrow> (take i s, drop (Suc i) s, True))"

text \<open>strings.Count of a one-byte separator.\<close>

definition count_byte :: "string \<Rightarrow> char \<Rightarrow> nat" where
  "count_byte s c = count_list s c"

text \<open>strings.TrimRight / TrimLeft with a one-byte cutset.\<close>

definition trim_left_byte :: "string \<Rightarrow> char \<Rightarrow> string" where
  "trim_left_byte s c = dropWhile (\<lambda>x. x = c) s"

definition trim_right_byte :: "string \<Rightarrow> char \<Rightarrow> string" where
  "trim_right_byte s c = rev (dropWhile (\<lambda>x. x = c) (rev s))"

text \<open>strings.TrimSpace on ASCII white space.\<close>

definition is_space :: "char \<Rightarrow> bool" where
  "is_space c = (c \<in> {CHR '' '', CHR 0x09, CHR 0x0A, CHR 0x0B, CHR 0x0C, CHR 0x0D})"

definition trim_space :: "string \<Rightarrow> string" where
  "trim_space s = rev (dropWhile is_space (rev (dropWhile is_space s)))"

text \<open>strings.ToLower and strings.ToUpper on ASCII letters; other bytes are kept.\<close>

definition to_lower_char :: "char \<Rightarrow> char" where
  "to_lower_char c =
     (let n = (of_char c :: nat) in if 65 \<le> n \<and> n \<le> 90 then char_of (n + 32) else c)"

definition to_upper_char :: "char \<Rightarrow> char" where
  "to_upper_char c =
     (let n = (of_char c :: nat) in if 97 \<le> n \<and> n \<le> 122 then char_of (n - 32) else c)"

definition to_lower :: "string \<Rightarrow> string" where "to_lower s = map to_lower_char s"
definition to_upper :: "string \<Rightarrow> string" where "to_upper s = map to_upper_char s"

text \<open>strings.Contains.\<close>

definition str_contains :: "string \<Rightarrow> string \<Rightarrow> bool" where
  "str_contains s t = list_ex (\<lambda>u. prefix t u) (suffixes s)"

text \<open>path.Base.\<close>

definition path_base :: "string \<Rightarrow> string" where
  "path_base p =
     (if p = [] then ''.''
      else let q = trim_right_byte p (CHR ''/'');
               b = (case last_index_byte q (CHR ''/'') of None \<Rightarrow> q | Some i \<Rightarrow> drop (Suc i) q)
           in if b = [] then ''/'' else b)"

subsection \<open>Lemmas on splitting and searching\<close>

lemma index_byte_None_iff: "index_byte s c = None \<longleftrightarrow> c \<notin> set s"
  by (induction s) auto

lemma index_byte_SomeD:
  "index_byte s c = Some i \<Longrightarrow> i < length s \<and> s ! i = c \<and> c \<notin> set (take i s)"
  by (induction s arbitrary: i) (auto split: if_splits)

lemma last_index_byte_None_iff: "last_index_byte s c = None \<longleftrightarrow> c \<notin> set s"
  by (induction s) (auto split: option.splits)

lemma last_index_byte_SomeD:
  "last_index_byte s c = Some i \<Longrightarrow> i < length s \<and> s ! i = c \<and> c \<notin> set (drop (Suc i) s)"
proof (induction s arbitrary: i)
  case (Cons x xs)
  show ?case
  proof (cases "last_index_byte xs c")
    case None
    then have "c \<notin> set xs" by (simp add: last_index_byte_None_iff)
    with None Cons.prems show ?thesis by (auto split: if_splits)
  next
    case (Some j)
    with Cons show ?thesis by auto
  qed
qed simp

lemma last_index_byte_append:
  "c \<notin> set t \<Longrightarrow> last_index_byte (s @ c # t) c = Some (length s)"
  by (induction s) (auto simp: last_index_byte_None_iff split: option.splits)

lemma index_byte_append: "c \<notin> set s \<Longrightarrow> index_byte (s @ c # t) c = Some (length s)"
  by (induction s) auto

lemma split_byte_nonempty [simp]: "split_byte c s \<noteq> []"
  by (induction s) (auto split: list.splits)

lemma split_byte_notin: "c \<notin> set s \<Longrightarrow> split_byte c s = [s]"
  by (induction s) auto

lemma split_byte_append:
  "split_byte c (s @ c # t) = split_byte c s @ split_byte c t"
  by (induction s) (auto split: list.splits)

lemma split_byte_parts: "p \<in> set (split_byte c s) \<Longrightarrow> c \<notin> set p"
proof (induction s arbitrary: p)
  case (Cons x xs)
  show ?case
  proof (cases "split_byte c xs")
    case Nil
    then show ?thesis by simp
  next
    case (Cons q qs)
    with Cons.IH Cons.prems show ?thesis by (auto split: if_splits)
  qed
qed simp

lemma join_split_byte: "join_str [c] (split_byte c s) = s"
proof (induction s)
  case (Cons x xs)
  obtain q qs where "split_byte c xs = q # qs"
    by (cases "split_byte c xs") simp_all
  with Cons show ?case by (cases qs) auto
qed simp

subsection \<open>Package strconv\<close>

definition is_digit :: "char \<Rightarrow> bool" where
  "is_digit c = (let n = (of_char c :: nat) in 48 \<le> n \<and> n \<le> 57)"

definition digit_val :: "char \<Rightarrow> nat" where
  "digit_val c = of_char c - 48"

definition digit_char :: "nat \<Rightarrow> char" where
  "digit_char d = char_of (48 + d)"

definition digits_val :: "string \<Rightarrow> nat" where
  "digits_val s = foldl (\<lambda>a c. 10 * a + digit_val c) 0 s"

text \<open>
  strconv.ParseInt(s, 10, 64), and strconv.Atoi on a 64-bit platform: an optional sign,
  one or more decimal digits, a value in the int64 range; None stands for the error.
\<close>

definition parse_int :: "string \<Rightarrow> int option" where
  "parse_int s =
     (let neg = (s \<noteq> [] \<and> hd s = CHR ''-'');
          ds = (if s \<noteq> [] \<and> hd s \<in> {CHR ''-'', CHR ''+''} then tl s else s);
          v = (if neg then - int (digits_val ds) else int (digits_val ds))
      in if ds \<noteq> [] \<and> list_all is_digit ds \<and> in_i64 v then Some v else None)"

function nat_str :: "nat \<Rightarrow> string" where
  "nat_str n = (if n < 10 then [digit_char n] else nat_str (n div 10) @ [digit_char (n mod 10)])"
  by pat_completeness auto
termination
  by (relation "measure id") auto

declare nat_str.simps [simp del]

text \<open>strconv.FormatInt(i, 10) and strconv.Itoa.\<close>

definition format_int :: "int \<Rightarrow> string" where
  "format_int i = (if i < 0 then CHR ''-'' # nat_str (nat (- i)) else nat_str (nat i))"

text \<open>
  strconv.Quote (and the verb %q): backslash escapes for the quote, the backslash and the
  control characters; other bytes are kept.
\<close>

definition hex_digit :: "nat \<Rightarrow> char" where
  "hex_digit n = char_of (if n < 10 then 48 + n else 87 + n)"

definition quote_byte :: "char \<Rightarrow> string" where
  "quote_byte c =
     (let n = (of_char c :: nat); bs = CHR 0x5C in
      if c = CHR 0x22 \<or> c = bs then [bs, c]
      else if n = 7 then [bs, CHR ''a''] else if n = 8 then [bs, CHR ''b'']
      else if n = 9 then [bs, CHR ''t''] else if n = 10 then [bs, CHR ''n'']
      else if n = 11 then [bs, CHR ''v''] else if n = 12 then [bs, CHR ''f'']
      else if n = 13 then [bs, CHR ''r'']
      else if n < 32 \<or> n = 127 then [bs, CHR ''x'', hex_digit (n div 16), hex_digit (n mod 16)]
      else [c])"

definition go_quote :: "string \<Rightarrow> string" where
  "go_quote s = [CHR 0x22] @ concat (map quote_byte s) @ [CHR 0x22]"

lemma digit_char_props:
  assumes "d < 10"
  shows "is_digit (digit_char d)" "digit_val (digit_char d) = d"
  using assms by (simp_all add: is_digit_def digit_val_def digit_char_def Let_def)

lemma is_digit_char_neq:
  assumes "is_digit c"
  shows "c \<noteq> CHR ''-''" "c \<noteq> CHR ''+''" "c \<noteq> CHR '':''" "c \<noteq> CHR ''.''" "c \<noteq> CHR ''/''"
  using assms by (auto simp: is_digit_def Let_def)

lemma digits_val_snoc [simp]: "digits_val (s @ [c]) = 10 * digits_val s + digit_val c"
  by (simp add: digits_val_def)

lemma digits_val_nat_str [simp]: "digits_val (nat_str n) = n"
proof (induction n rule: nat_str.induct)
  case (1 n)
  show ?case
  proof (cases "n < 10")
    case True
    then show ?thesis
      by (subst nat_str.simps) (simp add: digits_val_def digit_char_props)
  next
    case False
    with 1 show ?thesis
      by (subst nat_str.simps) (simp add: digit_char_props)
  qed
qed

lemma nat_str_digits: "list_all is_digit (nat_str n)"
proof (induction n rule: nat_str.induct)
  case (1 n)
  then show ?case
    by (subst nat_str.simps) (auto simp: digit_char_props)
qed

lemma nat_str_nonempty [simp]: "nat_str n \<noteq> []"
  by (subst nat_str.simps) simp

lemma nat_str_hd_digit: "is_digit (hd (nat_str n))"
  using nat_str_digits [of n] by (cases "nat_str n") auto

lemma parse_int_nat_str:
  assumes "int n \<le> i64_max"
  shows "parse_int (nat_str n) = Some (int n)"
proof -
  have "hd (nat_str n) \<noteq> CHR ''-''" "hd (nat_str n) \<noteq> CHR ''+''"
    using is_digit_char_neq [OF nat_str_hd_digit] by auto
  moreover have "in_i64 (int n)"
    using assms by (simp add: in_i64_def i64_min_def)
  ultimately show ?thesis
    by (simp add: parse_int_def nat_str_digits)
qed

lemma parse_int_format_int:
  assumes "in_i64 i"
  shows "parse_int (format_int i) = Some i"
proof (cases "i < 0")
  case True
  then show ?thesis
    using assms by (simp add: parse_int_def format_int_def nat_str_digits)
next
  case False
  then show ?thesis
    using assms by (simp add: format_int_def parse_int_nat_str in_i64_def)
qed

lemma parse_int_in_i64: "parse_int s = Some v \<Longrightarrow> in_i64 v"
  by (auto simp: parse_int_def Let_def split: if_splits)

lemma nat_str_inj: "nat_str m = nat_str n \<Longrightarrow> m = n"
  by (metis digits_val_nat_str)

lemma nat_str_all_digits: "c \<in> set (nat_str n) \<Longrightarrow> is_digit c"
  using nat_str_digits [of n] by (simp add: list_all_iff)

lemma nat_str_no_colon [simp]: "CHR '':'' \<notin> set (nat_str n)"
  by (metis nat_str_all_digits is_digit_char_neq(3))

lemma nat_str_no_slash [simp]: "CHR ''/'' \<notin> set (nat_str n)"
  by (metis nat_str_all_digits is_digit_char_neq(5))

lemma format_int_no_colon [simp]: "CHR '':'' \<notin> set (format_int i)"
  by (simp add: format_int_def)

section \<open>Text\<close>

text \<open>Padded columns of fmt, a line break and the dash of the messages (UTF-8).\<close>

definition pad_right :: "nat \<Rightarrow> string \<Rightarrow> string" where
  "pad_right n s = s @ replicate (n - length s) (CHR '' '')"

definition pad_left :: "nat \<Rightarrow> string \<Rightarrow> string" where
  "pad_left n s = replicate (n - length s) (CHR '' '') @ s"

definition newline :: string where "newline = [CHR 0x0A]"

definition em_dash :: string where
  "em_dash = [CHR 0xE2, CHR 0x80, CHR 0x94]"

text \<open>strings.ReplaceAll for a non-empty pattern.\<close>

function replace_all :: "string \<Rightarrow> string \<Rightarrow> string \<Rightarrow> string" where
  "replace_all old new s =
     (if s = [] then []
      else if old \<noteq> [] \<and> has_prefix s old then new @ replace_all old new (drop (length old) s)
      else hd s # replace_all old new (tl s))"
  by pat_completeness auto
termination
  by (relation "measure (\<lambda>(old, new, s). length s)") auto

declare replace_all.simps [simp del]

end
