(* ===== verification/Classifier.thy ===== *)
theory Classifier
  imports Base
begin

text \<open>
  internal/source/rds/classifier.go: which log files of an engine are ingested.
\<close>

datatype classifier = PostgresClassifier | MysqlClassifier bool | AllClassifier

definition NewClassifier :: "string \<Rightarrow> bool \<Rightarrow> classifier" where
  "NewClassifier engine includeAudit =
     (if engine = ''postgres'' then PostgresClassifier
      else if engine = ''mysql'' \<or> engine = ''mariadb'' then MysqlClassifier includeAudit
      else AllClassifier)"

definition postgres_Accepts :: "string \<Rightarrow> bool" where
  "postgres_Accepts name =
     (let base = to_lower (path_base name)
      in has_prefix base ''postgresql.log'' \<or> has_prefix base ''postgres.log'')"

definition mysql_Accepts :: "bool \<Rightarrow> string \<Rightarrow> bool" where
  "mysql_Accepts includeAudit name =
     (let base = to_lower (path_base name); lower = to_lower name in
      if includeAudit \<and> (has_prefix base ''server_audit.log'' \<or> has_prefix lower ''audit/'')
      then True
      else if list_ex (has_prefix base)
                [''mysql-error'', ''mysql-slowquery'', ''mysql-general'',
                 ''mariadb-error'', ''mariadb-slowquery'', ''mariadb-general'']
      then True
      else list_ex (has_prefix lower) [''error/'', ''slowquery/'', ''general/''])"

fun Accepts :: "classifier \<Rightarrow> string \<Rightarrow> bool" where
  "Accepts PostgresClassifier name = postgres_Accepts name"
| "Accepts (MysqlClassifier a) name = mysql_Accepts a name"
| "Accepts AllClassifier name = True"

fun FilenameContains :: "classifier \<Rightarrow> string" where
  "FilenameContains PostgresClassifier = ''postgres''"
| "FilenameContains (MysqlClassifier a) = ''''"
| "FilenameContains AllClassifier = ''''"

section \<open>Properties\<close>

text \<open>Opting into audit files only ever adds files.\<close>

lemma mysql_Accepts_mono: "mysql_Accepts False name \<Longrightarrow> mysql_Accepts True name"
  unfolding mysql_Accepts_def Let_def by (simp only: if_split) blast

lemma Accepts_audit_mono:
  assumes "Accepts (NewClassifier e False) name"
  shows "Accepts (NewClassifier e True) name"
  using assms mysql_Accepts_mono [of name] by (simp add: NewClassifier_def split: if_splits)

text \<open>
  The server-side filter of the PostgreSQL classifier hides no accepted file: the lower-case
  base name of every accepted file contains the filter string.
\<close>

lemma str_contains_prefix: "prefix t s \<Longrightarrow> str_contains s t"
  by (auto simp: str_contains_def list_ex_iff)

lemma has_prefix_trans: "has_prefix s p \<Longrightarrow> prefix q p \<Longrightarrow> prefix q s"
  unfolding has_prefix_def by (rule prefix_order.trans)

lemma postgres_filter_covers:
  assumes "postgres_Accepts name"
  shows "str_contains (to_lower (path_base name)) (FilenameContains PostgresClassifier)"
proof -
  have p: "prefix ''postgres'' ''postgresql.log''" "prefix ''postgres'' ''postgres.log''"
    by simp_all
  have "has_prefix (to_lower (path_base name)) ''postgresql.log''
      \<or> has_prefix (to_lower (path_base name)) ''postgres.log''"
    using assms unfolding postgres_Accepts_def Let_def .
  then have "prefix ''postgres'' (to_lower (path_base name))"
    using has_prefix_trans p by blast
  then show ?thesis by (simp only: FilenameContains.simps str_contains_prefix)
qed



end
