(* ===== verification/Regex.thy ===== *)
theory Regex
  imports Base
begin

text \<open>
  The fragment of package regexp the program uses: leftmost-first (Perl-like) matching with
  numbered groups.  The matcher returns all matches of an expression at the start of a
  string in the order in which backtracking would try them, each with its captured groups
  and the rest of the string; the first one is the match Go reports.
\<close>

type_synonym caps = "(nat \<times> string) list"

datatype re =
    Cls "char \<Rightarrow> bool"
  | Eps
  | Cat re re
  | Alt re re
  | Star re
  | LazyStar re
  | Grp nat re
  | EndText

function (sequential) rm :: "re \<Rightarrow> string \<Rightarrow> (caps \<times> string) list" where
  "rm (Cls p) s = (case s of [] \<Rightarrow> [] | x # xs \<Rightarrow> if p x then [([], xs)] else [])"
| "rm Eps s = [([], s)]"
| "rm (Cat r1 r2) s =
     concat (map (\<lambda>(c, t). map (\<lambda>(d, u). (c @ d, u)) (rm r2 t)) (rm r1 s))"
| "rm (Alt r1 r2) s = rm r1 s @ rm r2 s"
| "rm (Star r) s =
     concat (map (\<lambda>(c, t). if length t < length s
                           then map (\<lambda>(d, u). (c @ d, u)) (rm (Star r) t) else []) (rm r s))
       @ [([], s)]"
| "rm (LazyStar r) s =
     ([], s) # concat (map (\<lambda>(c, t). if length t < length s
                           then map (\<lambda>(d, u). (c @ d, u)) (rm (LazyStar r) t) else []) (rm r s))"
| "rm (Grp n r) s =
     map (\<lambda>(c, t). ((n, take (length s - length t) s) # c, t)) (rm r s)"
| "rm EndText s = (if s = [] then [([], [])] else [])"
  by pat_completeness auto
termination
  by (relation "measures [\<lambda>(r, s). size r, \<lambda>(r, s). length s]") auto

definition re_match :: "re \<Rightarrow> string \<Rightarrow> (caps \<times> string) option" where
  "re_match r s = (case rm r s of [] \<Rightarrow> None | m # _ \<Rightarrow> Some m)"

text \<open>A group that took no part in the match reads as the empty string.\<close>

definition cap :: "caps \<Rightarrow> nat \<Rightarrow> string" where
  "cap c n = (case map_of c n of None \<Rightarrow> [] | Some x \<Rightarrow> x)"

text \<open>An expression without anchor matches at the first position where it can.\<close>

definition re_find :: "re \<Rightarrow> string \<Rightarrow> bool" where
  "re_find r s = list_ex (\<lambda>t. rm r t \<noteq> []) (suffixes s)"

section \<open>Derived expressions\<close>

definition chr :: "char \<Rightarrow> re" where "chr c = Cls (\<lambda>x. x = c)"

fun lit :: "string \<Rightarrow> re" where
  "lit [] = Eps"
| "lit (c # cs) = Cat (chr c) (lit cs)"

fun rep :: "nat \<Rightarrow> re \<Rightarrow> re" where
  "rep 0 r = Eps"
| "rep (Suc n) r = Cat r (rep n r)"

fun upto_rep :: "nat \<Rightarrow> re \<Rightarrow> re" where
  "upto_rep 0 r = Eps"
| "upto_rep (Suc n) r = Alt (Cat r (upto_rep n r)) Eps"

definition re_plus :: "re \<Rightarrow> re" where "re_plus r = Cat r (Star r)"
definition re_opt :: "re \<Rightarrow> re" where "re_opt r = Alt r Eps"
definition re_digit :: re where "re_digit = Cls is_digit"
definition re_any :: re where "re_any = Cls (\<lambda>c. c \<noteq> CHR 0x0A)"

fun cats :: "re list \<Rightarrow> re" where
  "cats [] = Eps"
| "cats [r] = r"
| "cats (r # rs) = Cat r (cats rs)"

section \<open>Lemmas\<close>

lemma rm_Cls_Nil [simp]: "rm (Cls p) [] = []"
  and rm_Cls_Cons [simp]: "rm (Cls p) (x # xs) = (if p x then [([], xs)] else [])"
  by simp_all

text \<open>
  The equations of the starred expressions call themselves and are unfolded by hand only.
\<close>

lemmas rm_Cls = rm.simps(1)
lemmas rm_Star = rm.simps(5)
lemmas rm_LazyStar = rm.simps(6)

declare rm.simps(1,5,6) [simp del]

text \<open>
  A starred class matches every prefix of the longest run, longest first.
\<close>

lemma rm_star_cls_Nil: "rm (Star (Cls p)) [] = [([], [])]"
  by (simp add: rm_Star [of "Cls p" "[]"])

lemma rm_star_cls_Cons:
  "rm (Star (Cls p)) (x # xs) =
     (if p x then rm (Star (Cls p)) xs else []) @ [([], x # xs)]"
  by (simp add: rm_Star [of "Cls p" "x # xs"])

lemma rm_star_cls:
  "rm (Star (Cls p)) s =
     map (\<lambda>k. ([], drop k s)) (rev [0..<Suc (length (takeWhile p s))])"
proof (induction s)
  case Nil
  then show ?case by (simp add: rm_star_cls_Nil)
next
  case (Cons x xs)
  have up: "[0..<Suc (Suc n)] = 0 # map Suc [0..<Suc n]" for n
    unfolding map_Suc_upt by (rule upt_conv_Cons) simp
  show ?case
  proof (cases "p x")
    case True
    have "rm (Star (Cls p)) (x # xs) = rm (Star (Cls p)) xs @ [([], x # xs)]"
      using True by (simp add: rm_star_cls_Cons)
    also have "\<dots> = map (\<lambda>k. ([], drop k (x # xs)))
                      (rev (map Suc [0..<Suc (length (takeWhile p xs))]))
                    @ [([], drop 0 (x # xs))]"
      unfolding Cons.IH by (simp add: rev_map o_def del: upt_Suc)
    also have "\<dots> = map (\<lambda>k. ([], drop k (x # xs)))
                      (rev [0..<Suc (length (takeWhile p (x # xs)))])"
      using True by (simp add: up del: upt_Suc)
    finally show ?thesis .
  qed (simp add: rm_star_cls_Cons)
qed

lemma rm_lit: "rm (lit w) s = (if prefix w s then [([], drop (length w) s)] else [])"
  by (induction w arbitrary: s) (auto simp: chr_def rm_Cls split: list.splits)

lemma rm_rep_cls:
  "rm (rep n (Cls p)) s =
     (if n \<le> length s \<and> list_all p (take n s) then [([], drop n s)] else [])"
  by (induction n arbitrary: s) (auto simp: rm_Cls split: list.splits)

lemma concat_first_nonempty:
  assumes "xs = pre @ x # post" and "\<forall>y\<in>set pre. f y = []" and "f x = m # ms"
  shows "\<exists>zs. concat (map f xs) = m # zs"
proof -
  have "concat (map f xs) = concat (map f pre) @ m # (ms @ concat (map f post))"
    using assms(1,3) by simp
  also have "concat (map f pre) = []" using assms(2) by simp
  finally show ?thesis by simp
qed

text \<open>
  The first match of a starred class followed by the pattern r: the longest run after which
  r matches at all.
\<close>

lemma re_match_star_cls_cat:
  assumes k: "k \<le> length (takeWhile p s)"
    and hit: "rm r (drop k s) = m # ms"
    and longer: "\<And>j. k < j \<Longrightarrow> j \<le> length (takeWhile p s) \<Longrightarrow> rm r (drop j s) = []"
  shows "\<exists>zs. rm (Cat (Star (Cls p)) r) s = m # zs"
proof -
  let ?n = "length (takeWhile p s)"
  have upt: "[0..<Suc ?n] = [0..<k] @ k # [Suc k..<Suc ?n]"
    using k by (metis le_imp_less_Suc upt_conv_Cons upt_add_eq_append zero_le le_add_diff_inverse
        less_imp_le_nat le0)
  then have "rev [0..<Suc ?n] = rev [Suc k..<Suc ?n] @ k # rev [0..<k]"
    by (metis append_assoc append_Cons append_Nil rev.simps(2) rev_append)
  moreover have "rm (Cat (Star (Cls p)) r) s = concat (map (\<lambda>j. rm r (drop j s)) (rev [0..<Suc ?n]))"
    by (simp add: rm_star_cls o_def del: upt_Suc)
  moreover have "\<forall>j \<in> set (rev [Suc k..<Suc ?n]). rm r (drop j s) = []"
    using longer by auto
  ultimately show ?thesis
    using hit concat_first_nonempty [of "rev [0..<Suc ?n]" "rev [Suc k..<Suc ?n]" k "rev [0..<k]"
        "\<lambda>j. rm r (drop j s)" m ms]
    by (simp del: upt_Suc)
qed

section \<open>The set of matches\<close>

text \<open>
  Which matches there are, whatever their order: one characterisation per constructor.
  Together they turn a statement about the matcher into one about a decomposition of the
  string.
\<close>

named_theorems re_mem \<open>membership in the set of matches\<close>

lemma mem_Cls [re_mem]: "m \<in> set (rm (Cls p) s) \<longleftrightarrow> (\<exists>x t. m = ([], t) \<and> s = x # t \<and> p x)"
  by (cases s) auto

lemma mem_chr [re_mem]: "m \<in> set (rm (chr c) s) \<longleftrightarrow> (\<exists>t. m = ([], t) \<and> s = c # t)"
  by (auto simp: chr_def re_mem)

lemma mem_Eps [re_mem]: "m \<in> set (rm Eps s) \<longleftrightarrow> m = ([], s)"
  by simp

lemma mem_Cat [re_mem]:
  "m \<in> set (rm (Cat r1 r2) s) \<longleftrightarrow>
     (\<exists>c t d u. (c, t) \<in> set (rm r1 s) \<and> (d, u) \<in> set (rm r2 t) \<and> m = (c @ d, u))"
  by (force simp: set_concat)

text \<open>A class or character at the head of a sequence consumes one character.\<close>

lemma mem_cat_Cls:
  "m \<in> set (rm (Cat (Cls p) r) s) \<longleftrightarrow> (\<exists>x s'. s = x # s' \<and> p x \<and> m \<in> set (rm r s'))"
  by (cases m) (auto simp: mem_Cat mem_Cls)

lemma mem_cat_chr:
  "m \<in> set (rm (Cat (chr c) r) s) \<longleftrightarrow> (\<exists>s'. s = c # s' \<and> m \<in> set (rm r s'))"
  unfolding chr_def mem_cat_Cls by blast

lemma mem_Alt [re_mem]:
  "m \<in> set (rm (Alt r1 r2) s) \<longleftrightarrow> m \<in> set (rm r1 s) \<or> m \<in> set (rm r2 s)"
  by simp

lemma mem_Grp [re_mem]:
  "m \<in> set (rm (Grp n r) s) \<longleftrightarrow>
     (\<exists>c t. (c, t) \<in> set (rm r s) \<and> m = ((n, take (length s - length t) s) # c, t))"
  by auto

lemma mem_EndText [re_mem]: "m \<in> set (rm EndText s) \<longleftrightarrow> s = [] \<and> m = ([], [])"
  by auto

lemma mem_star_cls [re_mem]:
  "m \<in> set (rm (Star (Cls p)) s) \<longleftrightarrow> (\<exists>u t. m = ([], t) \<and> s = u @ t \<and> list_all p u)"
proof (induction s arbitrary: m)
  case Nil
  then show ?case by (auto simp: rm_star_cls_Nil)
next
  case (Cons x xs)
  show ?case
  proof
    assume "m \<in> set (rm (Star (Cls p)) (x # xs))"
    then show "\<exists>u t. m = ([], t) \<and> x # xs = u @ t \<and> list_all p u"
      unfolding rm_star_cls_Cons using Cons.IH
      by (fastforce simp: Cons_eq_append_conv split: if_splits)
  next
    assume "\<exists>u t. m = ([], t) \<and> x # xs = u @ t \<and> list_all p u"
    then show "m \<in> set (rm (Star (Cls p)) (x # xs))"
      unfolding rm_star_cls_Cons using Cons.IH by (auto simp: Cons_eq_append_conv)
  qed
qed

lemma mem_plus_cls [re_mem]:
  "m \<in> set (rm (re_plus (Cls p)) s) \<longleftrightarrow>
     (\<exists>u t. m = ([], t) \<and> s = u @ t \<and> list_all p u \<and> u \<noteq> [])"
  by (fastforce simp: re_plus_def mem_Cat mem_Cls mem_star_cls neq_Nil_conv)

lemma mem_lit [re_mem]: "m \<in> set (rm (lit w) s) \<longleftrightarrow> (\<exists>t. m = ([], t) \<and> s = w @ t)"
  by (auto simp: rm_lit prefix_def)

lemma re_match_mem: "re_match r s = Some m \<Longrightarrow> m \<in> set (rm r s)"
  by (auto simp: re_match_def split: list.splits)

lemma re_match_None: "re_match r s = None \<longleftrightarrow> set (rm r s) = {}"
  by (auto simp: re_match_def split: list.splits)

text \<open>When all matches agree, the first one is the one that exists.\<close>

lemma re_match_unique:
  assumes "m \<in> set (rm r s)" and "\<And>m'. m' \<in> set (rm r s) \<Longrightarrow> m' = m"
  shows "re_match r s = Some m"
proof (cases "rm r s")
  case Nil
  with assms(1) show ?thesis by simp
next
  case (Cons m' ms)
  with assms(2) [of m'] show ?thesis by (simp add: re_match_def)
qed

end
