(* ===== verification/LogRecord.thy ===== *)
theory LogRecord
  imports Base
begin

text \<open>
  pkg/logrecord: the record every component passes on, and the audit fields of a pgAudit
  entry.
\<close>

record audit =
  auType :: string
  auClass :: string
  auCommand :: string
  auObjectType :: string
  auObjectName :: string

record logrecord =
  lrInstanceID :: string
  lrEngine :: string
  lrLogFile :: string
  lrTimestamp :: time
  lrSeverity :: string
  lrMessage :: string
  lrMarker :: string
  lrBatchID :: string
  lrAudit :: "audit option"
  lrTruncated :: bool

end
