(* ===== verification/Parse.thy ===== *)
theory Parse
  imports Regex LogRecord
begin

text \<open>
  internal/parse/parse.go: the per-engine line parsers.  The regular expressions are
  transcribed from the source; package time's parsing of the layouts the parsers use, and
  package encoding/csv's reading of one record with lazy quotes, are written out.
\<close>

section \<open>Calendar times\<close>

definition leap :: "int \<Rightarrow> bool" where
  "leap y = (y mod 4 = 0 \<and> (y mod 100 \<noteq> 0 \<or> y mod 400 = 0))"

definition days_in :: "int \<Rightarrow> int \<Rightarrow> int" where
  "days_in y m = (if m = 2 then (if leap y then 29 else 28)
                  else if m \<in> {4, 6, 9, 11} then 30 else 31)"

text \<open>Days from 1 January of year 1 to the given date of the proleptic calendar.\<close>

definition days_before_year :: "int \<Rightarrow> int" where
  "days_before_year y = 365 * (y - 1) + (y - 1) div 4 - (y - 1) div 100 + (y - 1) div 400"

definition days_of_date :: "int \<Rightarrow> int \<Rightarrow> int \<Rightarrow> int" where
  "days_of_date y m d =
     days_before_year y + sum_list (map (days_in y) [1..m - 1]) + d - 1"

definition mk_time :: "int \<Rightarrow> int \<Rightarrow> int \<Rightarrow> int \<Rightarrow> int \<Rightarrow> int \<Rightarrow> int \<Rightarrow> time" where
  "mk_time y mo d h mi s ns =
     (((days_of_date y mo d * 24 + h) * 60 + mi) * 60 + s) * second + ns"

definition num :: "string \<Rightarrow> int" where "num s = int (digits_val s)"

text \<open>
  time.Parse rejects a month, day, hour, minute or second out of range.  The arguments are
  digit strings: the regular expressions admit nothing else.
\<close>

definition civil_time ::
    "string \<Rightarrow> string \<Rightarrow> string \<Rightarrow> string \<Rightarrow> string \<Rightarrow> string \<Rightarrow> int \<Rightarrow> time option" where
  "civil_time y mo d h mi s ns =
     (if 1 \<le> num mo \<and> num mo \<le> 12 \<and> 1 \<le> num d \<and> num d \<le> days_in (num y) (num mo)
         \<and> num h \<le> 23 \<and> num mi \<le> 59 \<and> num s \<le> 59
      then Some (mk_time (num y) (num mo) (num d) (num h) (num mi) (num s) ns) else None)"

text \<open>
  The layout "2006-01-02 15:04:05"; the hour may have one digit.
\<close>

definition parse_datetime :: "string \<Rightarrow> time option" where
  "parse_datetime v =
     (let (hms_h, hms_r, _) = cut_byte (drop 11 v) (CHR '':'')
      in civil_time (take 4 v) (take 2 (drop 5 v)) (take 2 (drop 8 v))
           hms_h (take 2 hms_r) (take 2 (drop 3 hms_r)) 0)"

text \<open>The layout "20060102 15:04:05".\<close>

definition parse_compact :: "string \<Rightarrow> time option" where
  "parse_compact v =
     civil_time (take 4 v) (take 2 (drop 4 v)) (take 2 (drop 6 v))
       (take 2 (drop 9 v)) (take 2 (drop 12 v)) (take 2 (drop 15 v)) 0"

text \<open>A decimal fraction, cut to nanoseconds; the digits follow the dot.\<close>

definition frac_ns :: "string \<Rightarrow> int" where
  "frac_ns ds = num (take 9 ds) * 10 ^ (9 - length (take 9 ds))"

text \<open>The layout RFC3339Nano: an optional fraction, then Z or a numeric zone.\<close>

definition parse_rfc3339 :: "string \<Rightarrow> time option" where
  "parse_rfc3339 v =
     (let rest = drop 19 v;
          fr = (case rest of c # cs \<Rightarrow> if c = CHR ''.'' then takeWhile is_digit cs else []
                | [] \<Rightarrow> []);
          z = (if fr = [] then rest else drop (Suc (length fr)) rest);
          oh = num (take 2 (drop 1 z)); om = num (take 2 (drop 4 z));
          off = (if hd z = CHR ''Z'' then Some 0
                 else if oh > 24 \<or> om > 60 then None
                 else Some ((if hd z = CHR ''-'' then -1 else 1) * (oh * 60 + om) * 60 * second))
      in case (civil_time (take 4 v) (take 2 (drop 5 v)) (take 2 (drop 8 v))
                 (take 2 (drop 11 v)) (take 2 (drop 14 v)) (take 2 (drop 17 v)) (frac_ns fr), off) of
           (Some t, Some o') \<Rightarrow> Some (t - o')
         | _ \<Rightarrow> None)"

section \<open>Meta\<close>

record meta =
  mtTimestamp :: time
  mtSeverity :: string
  mtAudit :: "audit option"

definition no_meta :: meta where
  "no_meta = \<lparr>mtTimestamp = time_zero, mtSeverity = [], mtAudit = None\<rparr>"

definition time_or_zero :: "time option \<Rightarrow> time" where
  "time_or_zero t = (case t of None \<Rightarrow> time_zero | Some x \<Rightarrow> x)"

section \<open>pgAudit CSV payloads\<close>

text \<open>
  One record of encoding/csv with LazyQuotes, on a line without newline: a quoted field
  ends at a quote before a comma or the end of the line; any other single quote is text.
  The first function reads the inside of a quoted field, the second a whole record.
\<close>

definition quote_char :: char where "quote_char = CHR 0x22"
definition comma :: char where "comma = CHR '',''"

fun csv_quoted :: "string \<Rightarrow> string \<times> string option" where
  "csv_quoted [] = ([], None)"
| "csv_quoted [c] = (if c = quote_char then ([], None) else ([c], None))"
| "csv_quoted (c # d # s) =
     (if c = quote_char \<and> d = quote_char then
        (let (f, r) = csv_quoted s in (quote_char # f, r))
      else if c = quote_char \<and> d = comma then ([], Some s)
      else (let (f, r) = csv_quoted (d # s) in (c # f, r)))"

lemma csv_quoted_shorter:
  "csv_quoted s = (f, Some r) \<Longrightarrow> length r < length s"
  by (induction s arbitrary: f r rule: csv_quoted.induct)
     (fastforce simp: Let_def split: prod.splits if_splits)+

text \<open>An unquoted field runs to the next comma.\<close>

definition csv_plain :: "string \<Rightarrow> string \<times> string option" where
  "csv_plain s =
     (case index_byte s comma of None \<Rightarrow> (s, None) | Some i \<Rightarrow> (take i s, Some (drop (Suc i) s)))"

definition csv_field :: "string \<Rightarrow> string \<times> string option" where
  "csv_field s = (if s \<noteq> [] \<and> hd s = quote_char then csv_quoted (tl s) else csv_plain s)"

lemma csv_field_shorter [termination_simp]:
  "(f, Some r) = csv_field s \<Longrightarrow> length r < length s"
  by (cases s)
     (auto simp: csv_field_def csv_plain_def dest!: csv_quoted_shorter [OF sym] index_byte_SomeD
        split: if_splits option.splits)

fun csv_record :: "string \<Rightarrow> string list" where
  "csv_record s =
     (case csv_field s of (f, None) \<Rightarrow> [f] | (f, Some r) \<Rightarrow> f # csv_record r)"

declare csv_record.simps [simp del]

definition csv_read :: "string \<Rightarrow> string list option" where
  "csv_read body =
     (let l = (if body \<noteq> [] \<and> last body = CHR 0x0D then butlast body else body)
      in if l = [] then None else Some (csv_record l))"

definition parsePGAudit :: "string \<Rightarrow> audit option" where
  "parsePGAudit body =
     (case csv_read body of
        None \<Rightarrow> None
      | Some flds \<Rightarrow>
          if length flds < 5 then None
          else if flds ! 0 \<noteq> ''SESSION'' \<and> flds ! 0 \<noteq> ''OBJECT'' then None
          else Some \<lparr>auType = flds ! 0, auClass = flds ! 3, auCommand = flds ! 4,
                     auObjectType = (if length flds \<ge> 7 then flds ! 5 else []),
                     auObjectName = (if length flds \<ge> 7 then flds ! 6 else [])\<rparr>)"

section \<open>The expressions\<close>

definition re_upper :: re where
  "re_upper = Cls (\<lambda>c. 65 \<le> (of_char c :: nat) \<and> (of_char c :: nat) \<le> 90)"

definition re_letter :: re where
  "re_letter = Cls (\<lambda>c. (65 \<le> (of_char c :: nat) \<and> (of_char c :: nat) \<le> 90)
                      \<or> (97 \<le> (of_char c :: nat) \<and> (of_char c :: nat) \<le> 122))"

definition re_ymd :: re where
  "re_ymd = cats [rep 4 re_digit, chr (CHR ''-''), rep 2 re_digit, chr (CHR ''-''), rep 2 re_digit]"

definition re_hms :: re where
  "re_hms = cats [rep 2 re_digit, chr (CHR '':''), rep 2 re_digit, chr (CHR '':''), rep 2 re_digit]"

definition re_frac :: re where
  "re_frac = Cat (chr (CHR ''.'')) (re_plus re_digit)"

definition re_zone :: re where
  "re_zone = Alt (chr (CHR ''Z''))
     (cats [Cls (\<lambda>c. c = CHR ''+'' \<or> c = CHR ''-''), rep 2 re_digit, chr (CHR '':''), rep 2 re_digit])"

definition re_rfc3339 :: re where
  "re_rfc3339 = cats [re_ymd, chr (CHR ''T''), re_hms, re_opt re_frac, re_zone]"

definition pgLine :: re where
  "pgLine = cats
     [Grp 1 (cats [re_ymd, chr (CHR '' ''), re_hms]),
      re_opt (Grp 2 re_frac), chr (CHR '' ''),
      Grp 3 (Cat (rep 2 re_upper) (upto_rep 3 re_upper)), chr (CHR '':''),
      LazyStar re_any, lit '':['', re_plus re_digit, lit '']:'',
      Grp 4 (Cat (re_plus re_upper) (re_opt re_digit)), chr (CHR '':'')]"

definition mysqlLine :: re where
  "mysqlLine = cats
     [Grp 1 re_rfc3339, re_plus (chr (CHR '' '')), re_plus re_digit, re_plus (chr (CHR '' '')),
      chr (CHR ''[''), Grp 2 (re_plus re_letter), chr (CHR '']'')]"

definition mariadbLine :: re where
  "mariadbLine = cats
     [Grp 1 re_ymd, re_plus (chr (CHR '' '')),
      Grp 2 (cats [Cat re_digit (re_opt re_digit), chr (CHR '':''), rep 2 re_digit,
                   chr (CHR '':''), rep 2 re_digit]),
      re_plus (chr (CHR '' '')), re_plus re_digit, re_plus (chr (CHR '' '')),
      chr (CHR ''[''), Grp 3 (re_plus re_letter), chr (CHR '']'')]"

definition slowTimeLine :: re where
  "slowTimeLine = Cat (lit ''# Time: '') (Grp 1 re_rfc3339)"

definition generalLine :: re where
  "generalLine = cats
     [Grp 1 re_rfc3339, chr (CHR 0x09), re_plus (chr (CHR '' '')), re_plus re_digit,
      chr (CHR '' ''), re_upper]"

definition serverAuditLine :: re where
  "serverAuditLine = cats
     [Grp 1 (rep 8 re_digit), re_plus (chr (CHR '' '')), Grp 2 re_hms, chr (CHR '','')]"

section \<open>The parsers\<close>

definition postgres_Parse :: "string \<Rightarrow> meta" where
  "postgres_Parse line =
     (case re_match pgLine line of
        None \<Rightarrow> no_meta
      | Some (m, tail) \<Rightarrow>
          let rest = trim_left_byte tail (CHR '' '')
          in \<lparr>mtTimestamp = (if cap m 3 = ''UTC'' then time_or_zero (parse_datetime (cap m 1))
                             else time_zero),
              mtSeverity = cap m 4,
              mtAudit = (case cut_prefix rest ''AUDIT: '' of
                           None \<Rightarrow> None | Some body \<Rightarrow> parsePGAudit body)\<rparr>)"

definition mysql_Parse :: "string \<Rightarrow> meta" where
  "mysql_Parse line =
     (case re_match mysqlLine line of
        Some (m, _) \<Rightarrow>
          \<lparr>mtTimestamp = time_or_zero (parse_rfc3339 (cap m 1)),
           mtSeverity = to_upper (cap m 2), mtAudit = None\<rparr>
      | None \<Rightarrow>
      (case re_match mariadbLine line of
        Some (m, _) \<Rightarrow>
          \<lparr>mtTimestamp = time_or_zero (parse_datetime (cap m 1 @ '' '' @ cap m 2)),
           mtSeverity = to_upper (cap m 3), mtAudit = None\<rparr>
      | None \<Rightarrow>
      (case re_match slowTimeLine line of
        Some (m, _) \<Rightarrow> no_meta\<lparr>mtTimestamp := time_or_zero (parse_rfc3339 (cap m 1))\<rparr>
      | None \<Rightarrow>
      (case re_match generalLine line of
        Some (m, _) \<Rightarrow> no_meta\<lparr>mtTimestamp := time_or_zero (parse_rfc3339 (cap m 1))\<rparr>
      | None \<Rightarrow>
      (case re_match serverAuditLine line of
        Some (m, _) \<Rightarrow>
          no_meta\<lparr>mtTimestamp := time_or_zero (parse_compact (cap m 1 @ '' '' @ cap m 2))\<rparr>
      | None \<Rightarrow> no_meta)))))"

text \<open>ForEngine: None when the engine has no parser.\<close>

definition ForEngine :: "string \<Rightarrow> (string \<Rightarrow> meta) option" where
  "ForEngine engine =
     (if engine = ''postgres'' then Some postgres_Parse
      else if engine = ''mysql'' \<or> engine = ''mariadb'' then Some mysql_Parse
      else None)"

end
