(* ===== verification/Rotation.thy ===== *)
theory Rotation
  imports Regex LogRecord "HOL-Library.Char_ord" "HOL-Library.List_Lexorder"
begin

text \<open>
  internal/source/rds/rotation.go: hour identifiers, the names of hourly-rotated MySQL log
  files and the hour-addressed markers.  The two regular expressions are those of the
  source.
\<close>

section \<open>Definitions\<close>

datatype hour_id = HourID (hiDate: string) (hiHour: int)

definition hour_id_String :: "hour_id \<Rightarrow> string" where
  "hour_id_String h = hiDate h @ ''.'' @ format_int (hiHour h)"

text \<open>HourID.Compare: dates as strings first, then the hour index.\<close>

definition hour_Compare :: "hour_id \<Rightarrow> hour_id \<Rightarrow> int" where
  "hour_Compare h k =
     (if hiDate h < hiDate k then -1
      else if hiDate h > hiDate k then 1
      else if hiHour h < hiHour k then -1
      else if hiHour h > hiHour k then 1
      else 0)"

definition re_date :: re where
  "re_date = cats [re_digit, re_digit, re_digit, re_digit, chr (CHR ''-''),
                   re_digit, re_digit, chr (CHR ''-''), re_digit, re_digit]"

definition re_hour :: re where
  "re_hour = Cat re_digit (re_opt re_digit)"

definition rotatedName :: re where
  "rotatedName = cats [Grp 1 (Cat (re_plus re_any) (lit ''.log'')), chr (CHR ''.''),
                       Grp 2 re_date, chr (CHR ''.''), Grp 3 re_hour, EndText]"

definition hourMarker :: re where
  "hourMarker = cats [Grp 1 re_date, chr (CHR ''.''), Grp 2 re_hour, chr (CHR '':''),
                      Grp 3 (re_plus re_digit), EndText]"

definition SplitRotated :: "string \<Rightarrow> (string \<times> hour_id) option" where
  "SplitRotated name =
     (case re_match rotatedName name of
        None \<Rightarrow> None
      | Some (m, _) \<Rightarrow>
          (case parse_int (cap m 3) of
             None \<Rightarrow> None
           | Some h \<Rightarrow> Some (cap m 1, HourID (cap m 2) h)))"

definition ParseHourMarker :: "string \<Rightarrow> (hour_id \<times> int) option" where
  "ParseHourMarker marker =
     (case re_match hourMarker marker of
        None \<Rightarrow> None
      | Some (m, _) \<Rightarrow>
          (case (parse_int (cap m 2), parse_int (cap m 3)) of
             (Some h, Some off) \<Rightarrow> Some (HourID (cap m 1) h, off)
           | _ \<Rightarrow> None))"

section \<open>Hour identifiers are linearly ordered\<close>

instantiation hour_id :: linorder
begin

definition less_eq_hour_id :: "hour_id \<Rightarrow> hour_id \<Rightarrow> bool" where
  "less_eq_hour_id h k = (hour_Compare h k \<le> 0)"

definition less_hour_id :: "hour_id \<Rightarrow> hour_id \<Rightarrow> bool" where
  "less_hour_id h k = (hour_Compare h k < 0)"

instance
proof
  fix x y z :: hour_id
  show "(x < y) = (x \<le> y \<and> \<not> y \<le> x)"
    by (auto simp: less_eq_hour_id_def less_hour_id_def hour_Compare_def)
  show "x \<le> x"
    by (simp add: less_eq_hour_id_def hour_Compare_def)
  show "x \<le> y \<Longrightarrow> y \<le> z \<Longrightarrow> x \<le> z"
    by (auto simp: less_eq_hour_id_def hour_Compare_def split: if_splits)
  show "x \<le> y \<Longrightarrow> y \<le> x \<Longrightarrow> x = y"
    by (cases x; cases y) (auto simp: less_eq_hour_id_def hour_Compare_def split: if_splits)
  show "x \<le> y \<or> y \<le> x"
    by (auto simp: less_eq_hour_id_def hour_Compare_def)
qed

end

lemma hour_Compare_less: "hour_Compare h k < 0 \<longleftrightarrow> h < k"
  by (simp add: less_hour_id_def)

lemma hour_Compare_greater: "hour_Compare h k > 0 \<longleftrightarrow> k < h"
  by (cases h; cases k) (auto simp: less_hour_id_def hour_Compare_def)

lemma hour_Compare_eq: "hour_Compare h k = 0 \<longleftrightarrow> h = k"
  by (cases h; cases k) (auto simp: hour_Compare_def)

section \<open>What the regular expressions accept\<close>

text \<open>The ten characters of a date, and the one or two of an hour.\<close>

fun date_ok :: "string \<Rightarrow> bool" where
  "date_ok [a, b, c, d, e, f, g, h, i, j] =
     (list_all is_digit [a, b, c, d, f, g, i, j] \<and> e = CHR ''-'' \<and> h = CHR ''-'')"
| "date_ok _ = False"

definition hour_ok :: "string \<Rightarrow> bool" where
  "hour_ok u = (list_all is_digit u \<and> (length u = 1 \<or> length u = 2))"

lemma date_ok_length: "date_ok u \<Longrightarrow> length u = 10"
  by (cases u rule: date_ok.cases) auto

lemma mem_re_date [re_mem]:
  "m \<in> set (rm re_date s) \<longleftrightarrow> (\<exists>u t. m = ([], t) \<and> s = u @ t \<and> date_ok u)"
proof
  assume "m \<in> set (rm re_date s)"
  then obtain a b c d f g i j t where
    "m = ([], t)" "s = [a, b, c, d, CHR ''-'', f, g, CHR ''-'', i, j] @ t"
    "date_ok [a, b, c, d, CHR ''-'', f, g, CHR ''-'', i, j]"
    unfolding re_date_def re_digit_def cats.simps mem_cat_Cls mem_cat_chr mem_Cls
    by (elim exE conjE) simp
  then show "\<exists>u t. m = ([], t) \<and> s = u @ t \<and> date_ok u" by blast
next
  assume "\<exists>u t. m = ([], t) \<and> s = u @ t \<and> date_ok u"
  then obtain u t where ut: "m = ([], t)" "s = u @ t" "date_ok u" by blast
  from ut show "m \<in> set (rm re_date s)"
    by (cases u rule: date_ok.cases)
      (simp_all add: re_date_def re_digit_def mem_cat_Cls mem_cat_chr mem_Cls del: rm.simps)
qed

lemma hour_ok_iff:
  "hour_ok u \<longleftrightarrow> (\<exists>a. u = [a] \<and> is_digit a) \<or> (\<exists>a b. u = [a, b] \<and> is_digit a \<and> is_digit b)"
  by (auto simp: hour_ok_def length_Suc_conv numeral_2_eq_2)

lemma mem_re_hour [re_mem]:
  "m \<in> set (rm re_hour s) \<longleftrightarrow> (\<exists>u t. m = ([], t) \<and> s = u @ t \<and> hour_ok u)"
  by (auto simp: re_hour_def re_opt_def re_digit_def re_mem hour_ok_iff)

text \<open>A marker that matches: a date, a dot, an hour, a colon and an offset.\<close>

definition marker_parts :: "string \<Rightarrow> string \<Rightarrow> string \<Rightarrow> string \<Rightarrow> bool" where
  "marker_parts s d h n =
     (s = d @ CHR ''.'' # h @ CHR '':'' # n \<and> date_ok d \<and> hour_ok h
      \<and> n \<noteq> [] \<and> list_all is_digit n)"

definition rotated_parts :: "string \<Rightarrow> string \<Rightarrow> string \<Rightarrow> string \<Rightarrow> bool" where
  "rotated_parts s b d h =
     (s = b @ ''.log'' @ CHR ''.'' # d @ CHR ''.'' # h \<and> date_ok d \<and> hour_ok h
      \<and> b \<noteq> [] \<and> CHR 0x0A \<notin> set b)"

lemma mem_cat_Grp:
  "m \<in> set (rm (Cat (Grp n r1) r2) s) \<longleftrightarrow>
     (\<exists>c t d u. (c, t) \<in> set (rm r1 s) \<and> (d, u) \<in> set (rm r2 t)
        \<and> m = ((n, take (length s - length t) s) # c @ d, u))"
  unfolding mem_Cat mem_Grp by fastforce

lemma mem_hourMarker:
  "m \<in> set (rm hourMarker s) \<longleftrightarrow>
     (\<exists>d h n. marker_parts s d h n \<and> m = ([(1, d), (2, h), (3, n)], []))"
  unfolding hourMarker_def re_digit_def cats.simps mem_cat_Grp mem_cat_chr mem_EndText
    mem_re_date mem_re_hour mem_plus_cls marker_parts_def
  by fastforce

lemma list_all_re_any: "list_all (\<lambda>c. c \<noteq> x) u \<longleftrightarrow> x \<notin> set u"
  by (induction u) auto

lemma mem_rotatedName:
  "m \<in> set (rm rotatedName s) \<longleftrightarrow>
     (\<exists>b d h. rotated_parts s b d h \<and> m = ([(1, b @ ''.log''), (2, d), (3, h)], []))"
  unfolding rotatedName_def re_any_def cats.simps mem_cat_Grp mem_cat_chr mem_EndText
    mem_re_date mem_re_hour mem_plus_cls mem_Grp mem_Cat [of _ "re_plus r" for r] mem_lit
    rotated_parts_def list_all_re_any
  by fastforce

lemma hour_ok_no_sep: "hour_ok h \<Longrightarrow> CHR '':'' \<notin> set h \<and> CHR ''.'' \<notin> set h"
  by (auto simp: hour_ok_def list_all_iff dest: is_digit_char_neq)

lemma digits_no_sep: "list_all is_digit n \<Longrightarrow> CHR '':'' \<notin> set n"
  by (auto simp: list_all_iff dest: is_digit_char_neq)

lemma split_at_unique:
  "u @ c # v = u' @ (c::char) # v' \<Longrightarrow> c \<notin> set v \<Longrightarrow> c \<notin> set v' \<Longrightarrow> u = u' \<and> v = v'"
  using last_index_byte_append [of c v u] last_index_byte_append [of c v' u'] by simp

lemma marker_parts_unique:
  assumes "marker_parts s d h n" "marker_parts s d' h' n'"
  shows "d = d' \<and> h = h' \<and> n = n'"
proof -
  have "(d @ CHR ''.'' # h) @ CHR '':'' # n = (d' @ CHR ''.'' # h') @ CHR '':'' # n'"
    using assms by (simp add: marker_parts_def)
  then have "d @ CHR ''.'' # h = d' @ CHR ''.'' # h'" "n = n'"
    using split_at_unique [of _ "CHR '':''"] digits_no_sep assms
    unfolding marker_parts_def by metis+
  moreover have "length d = length d'"
    using assms date_ok_length by (simp add: marker_parts_def)
  ultimately show ?thesis by simp
qed

lemma rotated_parts_unique:
  assumes "rotated_parts s b d h" "rotated_parts s b' d' h'"
  shows "b = b' \<and> d = d' \<and> h = h'"
proof -
  have "(b @ ''.log'' @ CHR ''.'' # d) @ CHR ''.'' # h
      = (b' @ ''.log'' @ CHR ''.'' # d') @ CHR ''.'' # h'"
    using assms by (simp add: rotated_parts_def)
  then have *: "b @ ''.log'' @ CHR ''.'' # d = b' @ ''.log'' @ CHR ''.'' # d'" "h = h'"
    using split_at_unique [of _ "CHR ''.''"] hour_ok_no_sep assms
    unfolding rotated_parts_def by metis+
  moreover have "length d = length d'"
    using assms date_ok_length by (simp add: rotated_parts_def)
  ultimately have "d = d'" "(b @ ''.log'') @ ''.'' = (b' @ ''.log'') @ ''.''"
    using append_eq_append_conv [of d d' "(b @ ''.log'') @ ''.''" "(b' @ ''.log'') @ ''.''"]
    by simp_all
  with * show ?thesis by simp
qed

lemma hour_ok_parse: "hour_ok h \<Longrightarrow> parse_int h = Some (int (digits_val h))"
  by (auto simp: hour_ok_iff parse_int_def Let_def in_i64_iff digits_val_def digit_val_def
      is_digit_def dest: is_digit_char_neq)

lemma digits_parse:
  "list_all is_digit n \<Longrightarrow> n \<noteq> [] \<Longrightarrow>
     parse_int n = (if int (digits_val n) \<le> i64_max then Some (int (digits_val n)) else None)"
  by (cases n) (auto simp: parse_int_def Let_def in_i64_def i64_min_def dest: is_digit_char_neq)

section \<open>The two parsers\<close>

text \<open>
  An hour marker parses exactly when it has the documented shape and its offset fits an
  int64, and to the values written in it.
\<close>

lemma ParseHourMarker_iff:
  "ParseHourMarker s = Some (hid, off) \<longleftrightarrow>
     (\<exists>d h n. marker_parts s d h n \<and> hid = HourID d (int (digits_val h))
        \<and> off = int (digits_val n) \<and> off \<le> i64_max)"
proof (cases "re_match hourMarker s")
  case None
  have "\<not> marker_parts s d h n" for d h n
  proof
    assume "marker_parts s d h n"
    then have "([(1, d), (2, h), (3, n)], []) \<in> set (rm hourMarker s)"
      unfolding mem_hourMarker by blast
    with None show False by (simp add: re_match_None)
  qed
  with None show ?thesis by (auto simp: ParseHourMarker_def)
next
  case (Some m)
  then obtain d h n where p: "marker_parts s d h n" "m = ([(1, d), (2, h), (3, n)], [])"
    using re_match_mem [of hourMarker s m] mem_hourMarker [of m s] by blast
  have "hour_ok h" "list_all is_digit n" "n \<noteq> []"
    using p(1) by (simp_all add: marker_parts_def)
  then have "ParseHourMarker s =
      (if int (digits_val n) \<le> i64_max
       then Some (HourID d (int (digits_val h)), int (digits_val n)) else None)"
    using Some p(2) by (simp add: ParseHourMarker_def cap_def hour_ok_parse digits_parse)
  moreover have "marker_parts s d' h' n' \<longleftrightarrow> d' = d \<and> h' = h \<and> n' = n" for d' h' n'
    using p(1) marker_parts_unique [OF p(1)] by blast
  ultimately show ?thesis by auto
qed

lemma SplitRotated_iff:
  "SplitRotated s = Some (base, hid) \<longleftrightarrow>
     (\<exists>b d h. rotated_parts s b d h \<and> base = b @ ''.log'' \<and> hid = HourID d (int (digits_val h)))"
proof (cases "re_match rotatedName s")
  case None
  have "\<not> rotated_parts s b d h" for b d h
  proof
    assume "rotated_parts s b d h"
    then have "([(1, b @ ''.log''), (2, d), (3, h)], []) \<in> set (rm rotatedName s)"
      unfolding mem_rotatedName by blast
    with None show False by (simp add: re_match_None)
  qed
  with None show ?thesis by (auto simp: SplitRotated_def)
next
  case (Some m)
  then obtain b d h where p: "rotated_parts s b d h" "m = ([(1, b @ ''.log''), (2, d), (3, h)], [])"
    using re_match_mem [of rotatedName s m] mem_rotatedName [of m s] by blast
  have "hour_ok h" using p(1) by (simp add: rotated_parts_def)
  then have "SplitRotated s = Some (b @ ''.log'', HourID d (int (digits_val h)))"
    using Some p(2) by (simp add: SplitRotated_def cap_def hour_ok_parse)
  moreover have "rotated_parts s b' d' h' \<longleftrightarrow> b' = b \<and> d' = d \<and> h' = h" for b' d' h'
    using p(1) rotated_parts_unique [OF p(1)] by blast
  ultimately show ?thesis by auto
qed

text \<open>A well-formed hour identifier, and the round trips through its printed form.\<close>

definition hour_id_wf :: "hour_id \<Rightarrow> bool" where
  "hour_id_wf hid = (date_ok (hiDate hid) \<and> 0 \<le> hiHour hid \<and> hiHour hid \<le> 99)"

lemma length_nat_str_le_99: "n \<le> 99 \<Longrightarrow> length (nat_str n) = 1 \<or> length (nat_str n) = 2"
  by (subst (1 2) nat_str.simps) (auto simp: nat_str.simps [of "n div 10"])

lemma nat_str_hour_ok: "n \<le> 99 \<Longrightarrow> hour_ok (nat_str n)"
  using length_nat_str_le_99 by (simp add: hour_ok_def nat_str_digits)

lemma ParseHourMarker_print:
  assumes "hour_id_wf hid" "0 \<le> off" "off \<le> i64_max"
  shows "ParseHourMarker (hour_id_String hid @ '':'' @ format_int off) = Some (hid, off)"
proof -
  have "marker_parts (hour_id_String hid @ '':'' @ format_int off)
          (hiDate hid) (nat_str (nat (hiHour hid))) (nat_str (nat off))"
    using assms nat_str_hour_ok [of "nat (hiHour hid)"] nat_le_iff [of "hiHour hid" 99]
    by (simp add: marker_parts_def hour_id_wf_def hour_id_String_def format_int_def nat_str_digits)
  moreover have "hid = HourID (hiDate hid) (int (nat (hiHour hid)))"
    using assms by (simp add: hour_id_wf_def)
  ultimately show ?thesis
    using assms by (auto simp: ParseHourMarker_iff intro!: exI)
qed

lemma SplitRotated_print:
  assumes "hour_id_wf hid" "base = b @ ''.log''" "b \<noteq> []" "CHR 0x0A \<notin> set b"
  shows "SplitRotated (base @ ''.'' @ hour_id_String hid) = Some (base, hid)"
proof -
  have "rotated_parts (base @ ''.'' @ hour_id_String hid) b (hiDate hid) (nat_str (nat (hiHour hid)))"
    using assms nat_str_hour_ok [of "nat (hiHour hid)"] nat_le_iff [of "hiHour hid" 99]
    by (simp add: rotated_parts_def hour_id_wf_def hour_id_String_def format_int_def)
  moreover have "hid = HourID (hiDate hid) (int (nat (hiHour hid)))"
    using assms by (simp add: hour_id_wf_def)
  ultimately show ?thesis
    using assms by (auto simp: SplitRotated_iff intro!: exI)
qed

lemma ParseHourMarker_bounds:
  "ParseHourMarker s = Some (hid, off) \<Longrightarrow> 0 \<le> off \<and> off \<le> i64_max \<and> date_ok (hiDate hid)"
  by (auto simp: ParseHourMarker_iff marker_parts_def)

section \<open>Properties\<close>

text \<open>C28. The names and markers of rotated files round-trip: an hour printed into a marker with a
  non-negative offset, and an hour printed behind the name of its log, are read back exactly.\<close>

theorem rotation_roundtrip:
  assumes "hour_id_wf hid" "0 \<le> off" "off \<le> i64_max" "b \<noteq> []" "CHR 0x0A \<notin> set b"
  shows "ParseHourMarker (hour_id_String hid @ '':'' @ format_int off) = Some (hid, off)
    \<and> SplitRotated (b @ ''.log.'' @ hour_id_String hid) = Some (b @ ''.log'', hid)"
  using ParseHourMarker_print [OF assms(1-3)] SplitRotated_print [OF assms(1) _ assms(4,5), of "b @ ''.log''"]
  by simp

theorem rotation_roundtrip_witness:
  "ParseHourMarker (hour_id_String (HourID ''2024-01-01'' 5) @ '':'' @ format_int 40)
     = Some (HourID ''2024-01-01'' 5, 40)"
  using rotation_roundtrip [of "HourID ''2024-01-01'' 5" 40 "''m''"]
  by (simp add: hour_id_wf_def is_digit_def char_of_def bit_0 i64_max_def)

end
