(* ===== verification/Fetcher.thy ===== *)
theory Fetcher
  imports Classifier Parse Rotation Hash
begin

text \<open>
  internal/source/rds/fetcher.go: the fetcher of one RDS instance.  The two operations of
  the RDS client are parameters, functions of a world 'w they may change; everything the
  fetcher makes of their answers is modelled.  Loops that page until the service says there
  is no more are partial functions: None is a call that does not return.
\<close>

section \<open>The RDS client\<close>

record portion_resp =
  prData :: string
  prMarker :: string
  prPending :: bool

record log_file_details =
  ldName :: string
  ldSize :: int
  ldLastWritten :: int

record describe_resp =
  drFiles :: "log_file_details list"
  drMarker :: string

record 'w rds_api =
  DescribeDBLogFiles :: "string \<Rightarrow> string \<Rightarrow> string \<Rightarrow> 'w \<Rightarrow> (go_err + describe_resp) \<times> 'w"
  DownloadDBLogFilePortion ::
    "string \<Rightarrow> string \<Rightarrow> string \<Rightarrow> int option \<Rightarrow> 'w \<Rightarrow> (go_err + portion_resp) \<times> 'w"

section \<open>Data\<close>

definition MarkerBeginning :: string where "MarkerBeginning = ''0''"
definition truncationNotice :: string where "truncationNotice = ''[Your log message was truncated]''"
definition maxRecordBytes :: nat where "maxRecordBytes = 1048576"
definition maxLinesPerCall :: int where "maxLinesPerCall = 10000"

abbreviation nl :: char where "nl \<equiv> CHR 0x0A"

record file_meta =
  fmName :: string
  fmSize :: int
  fmLastWrittenMS :: int

definition LastWritten :: "file_meta \<Rightarrow> time" where
  "LastWritten f = (if fmLastWrittenMS f = 0 then time_zero
                    else time_of_unix_milli (fmLastWrittenMS f))"

record chunk =
  chLogFile :: string
  chRecords :: "logrecord list"
  chPrevMarker :: string
  chNextMarker :: string
  chBytes :: int
  chPending :: bool
  chBatchID :: string
  chLeading :: bool
  chTruncatedLines :: nat

record 'w fetcher =
  ftApi :: "'w rds_api"
  ftInstanceID :: string
  ftEngine :: string
  ftClassifier :: classifier
  ftParser :: "(string \<Rightarrow> meta) option"
  ftClock :: "'w \<Rightarrow> time"
  ftObserve :: "string \<Rightarrow> string \<Rightarrow> 'w \<Rightarrow> 'w"

record 'w fetcher_opts =
  foAPI :: "'w rds_api option"
  foInstanceID :: string
  foEngine :: string
  foIncludeAudit :: bool
  foClock :: "('w \<Rightarrow> time) option"
  foObserver :: "(string \<Rightarrow> string \<Rightarrow> 'w \<Rightarrow> 'w) option"

text \<open>NewFetcher; the second argument is time.Now, the default clock.\<close>

definition NewFetcher :: "'w fetcher_opts \<Rightarrow> ('w \<Rightarrow> time) \<Rightarrow> go_err + 'w fetcher" where
  "NewFetcher opts timeNow =
     (case foAPI opts of
        None \<Rightarrow> Inl (ErrMsg ''rds: api is required'')
      | Some api \<Rightarrow>
          if foInstanceID opts = [] then Inl (ErrMsg ''rds: instance id is required'')
          else Inr \<lparr>ftApi = api, ftInstanceID = foInstanceID opts, ftEngine = foEngine opts,
                    ftClassifier = NewClassifier (foEngine opts) (foIncludeAudit opts),
                    ftParser = ForEngine (foEngine opts),
                    ftClock = (case foClock opts of None \<Rightarrow> timeNow | Some c \<Rightarrow> c),
                    ftObserve = (case foObserver opts of None \<Rightarrow> (\<lambda>_ _ w. w) | Some g \<Rightarrow> g)\<rparr>)"

section \<open>Throttling and API accounting\<close>

definition throttle_codes :: "string list" where
  "throttle_codes = [''Throttling'', ''ThrottlingException'', ''RequestLimitExceeded'',
     ''TooManyRequestsException'', ''RequestThrottled'', ''RequestThrottledException'']"

definition IsThrottle :: "go_err \<Rightarrow> bool" where
  "IsThrottle err =
     (if err_is err QuotaExceeded then True
      else (case first_api err of None \<Rightarrow> False | Some c \<Rightarrow> c \<in> set throttle_codes))"

definition fetcher_record :: "'w fetcher \<Rightarrow> string \<Rightarrow> go_err option \<Rightarrow> 'w \<Rightarrow> 'w" where
  "fetcher_record f op err w =
     ftObserve f op
       (case err of None \<Rightarrow> ''ok'' | Some e \<Rightarrow> if IsThrottle e then ''throttled'' else ''error'') w"

definition err_of :: "go_err + 'a \<Rightarrow> go_err option" where
  "err_of r = (case r of Inl e \<Rightarrow> Some e | Inr _ \<Rightarrow> None)"

definition GroupsMultiline :: "'w fetcher \<Rightarrow> bool" where
  "GroupsMultiline f = (ftParser f \<noteq> None)"

section \<open>Discovery of log files\<close>

definition accepted_files :: "classifier \<Rightarrow> log_file_details list \<Rightarrow> file_meta list" where
  "accepted_files cl ds =
     map (\<lambda>d. \<lparr>fmName = ldName d, fmSize = ldSize d, fmLastWrittenMS = ldLastWritten d\<rparr>)
       (filter (\<lambda>d. Accepts cl (ldName d)) ds)"

partial_function (option) discover_loop ::
    "'w fetcher \<Rightarrow> string \<Rightarrow> file_meta list \<Rightarrow> 'w \<Rightarrow> ((go_err + file_meta list) \<times> 'w) option" where
  "discover_loop f marker out w =
     (case DescribeDBLogFiles (ftApi f) (ftInstanceID f) marker
             (FilenameContains (ftClassifier f)) w of
        (resp, w1) \<Rightarrow>
          let w2 = fetcher_record f ''DescribeDBLogFiles'' (err_of resp) w1 in
          (case resp of
             Inl e \<Rightarrow> Some (Inl (Wrapped (''describe log files '' @ go_quote (ftInstanceID f)) e), w2)
           | Inr r \<Rightarrow>
               let out' = out @ accepted_files (ftClassifier f) (drFiles r) in
               if drMarker r = [] then Some (Inr out', w2)
               else discover_loop f (drMarker r) out' w2))"

definition DiscoverFiles :: "'w fetcher \<Rightarrow> 'w \<Rightarrow> ((go_err + file_meta list) \<times> 'w) option" where
  "DiscoverFiles f w = discover_loop f [] [] w"

section \<open>One download, with truncation recovery\<close>

definition download ::
    "'w fetcher \<Rightarrow> string \<Rightarrow> string \<Rightarrow> int option \<Rightarrow> 'w \<Rightarrow> (go_err + portion_resp) \<times> 'w" where
  "download f logFile marker lines w =
     (case DownloadDBLogFilePortion (ftApi f) (ftInstanceID f) logFile marker lines w of
        (resp, w1) \<Rightarrow> (resp, fetcher_record f ''DownloadDBLogFilePortion'' (err_of resp) w1))"

definition isTruncated :: "string \<Rightarrow> bool" where
  "isTruncated d = has_suffix (trim_right_byte d nl) truncationNotice"

definition stripTruncationNotice :: "string \<Rightarrow> string" where
  "stripTruncationNotice d =
     (let body = trim_right_byte d nl in
      case last_index_byte body nl of None \<Rightarrow> [] | Some i \<Rightarrow> take (i + 1) body)"

definition completeLines :: "string \<Rightarrow> nat" where
  "completeLines d = count_byte (trim_suffix (stripTruncationNotice d) [nl]) nl"

record raw_portion =
  rpData :: string
  rpNext :: string
  rpPending :: bool
  rpTruncated :: nat

text \<open>The loop of pullRaw; the number counts the attempts left after this one.\<close>

fun pull_attempts ::
    "'w fetcher \<Rightarrow> string \<Rightarrow> string \<Rightarrow> nat \<Rightarrow> int option \<Rightarrow> 'w \<Rightarrow> (go_err + portion_resp) \<times> 'w" where
  "pull_attempts f logFile marker 0 lines w = download f logFile marker lines w"
| "pull_attempts f logFile marker (Suc k) lines w =
     (case download f logFile marker lines w of
        (Inl e, w1) \<Rightarrow> (Inl e, w1)
      | (Inr resp, w1) \<Rightarrow>
          if \<not> isTruncated (prData resp) \<or> completeLines (prData resp) = 0 then (Inr resp, w1)
          else pull_attempts f logFile marker k
                 (Some (min (int (completeLines (prData resp))) maxLinesPerCall)) w1)"

definition pullRaw ::
    "'w fetcher \<Rightarrow> string \<Rightarrow> string \<Rightarrow> 'w \<Rightarrow> (go_err + raw_portion) \<times> 'w" where
  "pullRaw f logFile marker w =
     (case pull_attempts f logFile marker 4 None w of
        (Inl e, w1) \<Rightarrow>
          (Inl (Wrapped (''download portion '' @ go_quote (ftInstanceID f) @ ''/'' @ go_quote logFile) e), w1)
      | (Inr resp, w1) \<Rightarrow>
          (Inr (if isTruncated (prData resp)
                then \<lparr>rpData = stripTruncationNotice (prData resp), rpNext = prMarker resp,
                      rpPending = prPending resp, rpTruncated = 1\<rparr>
                else \<lparr>rpData = prData resp, rpNext = prMarker resp,
                      rpPending = prPending resp, rpTruncated = 0\<rparr>), w1))"

section \<open>Records\<close>

text \<open>
  One line of parseRecords: the records so far, the last timestamp seen and whether the
  data began with a continuation line.
\<close>

definition append_line :: "logrecord list \<Rightarrow> string \<Rightarrow> logrecord list" where
  "append_line out line =
     butlast out @ [(last out)\<lparr>lrMessage := lrMessage (last out) @ nl # line\<rparr>]"

definition line_meta :: "(string \<Rightarrow> meta) option \<Rightarrow> string \<Rightarrow> meta" where
  "line_meta parser line = (case parser of None \<Rightarrow> no_meta | Some p \<Rightarrow> p line)"

definition starts_record :: "(string \<Rightarrow> meta) option \<Rightarrow> string \<Rightarrow> bool" where
  "starts_record parser line =
     (case parser of None \<Rightarrow> True
      | Some p \<Rightarrow> mtSeverity (p line) \<noteq> [] \<or> \<not> is_zero_time (mtTimestamp (p line))
                  \<or> mtAudit (p line) \<noteq> None)"

definition new_record :: "'w fetcher \<Rightarrow> string \<Rightarrow> time \<Rightarrow> time \<Rightarrow> string \<Rightarrow> logrecord" where
  "new_record f logFile now lastTS line =
     (let m = line_meta (ftParser f) line in
      \<lparr>lrInstanceID = ftInstanceID f, lrEngine = ftEngine f, lrLogFile = logFile,
       lrTimestamp = (if \<not> is_zero_time (mtTimestamp m) then mtTimestamp m
                      else if \<not> is_zero_time lastTS then lastTS else now),
       lrSeverity = mtSeverity m, lrMessage = line, lrMarker = [], lrBatchID = [],
       lrAudit = mtAudit m, lrTruncated = False\<rparr>)"

fun parse_line ::
    "'w fetcher \<Rightarrow> string \<Rightarrow> time \<Rightarrow> logrecord list \<times> time \<times> bool \<Rightarrow> string
       \<Rightarrow> logrecord list \<times> time \<times> bool" where
  "parse_line f logFile now (out, lastTS, leading) line =
     (if line = [] then (out, lastTS, leading)
      else if \<not> starts_record (ftParser f) line \<and> out \<noteq> []
              \<and> length (lrMessage (last out)) + 1 + length line \<le> maxRecordBytes
      then (append_line out line, lastTS, leading)
      else (out @ [new_record f logFile now lastTS line],
            (let ts = mtTimestamp (line_meta (ftParser f) line)
             in if is_zero_time ts then lastTS else ts),
            leading \<or> (\<not> starts_record (ftParser f) line \<and> out = [])))"

definition parseRecords :: "'w fetcher \<Rightarrow> string \<Rightarrow> string \<Rightarrow> 'w \<Rightarrow> logrecord list \<times> bool" where
  "parseRecords f logFile data w =
     (if data = [] then ([], False)
      else (case foldl (parse_line f logFile (ftClock f w)) ([], time_zero, False)
                   (split_byte nl data) of
              (out, _, leading) \<Rightarrow> (out, leading)))"

definition Records :: "'w fetcher \<Rightarrow> string \<Rightarrow> string \<Rightarrow> 'w \<Rightarrow> logrecord list" where
  "Records f logFile text w = fst (parseRecords f logFile text w)"

definition JoinContinuation :: "logrecord \<Rightarrow> logrecord \<Rightarrow> logrecord \<times> bool" where
  "JoinContinuation prev next =
     (if length (lrMessage prev) + 1 + length (lrMessage next) > maxRecordBytes then (prev, False)
      else (prev\<lparr>lrMessage := lrMessage prev @ nl # lrMessage next,
                 lrTruncated := lrTruncated prev \<or> lrTruncated next\<rparr>, True))"

text \<open>PullPortion: one chunk from a marker; the empty marker is the beginning.\<close>

definition mark_last_truncated :: "logrecord list \<Rightarrow> logrecord list" where
  "mark_last_truncated recs =
     (if recs = [] then [] else butlast recs @ [(last recs)\<lparr>lrTruncated := True\<rparr>])"

definition PullPortion ::
    "'w fetcher \<Rightarrow> string \<Rightarrow> string \<Rightarrow> 'w \<Rightarrow> (go_err + chunk) \<times> 'w" where
  "PullPortion f logFile marker w =
     (if logFile = [] then (Inl (ErrMsg ''rds: log file is required''), w)
      else (case pullRaw f logFile (if marker = [] then MarkerBeginning else marker) w of
              (Inl e, w1) \<Rightarrow> (Inl e, w1)
            | (Inr raw, w1) \<Rightarrow>
                (let (recs, leading) = parseRecords f logFile (rpData raw) w1 in
                 (Inr \<lparr>chLogFile = logFile,
                       chRecords = (if rpTruncated raw > 0 then mark_last_truncated recs else recs),
                       chPrevMarker = marker, chNextMarker = rpNext raw,
                       chBytes = int (length (rpData raw)), chPending = rpPending raw,
                       chBatchID = BatchID (ftInstanceID f) logFile marker (rpNext raw),
                       chLeading = leading, chTruncatedLines = rpTruncated raw\<rparr>, w1))))"

section \<open>Offset markers and byte ranges\<close>

definition OffsetMarker :: "string \<Rightarrow> (string \<times> int) option" where
  "OffsetMarker marker =
     (case last_index_byte marker (CHR '':'') of
        None \<Rightarrow> None
      | Some i \<Rightarrow>
          if i = 0 then None
          else (case parse_int (drop (Suc i) marker) of
                  None \<Rightarrow> None | Some off \<Rightarrow> Some (take i marker, off)))"

definition offset_marker :: "string \<Rightarrow> int \<Rightarrow> string" where
  "offset_marker pfx off = pfx @ '':'' @ format_int off"

text \<open>cutRange: the owned lines of a buffer that begins at file offset bufStart.\<close>

definition cutRange :: "string \<Rightarrow> int \<Rightarrow> bool \<Rightarrow> nat \<Rightarrow> string \<times> int" where
  "cutRange text bufStart lineStart endIdx =
     (if lineStart then (take endIdx text, bufStart + int endIdx)
      else (case index_byte text nl of
              None \<Rightarrow> ([], bufStart + int endIdx)
            | Some i \<Rightarrow>
                if endIdx < i + 1 then ([], bufStart + int (i + 1))
                else (drop (i + 1) (take endIdx text), bufStart + int endIdx)))"

text \<open>
  The loop of ReadRange.  The buffer holds the bytes from bufStart to pos.
\<close>

definition range_cut :: "string \<Rightarrow> int \<Rightarrow> int \<Rightarrow> bool \<Rightarrow> (string \<times> int) option" where
  "range_cut text bufStart end lineStart =
     (if end < 0 then None
      else let from = nat (max (end - 1 - bufStart) 0) in
           if from < length text then
             (case index_byte (drop from text) nl of
                None \<Rightarrow> None
              | Some i \<Rightarrow> Some (cutRange text bufStart lineStart (from + i + 1)))
           else None)"

partial_function (option) range_loop ::
    "'w fetcher \<Rightarrow> string \<Rightarrow> string \<Rightarrow> int \<Rightarrow> int \<Rightarrow> bool \<Rightarrow> int \<Rightarrow> string \<Rightarrow> 'w
       \<Rightarrow> ((go_err + string \<times> int) \<times> 'w) option" where
  "range_loop f logFile pfx bufStart end lineStart pos buf w =
     (case pullRaw f logFile (offset_marker pfx pos) w of
        (Inl e, w1) \<Rightarrow> Some (Inl e, w1)
      | (Inr raw, w1) \<Rightarrow>
          let len = int (length (rpData raw)) in
          if rpTruncated raw > 0 \<or> OffsetMarker (rpNext raw) = None
             \<or> (snd (the (OffsetMarker (rpNext raw))) \<noteq> pos + len \<and> (rpPending raw \<or> len > 0))
          then Some (Inl ErrRangeUnsupported, w1)
          else let text = buf @ rpData raw; pos' = pos + len in
            (case range_cut text bufStart end lineStart of
               Some r \<Rightarrow> Some (Inr r, w1)
             | None \<Rightarrow>
                 if \<not> rpPending raw \<or> len = 0 then
                   Some (Inr (cutRange text bufStart lineStart
                          (case last_index_byte text nl of None \<Rightarrow> 0 | Some i \<Rightarrow> i + 1)), w1)
                 else range_loop f logFile pfx bufStart end lineStart pos' text w1))"

definition ReadRange ::
    "'w fetcher \<Rightarrow> string \<Rightarrow> string \<Rightarrow> int \<Rightarrow> int \<Rightarrow> bool \<Rightarrow> 'w
       \<Rightarrow> ((go_err + string \<times> int) \<times> 'w) option" where
  "ReadRange f logFile pfx start end lineStart w =
     (let pos = (if lineStart then start else start - 1)
      in range_loop f logFile pfx pos end lineStart pos [] w)"

section \<open>Skipping to the end\<close>

partial_function (option) skip_loop ::
    "'w fetcher \<Rightarrow> string \<Rightarrow> string \<Rightarrow> 'w \<Rightarrow> ((go_err + string) \<times> 'w) option" where
  "skip_loop f logFile marker w =
     (case download f logFile marker None w of
        (Inl e, w1) \<Rightarrow> Some (Inl (Wrapped ''skip-to-end'' e), w1)
      | (Inr resp, w1) \<Rightarrow>
          if \<not> prPending resp then Some (Inr (prMarker resp), w1)
          else skip_loop f logFile (prMarker resp) w1)"

text \<open>
  RDS honoured the built marker when it answers with the same prefix and an offset at or
  past the size.
\<close>

definition honoured :: "string \<Rightarrow> nat \<Rightarrow> int \<Rightarrow> string \<Rightarrow> bool" where
  "honoured marker i sz next =
     (case last_index_byte next (CHR '':'') of
        None \<Rightarrow> False
      | Some j \<Rightarrow> j = i \<and> take j next = take i marker
          \<and> (case parse_int (drop (Suc j) next) of None \<Rightarrow> False | Some off \<Rightarrow> off \<ge> sz))"

definition SkipToEnd ::
    "'w fetcher \<Rightarrow> string \<Rightarrow> int \<Rightarrow> 'w \<Rightarrow> ((go_err + string) \<times> 'w) option" where
  "SkipToEnd f logFile sz w =
     (case download f logFile MarkerBeginning (Some 1) w of
        (Inl e, w1) \<Rightarrow> Some (Inl (Wrapped ''skip-to-end'' e), w1)
      | (Inr probe, w1) \<Rightarrow>
          let marker = prMarker probe in
          if \<not> prPending probe then Some (Inr marker, w1)
          else (case last_index_byte marker (CHR '':'') of
                  Some i \<Rightarrow>
                    if i > 0 \<and> sz > 0 then
                      let built = take (Suc i) marker @ format_int sz in
                      (case download f logFile built (Some 1) w1 of
                         (Inl e, w2) \<Rightarrow> Some (Inl (Wrapped ''skip-to-end'' e), w2)
                       | (Inr check, w2) \<Rightarrow>
                           if honoured marker i sz (prMarker check) then Some (Inr built, w2)
                           else skip_loop f logFile marker w2)
                    else skip_loop f logFile marker w1
                | None \<Rightarrow> skip_loop f logFile marker w1))"

end
