(* ===== verification/State.thy ===== *)
theory State
  imports Base "HOL-Library.AList"
begin

text \<open>
  internal/state/store.go: checkpoints, the store interface every component reads and
  writes them through, the dead-letter items and the registry of backends.  A store is a
  record of operations on a world 'w that holds its state.  The locale state_store states
  what clients rely on; each backend interprets it.
\<close>

section \<open>Data\<close>

record checkpoint =
  ckMarker :: string
  ckBytesWritten :: int
  ckFileSize :: int
  ckLastWritten :: time
  ckSkip :: bool

definition zero_ckpt :: checkpoint where
  "zero_ckpt = \<lparr>ckMarker = [], ckBytesWritten = 0, ckFileSize = 0, ckLastWritten = time_zero,
                ckSkip = False\<rparr>"

record file_checkpoint =
  fcLogFile :: string
  fcCheckpoint :: checkpoint

record dlq_item =
  diID :: int
  diSinkName :: string
  diBatchID :: string
  diPayload :: string
  diReason :: string
  diCreatedAt :: time

record dlq_query =
  dqSinkName :: string
  dqAfterID :: int
  dqLimit :: int

section \<open>The interfaces\<close>

text \<open>Get returns (Checkpoint, found, err); found is the option, err the sum.\<close>

record 'w state_store =
  ssGet :: "string \<Rightarrow> string \<Rightarrow> 'w \<Rightarrow> (go_err + checkpoint option) \<times> 'w"
  ssSet :: "string \<Rightarrow> string \<Rightarrow> checkpoint \<Rightarrow> 'w \<Rightarrow> go_err option \<times> 'w"
  ssList :: "string \<Rightarrow> 'w \<Rightarrow> (go_err + file_checkpoint list) \<times> 'w"
  ssDelete :: "string \<Rightarrow> string \<Rightarrow> 'w \<Rightarrow> go_err option \<times> 'w"

record 'w dlq =
  dlqPut :: "string \<Rightarrow> string \<Rightarrow> string \<Rightarrow> string \<Rightarrow> 'w \<Rightarrow> go_err option \<times> 'w"
  dlqList :: "dlq_query \<Rightarrow> 'w \<Rightarrow> (go_err + dlq_item list) \<times> 'w"
  dlqDelete :: "int \<Rightarrow> 'w \<Rightarrow> go_err option \<times> 'w"
  dlqCount :: "string \<Rightarrow> 'w \<Rightarrow> (go_err + int) \<times> 'w"
  dlqPurge :: "string \<Rightarrow> 'w \<Rightarrow> (go_err + int) \<times> 'w"

section \<open>The registry of backends\<close>

record state_config =
  scType :: string
  scPath :: string

type_synonym 's registry = "(string \<times> (state_config \<Rightarrow> go_err + 's)) list"

definition Register :: "string \<Rightarrow> (state_config \<Rightarrow> go_err + 's) \<Rightarrow> 's registry \<Rightarrow> 's registry" where
  "Register name fn reg = AList.update name fn reg"

definition known :: "'s registry \<Rightarrow> string list" where
  "known reg = map fst reg"

definition ErrUnsupportedType :: go_err where
  "ErrUnsupportedType = ErrMsg ''unsupported state store type''"

definition state_Open :: "'s registry \<Rightarrow> state_config \<Rightarrow> go_err + 's" where
  "state_Open reg cfg =
     (case map_of reg (scType cfg) of
        None \<Rightarrow> Inl (Wrapped (go_quote (scType cfg) @ '' (known: '' @ join_str '' '' (known reg) @ '')'')
                       ErrUnsupportedType)
      | Some fn \<Rightarrow> fn cfg)"

section \<open>What a client of a store relies on\<close>

text \<open>
  view reads the checkpoint a world holds for a pair; norm is the form a checkpoint is
  stored in (the durable backends keep LastWritten in milliseconds); valid restricts the
  instance names for which the laws hold.  A failing Set may or may not have changed the
  pair it names, and changes no other.
\<close>

locale state_store =
  fixes get :: "string \<Rightarrow> string \<Rightarrow> 'w \<Rightarrow> (go_err + checkpoint option) \<times> 'w"
    and set_ck :: "string \<Rightarrow> string \<Rightarrow> checkpoint \<Rightarrow> 'w \<Rightarrow> go_err option \<times> 'w"
    and del :: "string \<Rightarrow> string \<Rightarrow> 'w \<Rightarrow> go_err option \<times> 'w"
    and view :: "'w \<Rightarrow> string \<Rightarrow> string \<Rightarrow> checkpoint option"
    and norm :: "checkpoint \<Rightarrow> checkpoint"
    and valid :: "string \<Rightarrow> bool"
  assumes get_ok: "valid i \<Longrightarrow> get i f w = (Inr r, w') \<Longrightarrow> r = view w i f"
    and get_view: "valid i \<Longrightarrow> valid j \<Longrightarrow> get i f w = (z, w') \<Longrightarrow> view w' j g = view w j g"
    and set_ok: "valid i \<Longrightarrow> set_ck i f c w = (None, w') \<Longrightarrow> view w' i f = Some (norm c)"
    and set_err: "valid i \<Longrightarrow> set_ck i f c w = (Some e, w') \<Longrightarrow>
                    view w' i f = view w i f \<or> view w' i f = Some (norm c)"
    and set_other: "valid i \<Longrightarrow> valid j \<Longrightarrow> (j, g) \<noteq> (i, f) \<Longrightarrow> set_ck i f c w = (y, w') \<Longrightarrow>
                    view w' j g = view w j g"
    and del_ok: "valid i \<Longrightarrow> del i f w = (None, w') \<Longrightarrow> view w' i f = None"
    and del_other: "valid i \<Longrightarrow> valid j \<Longrightarrow> (j, g) \<noteq> (i, f) \<Longrightarrow> del i f w = (y, w') \<Longrightarrow>
                    view w' j g = view w j g"
    and norm_marker: "ckMarker (norm c) = ckMarker c"
    and norm_skip: "ckSkip (norm c) = ckSkip c"
    and norm_size: "ckFileSize (norm c) = ckFileSize c"
begin

text \<open>Read back what was written.\<close>

lemma store_get_after_set:
  assumes "valid i" "set_ck i f c w = (None, w1)" "get i f w1 = (Inr r, w2)"
  shows "r = Some (norm c)"
  using get_ok [OF assms(1,3)] set_ok [OF assms(1,2)] by simp

lemma store_get_after_other_set:
  assumes "valid i" "valid j" "(j, g) \<noteq> (i, f)"
    and "set_ck i f c w = (x, w1)" "get j g w1 = (Inr r, w2)"
  shows "r = view w j g"
  using get_ok [OF assms(2,5)] set_other [OF assms(1-4)] by simp

text \<open>A sequence of writes leaves the last value of each pair.\<close>

fun sets :: "(string \<times> string \<times> checkpoint) list \<Rightarrow> 'w \<Rightarrow> 'w option" where
  "sets [] w = Some w"
| "sets ((i, f, c) # xs) w =
     (case set_ck i f c w of (None, w1) \<Rightarrow> sets xs w1 | (Some e, _) \<Rightarrow> None)"

lemma store_last_write_wins:
  assumes "\<forall>(i, f, c) \<in> set xs. valid i" "valid j" "sets xs w = Some w'"
  shows "view w' j g =
           (case map_of (rev (map (\<lambda>(i, f, c). ((i, f), c)) xs)) (j, g) of
              None \<Rightarrow> view w j g | Some c \<Rightarrow> Some (norm c))"
  using assms
proof (induction xs arbitrary: w)
  case (Cons x xs)
  obtain i f c where x: "x = (i, f, c)" by (cases x)
  with Cons.prems obtain w1 where w1: "set_ck i f c w = (None, w1)" "sets xs w1 = Some w'"
    by (auto split: prod.splits option.splits)
  have vi: "valid i" using Cons.prems(1) x by simp
  have IH: "view w' j g =
      (case map_of (rev (map (\<lambda>(i, f, c). ((i, f), c)) xs)) (j, g) of
         None \<Rightarrow> view w1 j g | Some c \<Rightarrow> Some (norm c))"
    using Cons.IH [of w1] Cons.prems w1 by simp
  have "view w1 j g = (if (j, g) = (i, f) then Some (norm c) else view w j g)"
    using set_ok [OF vi w1(1)] set_other [OF vi \<open>valid j\<close> _ w1(1)] by auto
  then show ?case using IH by (auto simp: x map_add_def split: option.splits)
qed simp

end

section \<open>What a client of a dead-letter queue relies on\<close>

definition of_sink :: "string \<Rightarrow> dlq_item \<Rightarrow> bool" where
  "of_sink name it = (name = [] \<or> diSinkName it = name)"

definition dlq_limit :: "dlq_query \<Rightarrow> nat" where
  "dlq_limit q = nat (if dqLimit q \<le> 0 then 100 else dqLimit q)"

definition dlq_page :: "dlq_query \<Rightarrow> dlq_item list \<Rightarrow> dlq_item list" where
  "dlq_page q its =
     take (dlq_limit q) (filter (\<lambda>it. diID it > dqAfterID q \<and> of_sink (dqSinkName q) it) its)"

text \<open>
  parked is the queue a world holds, ascending in the id; valid worlds keep the ids distinct
  and below the next one.
\<close>

locale dead_letters =
  fixes put :: "string \<Rightarrow> string \<Rightarrow> string \<Rightarrow> string \<Rightarrow> 'w \<Rightarrow> go_err option \<times> 'w"
    and lst :: "dlq_query \<Rightarrow> 'w \<Rightarrow> (go_err + dlq_item list) \<times> 'w"
    and del :: "int \<Rightarrow> 'w \<Rightarrow> go_err option \<times> 'w"
    and parked :: "'w \<Rightarrow> dlq_item list"
    and valid :: "'w \<Rightarrow> bool"
  assumes valid_sorted: "valid w \<Longrightarrow> sorted_wrt (<) (map diID (parked w))"
    and valid_pos: "valid w \<Longrightarrow> it \<in> set (parked w) \<Longrightarrow> 0 < diID it"
    and put_ok: "valid w \<Longrightarrow> put s b p r w = (None, w') \<Longrightarrow>
          valid w' \<and> (\<exists>it. parked w' = parked w @ [it] \<and> diSinkName it = s
                     \<and> diBatchID it = b \<and> diPayload it = p)"
    and put_err: "valid w \<Longrightarrow> put s b p r w = (Some e, w') \<Longrightarrow> valid w' \<and> parked w' = parked w"
    and lst_keeps: "valid w \<Longrightarrow> lst q w = (x, w') \<Longrightarrow> valid w' \<and> parked w' = parked w"
    and lst_page: "valid w \<Longrightarrow> lst q w = (Inr xs, w') \<Longrightarrow> xs = dlq_page q (parked w)"
    and del_ok: "valid w \<Longrightarrow> del n w = (None, w') \<Longrightarrow>
          valid w' \<and> parked w' = filter (\<lambda>it. diID it \<noteq> n) (parked w)"
    and del_err: "valid w \<Longrightarrow> del n w = (Some e, w') \<Longrightarrow> valid w' \<and> parked w' = parked w"
begin

text \<open>A page read after the last id of a full page begins where it stopped.\<close>

lemma dlq_page_after:
  assumes "valid w" "lst q w = (Inr xs, w')" "xs \<noteq> []" "it \<in> set (parked w)"
    and "dqAfterID q < diID it" "of_sink (dqSinkName q) it" "diID it \<le> diID (last xs)"
  shows "it \<in> set xs"
proof -
  let ?ys = "filter (\<lambda>it. diID it > dqAfterID q \<and> of_sink (dqSinkName q) it) (parked w)"
  have xs: "xs = take (dlq_limit q) ?ys" using lst_page [OF assms(1,2)] by (simp add: dlq_page_def)
  have srt: "sorted_wrt (<) (map diID ?ys)"
    using valid_sorted [OF assms(1)] by (simp add: sorted_wrt_map sorted_wrt_filter)
  have "it \<in> set ?ys" using assms(4-6) by simp
  then consider "it \<in> set xs" | "it \<in> set (drop (dlq_limit q) ?ys)"
    unfolding xs using set_append append_take_drop_id by (metis Un_iff)
  then show ?thesis
  proof cases
    case 2
    have "sorted_wrt (<) (map diID (xs @ drop (dlq_limit q) ?ys))"
      using srt unfolding xs append_take_drop_id .
    then have "diID (last xs) < diID it"
      using 2 assms(3) by (auto simp: sorted_wrt_append sorted_wrt_map)
    then show ?thesis using assms(7) by simp
  qed simp
qed

end

end
