(* ===== verification/Sink.thy ===== *)
theory Sink
  imports State LogRecord Complex_Main
begin

text \<open>
  internal/sink: the sink contract, the fan-out and the decorators (retry, dead letters,
  metrics, severity / message / time filters).  A sink is a record of operations on a world
  'w; a decorator maps sinks to sinks.  What a Write reads of its surroundings (the context,
  the clock, the waits, the random source, the JSON encoder) is a record of its own.
\<close>

section \<open>The contract\<close>

record 'w sink =
  skName :: string
  skType :: string
  skWrite :: "logrecord list \<Rightarrow> 'w \<Rightarrow> go_err option \<times> 'w"
  skClose :: "'w \<Rightarrow> go_err option \<times> 'w"

text \<open>
  enSleep is the select between ctx.Done and time.After; it is given None where computing
  the duration panics.  enOverflow is the implementation-specific result of converting an
  out-of-range float64 to int64.
\<close>

record 'w env =
  enCtx :: "'w \<Rightarrow> go_err option"
  enNow :: "'w \<Rightarrow> time"
  enSleep :: "duration option \<Rightarrow> 'w \<Rightarrow> go_err option \<times> 'w"
  enRand :: "int \<Rightarrow> 'w \<Rightarrow> int"
  enOverflow :: int
  enMarshal :: "logrecord list \<Rightarrow> string option"

text \<open>The text of an error.\<close>

fun error_text :: "go_err \<Rightarrow> string" where
  "error_text (ErrMsg m) = m"
| "error_text (Wrapped m e) = m @ '': '' @ error_text e"
| "error_text (Joined es) = join_str [CHR 0x0A] (map error_text es)"
| "error_text (PermanentError c) =
     (case c of None \<Rightarrow> ''permanent error'' | Some e \<Rightarrow> ''permanent: '' @ error_text e)"
| "error_text Canceled = ''context canceled''"
| "error_text DeadlineExceeded = ''context deadline exceeded''"
| "error_text (APIError c) = ''api error '' @ c"
| "error_text QuotaExceeded = ''failed to get rate limit token, retry quota exceeded''"
| "error_text ErrRangeUnsupported = ''rds: exact range read unsupported''"

section \<open>Fan-out\<close>

record 'w fanout = foSinks :: "'w sink list"

text \<open>None is the panic on an empty list.\<close>

definition NewFanout :: "'w sink list \<Rightarrow> 'w fanout option" where
  "NewFanout sinks = (if sinks = [] then None else Some \<lparr>foSinks = sinks\<rparr>)"

fun fanout_name :: "'w sink list \<Rightarrow> bool \<Rightarrow> string" where
  "fanout_name [] started = []"
| "fanout_name (s # ss) started = (if started then '','' else []) @ skName s @ fanout_name ss True"

fun fanout_each ::
    "('w sink \<Rightarrow> 'w \<Rightarrow> go_err option \<times> 'w) \<Rightarrow> 'w sink list \<Rightarrow> 'w \<Rightarrow> go_err list \<times> 'w" where
  "fanout_each op [] w = ([], w)"
| "fanout_each op (s # ss) w =
     (case op s w of (r, w1) \<Rightarrow>
        (case fanout_each op ss w1 of (errs, w2) \<Rightarrow>
           ((case r of None \<Rightarrow> errs | Some e \<Rightarrow> Wrapped (''sink '' @ skName s) e # errs), w2)))"

definition fanout_Write :: "'w fanout \<Rightarrow> logrecord list \<Rightarrow> 'w \<Rightarrow> go_err option \<times> 'w" where
  "fanout_Write f rs w =
     (case fanout_each (\<lambda>s. skWrite s rs) (foSinks f) w of (errs, w1) \<Rightarrow> (errors_join errs, w1))"

definition fanout_Close :: "'w fanout \<Rightarrow> 'w \<Rightarrow> go_err option \<times> 'w" where
  "fanout_Close f w =
     (case fanout_each skClose (foSinks f) w of (errs, w1) \<Rightarrow> (errors_join errs, w1))"

definition fanout_sink :: "'w fanout \<Rightarrow> 'w sink" where
  "fanout_sink f = \<lparr>skName = fanout_name (foSinks f) False, skType = ''fanout'',
                    skWrite = fanout_Write f, skClose = fanout_Close f\<rparr>"

section \<open>Retry\<close>

record retry_config =
  rcMaxAttempts :: int
  rcInitialWait :: duration
  rcMaxWait :: duration
  rcMultiplier :: rat

definition retry_defaults :: "retry_config \<Rightarrow> retry_config" where
  "retry_defaults c =
     \<lparr>rcMaxAttempts = (if rcMaxAttempts c \<le> 0 then 10 else rcMaxAttempts c),
      rcInitialWait = (if rcInitialWait c \<le> 0 then 500 * millisecond else rcInitialWait c),
      rcMaxWait = (if rcMaxWait c \<le> 0 then 60 * second else rcMaxWait c),
      rcMultiplier = (if rcMultiplier c \<le> 1 then 2 else rcMultiplier c)\<rparr>"

text \<open>
  time.Duration of a float: truncation in range, implementation-specific outside.  The
  product is exact (a rat) where Go rounds it to a float64.
\<close>

definition to_duration :: "int \<Rightarrow> rat \<Rightarrow> duration" where
  "to_duration overflow x =
     (let t = (if x < 0 then - \<lfloor>- x\<rfloor> else \<lfloor>x\<rfloor>) in if in_i64 t then t else overflow)"

text \<open>Go's integer division truncates; a negative d keeps its sign.\<close>

definition half :: "int \<Rightarrow> int" where
  "half d = (if d < 0 then - ((- d) div 2) else d div 2)"

text \<open>backoff: None is the panic of rand.Int64N on a bound that is not positive.\<close>

definition backoff :: "'w env \<Rightarrow> retry_config \<Rightarrow> nat \<Rightarrow> 'w \<Rightarrow> duration option" where
  "backoff en cfg attempt w =
     (let d0 = to_duration (enOverflow en)
                 (of_int (rcInitialWait cfg) * rcMultiplier cfg ^ (attempt - 1));
          d = (if d0 > rcMaxWait cfg then rcMaxWait cfg else d0);
          bound = half d + 1
      in if bound \<le> 0 then None else Some (half d + enRand en bound w))"

text \<open>
  The loop of Write: attempt is 1-based, left the number of attempts after this one.
\<close>

fun retry_loop ::
    "'w env \<Rightarrow> 'w sink \<Rightarrow> retry_config \<Rightarrow> logrecord list \<Rightarrow> nat \<Rightarrow> nat \<Rightarrow> 'w
       \<Rightarrow> go_err option \<times> 'w" where
  "retry_loop en inner cfg rs attempt left w =
     (case enCtx en w of
        Some e \<Rightarrow> (Some e, w)
      | None \<Rightarrow>
          (case skWrite inner rs w of
             (None, w1) \<Rightarrow> (None, w1)
           | (Some e, w1) \<Rightarrow>
               if as_permanent e then (Some e, w1)
               else (case left of
                       0 \<Rightarrow> (Some e, w1)
                     | Suc k \<Rightarrow>
                         (case enSleep en (backoff en cfg attempt w1) w1 of
                            (Some c, w2) \<Rightarrow> (Some c, w2)
                          | (None, w2) \<Rightarrow> retry_loop en inner cfg rs (Suc attempt) k w2))))"

declare retry_loop.simps [simp del]

definition retry_Write ::
    "'w env \<Rightarrow> 'w sink \<Rightarrow> retry_config \<Rightarrow> logrecord list \<Rightarrow> 'w \<Rightarrow> go_err option \<times> 'w" where
  "retry_Write en inner cfg rs w = retry_loop en inner cfg rs 1 (nat (rcMaxAttempts cfg) - 1) w"

definition WithRetry :: "'w env \<Rightarrow> 'w sink \<Rightarrow> retry_config \<Rightarrow> 'w sink" where
  "WithRetry en s cfg =
     \<lparr>skName = skName s, skType = skType s, skWrite = retry_Write en s (retry_defaults cfg),
      skClose = skClose s\<rparr>"

definition NewPermanentError :: "go_err option \<Rightarrow> go_err" where
  "NewPermanentError cause = PermanentError cause"

section \<open>Dead letters\<close>

definition dlq_Write ::
    "'w env \<Rightarrow> 'w sink \<Rightarrow> 'w dlq \<Rightarrow> logrecord list \<Rightarrow> 'w \<Rightarrow> go_err option \<times> 'w" where
  "dlq_Write en inner q rs w =
     (case skWrite inner rs w of
        (None, w1) \<Rightarrow> (None, w1)
      | (Some e, w1) \<Rightarrow>
          if err_is e Canceled \<or> err_is e DeadlineExceeded then (Some e, w1)
          else if rs = [] then (Some e, w1)
          else (case enMarshal en rs of
                  None \<Rightarrow> (Some e, w1)
                | Some payload \<Rightarrow>
                    (case dlqPut q (skName inner) (lrBatchID (hd rs)) payload (error_text e) w1 of
                       (Some p, w2) \<Rightarrow> (errors_join [e, p], w2)
                     | (None, w2) \<Rightarrow> (None, w2))))"

definition WithDLQ :: "'w env \<Rightarrow> 'w sink \<Rightarrow> 'w dlq option \<Rightarrow> 'w sink" where
  "WithDLQ en s q =
     (case q of None \<Rightarrow> s
      | Some d \<Rightarrow> \<lparr>skName = skName s, skType = skType s, skWrite = dlq_Write en s d,
                   skClose = skClose s\<rparr>)"

section \<open>Metrics\<close>

record 'w probe =
  mpObserveWrite :: "string \<Rightarrow> duration \<Rightarrow> nat \<Rightarrow> 'w \<Rightarrow> 'w"
  mpIncProcessed :: "string \<Rightarrow> string \<Rightarrow> string \<Rightarrow> string \<Rightarrow> nat \<Rightarrow> 'w \<Rightarrow> 'w"
  mpIncFailed :: "string \<Rightarrow> string \<Rightarrow> string \<Rightarrow> nat \<Rightarrow> 'w \<Rightarrow> 'w"

text \<open>isPermanent follows single Unwrap methods only; a joined error has none.\<close>

fun isPermanent :: "go_err \<Rightarrow> bool" where
  "isPermanent (PermanentError c) = True"
| "isPermanent (Wrapped m e) = isPermanent e"
| "isPermanent e = False"

definition sanitizeLogFile :: "string \<Rightarrow> string" where
  "sanitizeLogFile f =
     (let base = (case last_index_byte f (CHR ''/'') of None \<Rightarrow> f | Some i \<Rightarrow> drop (i + 1) f)
      in take 64 base)"

definition metrics_Write ::
    "'w env \<Rightarrow> 'w sink \<Rightarrow> 'w probe \<Rightarrow> logrecord list \<Rightarrow> 'w \<Rightarrow> go_err option \<times> 'w" where
  "metrics_Write en inner m rs w =
     (case skWrite inner rs w of
        (r, w1) \<Rightarrow>
          let elapsed = time_sub (enNow en w1) (enNow en w);
              approxBytes = sum_list (map (\<lambda>x. length (lrMessage x)) rs);
              w2 = mpObserveWrite m (skType inner) elapsed approxBytes w1
          in (case r of
                None \<Rightarrow>
                  (None, if rs = [] then w2
                         else mpIncProcessed m (lrInstanceID (hd rs)) (lrEngine (hd rs))
                                (sanitizeLogFile (lrLogFile (hd rs))) (skType inner) (length rs) w2)
              | Some e \<Rightarrow>
                  (Some e, mpIncFailed m (if rs = [] then [] else lrInstanceID (hd rs)) (skType inner)
                             (if isPermanent e then ''permanent'' else ''error'') (length rs) w2)))"

definition WithMetrics :: "'w env \<Rightarrow> 'w sink \<Rightarrow> 'w probe option \<Rightarrow> 'w sink" where
  "WithMetrics en s m =
     (case m of None \<Rightarrow> s
      | Some p \<Rightarrow> \<lparr>skName = skName s, skType = skType s, skWrite = metrics_Write en s p,
                   skClose = skClose s\<rparr>)"

section \<open>Filters\<close>

definition severityRank :: "(string \<times> nat) list" where
  "severityRank =
     [(''DEBUG5'', 10), (''DEBUG4'', 10), (''DEBUG3'', 10), (''DEBUG2'', 10), (''DEBUG1'', 10),
      (''DEBUG'', 10), (''LOG'', 20), (''INFO'', 20), (''NOTICE'', 20), (''NOTE'', 20),
      (''SYSTEM'', 20), (''WARNING'', 30), (''WARN'', 30), (''ERROR'', 40), (''FATAL'', 50),
      (''PANIC'', 60)]"

definition SeverityRank :: "string \<Rightarrow> nat" where
  "SeverityRank sev = (case map_of severityRank (to_upper sev) of None \<Rightarrow> 0 | Some n \<Rightarrow> n)"

record filter_config =
  fcMinSeverity :: string
  fcSeverities :: "string list"

definition filter_enabled :: "filter_config \<Rightarrow> bool" where
  "filter_enabled c = (fcMinSeverity c \<noteq> [] \<or> fcSeverities c \<noteq> [])"

definition filter_keep :: "filter_config \<Rightarrow> logrecord \<Rightarrow> bool" where
  "filter_keep c r =
     (if fcMinSeverity c \<noteq> []
      then SeverityRank (lrSeverity r) > 0
           \<and> SeverityRank (lrSeverity r) \<ge> SeverityRank (fcMinSeverity c)
      else to_upper (lrSeverity r) \<in> set (map to_upper (fcSeverities c)))"

text \<open>The Write of filterDecorator and of keepDecorator.\<close>

definition keep_Write ::
    "'w sink \<Rightarrow> (logrecord \<Rightarrow> bool) \<Rightarrow> logrecord list \<Rightarrow> 'w \<Rightarrow> go_err option \<times> 'w" where
  "keep_Write inner keep rs w =
     (let kept = filter keep rs in if kept = [] then (None, w) else skWrite inner kept w)"

definition keep_sink :: "'w sink \<Rightarrow> (logrecord \<Rightarrow> bool) \<Rightarrow> 'w sink" where
  "keep_sink s keep = \<lparr>skName = skName s, skType = skType s, skWrite = keep_Write s keep,
                       skClose = skClose s\<rparr>"

definition WithFilter :: "'w sink \<Rightarrow> filter_config \<Rightarrow> 'w sink" where
  "WithFilter s c = (if \<not> filter_enabled c then s else keep_sink s (filter_keep c))"

text \<open>The pattern is a compiled regexp, here its MatchString.\<close>

definition WithGrep :: "'w sink \<Rightarrow> (string \<Rightarrow> bool) option \<Rightarrow> 'w sink" where
  "WithGrep s re =
     (case re of None \<Rightarrow> s | Some m \<Rightarrow> keep_sink s (\<lambda>r. m (lrMessage r)))"

definition WithSince :: "'w sink \<Rightarrow> time \<Rightarrow> 'w sink" where
  "WithSince s cutoff =
     (if is_zero_time cutoff then s else keep_sink s (\<lambda>r. \<not> lrTimestamp r < cutoff))"

end
