(* ===== verification/Shard.thy ===== *)
theory Shard
  imports Hash
begin

text \<open>
  internal/shard: rendezvous hashing splits the fleet among n processes.  The owner of a
  key is the index with the largest mixed hash, the smallest such index on a tie.
\<close>

record shard =
  shIndex :: int
  shCount :: int

definition shard_All :: shard where
  "shard_All = \<lparr>shIndex = 1, shCount = 1\<rparr>"

definition shard_Parse :: "string \<Rightarrow> go_err + shard" where
  "shard_Parse s =
     (if trim_space s = [] then Inr shard_All
      else let (a, b, ok) = cut_byte (trim_space s) (CHR ''/'') in
        (case (ok, parse_int a, parse_int b) of
           (True, Some i, Some n) \<Rightarrow>
             if n < 1 \<or> n > 1024 \<or> i < 1 \<or> i > n
             then Inl (ErrMsg ''shard: need 1 <= i <= n <= 1024'')
             else Inr \<lparr>shIndex = i, shCount = n\<rparr>
         | _ \<Rightarrow> Inl (ErrMsg (''shard '' @ s @ '': want i/n, e.g. 2/4''))))"

text \<open>The weight of index j for a key: the mixed FNV hash of key, a zero byte and j.\<close>

definition shard_weight :: "string \<Rightarrow> int \<Rightarrow> u64" where
  "shard_weight key j =
     mix (fnv_write (fnv_write (fnv_write fnv_offset key) [char_of (0::nat)]) (format_int j))"

text \<open>The loop of Owns over j = 1, ..., n, carrying the best weight and its owner.\<close>

fun owner_loop :: "string \<Rightarrow> int list \<Rightarrow> u64 \<times> int \<Rightarrow> u64 \<times> int" where
  "owner_loop key [] acc = acc"
| "owner_loop key (j # js) (best, owner) =
     (let v = shard_weight key j
      in owner_loop key js (if j = 1 \<or> v > best then (v, j) else (best, owner)))"

definition shard_owner :: "string \<Rightarrow> int \<Rightarrow> int" where
  "shard_owner key n = snd (owner_loop key [1..n] (0, 0))"

definition shard_Owns :: "shard \<Rightarrow> string \<Rightarrow> bool" where
  "shard_Owns s key =
     (if shCount s \<le> 1 then True else shard_owner key (shCount s) = shIndex s)"

definition shard_String :: "shard \<Rightarrow> string" where
  "shard_String s = format_int (shIndex s) @ ''/'' @ format_int (shCount s)"

section \<open>The winner of the loop\<close>

text \<open>j wins on 1..n: heavier than every smaller index, at least as heavy as every larger.\<close>

definition wins :: "string \<Rightarrow> int \<Rightarrow> int \<Rightarrow> bool" where
  "wins key n j = (1 \<le> j \<and> j \<le> n
     \<and> (\<forall>i. 1 \<le> i \<longrightarrow> i < j \<longrightarrow> shard_weight key i < shard_weight key j)
     \<and> (\<forall>i. j < i \<longrightarrow> i \<le> n \<longrightarrow> shard_weight key i \<le> shard_weight key j))"

lemma owner_loop_append:
  "owner_loop key (xs @ ys) acc = owner_loop key ys (owner_loop key xs acc)"
  by (induction xs arbitrary: acc) (auto simp: Let_def split: prod.splits)

lemma upto_snoc: "1 \<le> n \<Longrightarrow> [1..n + 1] = [1..n] @ [n + 1 :: int]"
  by (simp add: upto_rec2)

lemma owner_loop_wins:
  assumes "1 \<le> n"
  shows "\<exists>j. owner_loop key [1..int n] (0, 0) = (shard_weight key j, j) \<and> wins key (int n) j"
  using assms
proof (induction n rule: nat_induct_at_least)
  case base
  have "[1..int 1] = [1]" by (simp add: upto_rec1)
  then show ?case by (simp add: wins_def)
next
  case (Suc n)
  then obtain j where j: "owner_loop key [1..int n] (0, 0) = (shard_weight key j, j)"
      "wins key (int n) j" by blast
  have e: "int (Suc n) = int n + 1" by simp
  have step: "owner_loop key [1..int n + 1] (0, 0)
      = (if shard_weight key (int n + 1) > shard_weight key j
         then (shard_weight key (int n + 1), int n + 1) else (shard_weight key j, j))"
    using Suc.hyps upto_snoc [of "int n"] j(1)
    by (simp add: owner_loop_append)
  show ?case
  proof (cases "shard_weight key (int n + 1) > shard_weight key j")
    case True
    have "shard_weight key i < shard_weight key (int n + 1)" if "1 \<le> i" "i < int n + 1" for i
      using j(2) True that unfolding wins_def
      by (metis zless_add1_eq linorder_neqE order.strict_trans1 order.strict_trans order_le_less)
    then have "wins key (int n + 1) (int n + 1)" by (simp add: wins_def)
    moreover have "owner_loop key [1..int n + 1] (0, 0)
        = (shard_weight key (int n + 1), int n + 1)"
      unfolding step using True by simp
    ultimately show ?thesis unfolding e by blast
  next
    case False
    have "shard_weight key i \<le> shard_weight key j" if "j < i" "i \<le> int n + 1" for i
      using j(2) False that unfolding wins_def by (metis linorder_not_less zle_add1_eq_le order_le_less)
    with j(2) have "wins key (int n + 1) j" by (simp add: wins_def)
    moreover have "owner_loop key [1..int n + 1] (0, 0) = (shard_weight key j, j)"
      unfolding step using False by simp
    ultimately show ?thesis unfolding e by blast
  qed
qed

lemma shard_owner_wins: "1 \<le> n \<Longrightarrow> wins key n (shard_owner key n)"
  using owner_loop_wins [of "nat n" key] by (force simp: shard_owner_def)

lemma wins_unique: "wins key n i \<Longrightarrow> wins key n j \<Longrightarrow> i = j"
  unfolding wins_def by (metis linorder_neqE order.strict_trans1 less_irrefl linorder_not_less)

lemma shard_owner_eqI: "wins key n j \<Longrightarrow> shard_owner key n = j"
  by (metis shard_owner_wins wins_unique wins_def order.trans)

section \<open>Properties of the assignment\<close>

text \<open>Every key has exactly one owner among the n shards.\<close>

lemma shard_exactly_one_owner:
  assumes "1 \<le> n"
  shows "\<exists>!i. 1 \<le> i \<and> i \<le> n \<and> shard_Owns \<lparr>shIndex = i, shCount = n\<rparr> key"
proof (cases "n = 1")
  case True
  then show ?thesis by (auto simp: shard_Owns_def)
next
  case False
  then have *: "shard_Owns \<lparr>shIndex = i, shCount = n\<rparr> key \<longleftrightarrow> i = shard_owner key n" for i
    using assms by (auto simp: shard_Owns_def)
  have "1 \<le> shard_owner key n" "shard_owner key n \<le> n"
    using shard_owner_wins [OF assms, of key] by (auto simp: wins_def)
  then show ?thesis by (auto simp: *)
qed

text \<open>C30. Adding a process to the fleet rebalances minimally: a key either keeps its owner or moves
  to the new shard, never between old shards.\<close>

theorem shard_grow_moves_to_new:
  assumes "1 \<le> n"
  shows "shard_owner key (n + 1) = shard_owner key n \<or> shard_owner key (n + 1) = n + 1"
proof -
  have w: "wins key (n + 1) (shard_owner key (n + 1))"
    using assms by (simp add: shard_owner_wins)
  show ?thesis
  proof (cases "shard_owner key (n + 1) = n + 1")
    case False
    with w have "wins key n (shard_owner key (n + 1))"
      by (auto simp: wins_def)
    then show ?thesis by (simp add: shard_owner_eqI)
  qed simp
qed

theorem shard_grow_moves_to_new_witness:
  "shard_owner ''us-east-1|db'' 4 = shard_owner ''us-east-1|db'' 3 \<or> shard_owner ''us-east-1|db'' 4 = 4"
  using shard_grow_moves_to_new [of 3 "''us-east-1|db''"] by simp

text \<open>Parsing what String prints gives the shard back.\<close>

lemma trim_space_id:
  assumes "s \<noteq> []" "\<not> is_space (hd s)" "\<not> is_space (last s)"
  shows "trim_space s = s"
proof -
  have "dropWhile is_space s = s" "dropWhile is_space (rev s) = rev s"
    using assms by (simp_all add: dropWhile_eq_self_iff hd_rev)
  then show ?thesis by (simp add: trim_space_def)
qed

lemma is_digit_not_space: "is_digit c \<Longrightarrow> \<not> is_space c"
  by (auto simp: is_digit_def is_space_def Let_def)

lemma nat_str_last_digit: "is_digit (last (nat_str n))"
  using nat_str_digits [of n] by (simp add: list_all_iff)

lemma shard_Parse_String:
  assumes "1 \<le> shIndex s" "shIndex s \<le> shCount s" "shCount s \<le> 1024"
  shows "shard_Parse (shard_String s) = Inr s"
proof -
  obtain i n where s: "s = \<lparr>shIndex = i, shCount = n\<rparr>" by (cases s) auto
  let ?t = "shard_String s"
  have t: "?t = nat_str (nat i) @ CHR ''/'' # nat_str (nat n)"
    using assms s by (simp add: shard_String_def format_int_def)
  have "\<not> is_space (hd ?t)" "\<not> is_space (last ?t)"
    using t nat_str_hd_digit [of "nat i"] nat_str_last_digit [of "nat n"]
    by (auto simp: is_digit_not_space)
  then have trim: "trim_space ?t = ?t"
    using t by (intro trim_space_id) auto
  have "cut_byte ?t (CHR ''/'') = (nat_str (nat i), nat_str (nat n), True)"
    using t by (simp add: cut_byte_def index_byte_append)
  then show ?thesis
    using assms s t trim
    by (simp add: shard_Parse_def parse_int_nat_str i64_max_def)
qed

end
