(* ===== verification/Config.thy ===== *)
theory Config
  imports Sink Shard
begin

text \<open>
  internal/config/config.go: the configuration as parsed, its defaults, the expansion of
  environment references and of multi-region sources, and the static validation.  The file
  system and the YAML decoder (koanf) are arguments of Load.
  A Go map is an association list.
\<close>

section \<open>The schema\<close>

record discover =
  dcTags :: "(string \<times> string) list"
  dcAll :: bool
  dcExcludeTags :: "(string \<times> string) list"
  dcRefreshInterval :: duration

record source =
  soType :: string
  soEngine :: string
  soRegion :: string
  soRegions :: "string list"
  soInstances :: "string list"
  soDiscover :: "discover option"
  soAssumeRole :: string
  soIncludeAudit :: bool

record stdout_cfg = odFormat :: string

record sink_filter =
  sfMinSeverity :: string
  sfSeverities :: "string list"

record s3_cfg =
  s3Bucket :: string
  s3Prefix :: string
  s3Region :: string
  s3AssumeRole :: string
  s3ExternalID :: string
  s3KMSKeyID :: string
  s3MaxBytes :: int
  s3MaxRecords :: int
  s3MaxAge :: duration

record kafka_cfg =
  kaBrokers :: "string list"
  kaTopic :: string
  kaTopicTemplate :: string
  kaClientID :: string
  kaTLS :: bool
  kaSASLUsername :: string
  kaSASLPassword :: string
  kaSASLMechanism :: string

record http_cfg =
  htURL :: string
  htHeaders :: "(string \<times> string) list"
  htGZIP :: bool
  htTimeout :: duration

record retry_policy =
  rpMaxAttempts :: int
  rpInitialWait :: duration
  rpMaxWait :: duration
  rpMultiplier :: rat

record sink_cfg =
  csName :: string
  csType :: string
  csRetry :: retry_policy
  csFilter :: "sink_filter option"
  csS3 :: "s3_cfg option"
  csKafka :: "kafka_cfg option"
  csHTTP :: "http_cfg option"
  csStdout :: "stdout_cfg option"

record runtime =
  rtPollInterval :: duration
  rtPollIntervalMax :: duration
  rtPollBackoffMultiplier :: rat
  rtMaxBatchBytes :: int
  rtMaxBatchRecords :: int
  rtCheckpointRetention :: duration
  rtMaxWorkers :: int
  rtParallelReadsPerFile :: int
  rtShard :: string
  rtMaxInstancesConcurrent :: int
  rtShutdownTimeout :: duration
  rtStartFrom :: string
  rtMemoryBudgetBytes :: int

record config =
  cfSources :: "source list"
  cfSinks :: "sink_cfg list"
  cfState :: state_config
  cfRuntime :: runtime
  cfMetricsEnabled :: bool
  cfMetricsListen :: string
  cfLoggingLevel :: string

definition StartFromBeginning :: string where "StartFromBeginning = ''beginning''"
definition StartFromEnd :: string where "StartFromEnd = ''end''"

definition isValidEngine :: "string \<Rightarrow> bool" where
  "isValidEngine e = (e = ''postgres'' \<or> e = ''mysql'' \<or> e = ''mariadb'')"

section \<open>Loading\<close>

text \<open>expandRegions: one source per region; a source that sets both stays for Validate.\<close>

definition expand_source :: "source \<Rightarrow> source list" where
  "expand_source src =
     (if soRegions src = [] \<or> soRegion src \<noteq> [] then [src]
      else map (\<lambda>r. src\<lparr>soRegion := trim_space r, soRegions := []\<rparr>) (soRegions src))"

definition expandRegions :: "source list \<Rightarrow> source list" where
  "expandRegions srcs = concat (map expand_source srcs)"

text \<open>expandEnvRefs: the pattern is a dollar sign, a brace, an identifier and a brace.\<close>

definition is_name_start :: "char \<Rightarrow> bool" where
  "is_name_start c = (let n = (of_char c :: nat) in
     (65 \<le> n \<and> n \<le> 90) \<or> (97 \<le> n \<and> n \<le> 122) \<or> n = 95)"

definition is_name_char :: "char \<Rightarrow> bool" where
  "is_name_char c = (is_name_start c \<or> is_digit c)"

definition env_ref :: "string \<Rightarrow> (string \<times> string) option" where
  "env_ref s =
     (case s of
        a # b # rest \<Rightarrow>
          (let name = takeWhile is_name_char rest; after = dropWhile is_name_char rest in
           if a = CHR ''$'' \<and> b = CHR 0x7B \<and> name \<noteq> [] \<and> is_name_start (hd name)
              \<and> after \<noteq> [] \<and> hd after = CHR 0x7D
           then Some (name, tl after) else None)
      | _ \<Rightarrow> None)"

lemma env_ref_shorter: "env_ref s = Some (name, rest) \<Longrightarrow> length rest < length s"
proof (cases s)
  case (Cons a t)
  assume e: "env_ref s = Some (name, rest)"
  then obtain b u where "t = b # u" using Cons by (cases t) (auto simp: env_ref_def)
  then show ?thesis using e Cons length_dropWhile_le [of is_name_char u]
    by (auto simp: env_ref_def Let_def split: if_splits)
qed (simp add: env_ref_def)

function expandEnvRefs :: "(string \<Rightarrow> string option) \<Rightarrow> string \<Rightarrow> string" where
  "expandEnvRefs env s =
     (case env_ref s of
        Some (name, rest) \<Rightarrow>
          (case env name of
             Some v \<Rightarrow> v @ expandEnvRefs env rest
           | None \<Rightarrow> take (length s - length rest) s @ expandEnvRefs env rest)
      | None \<Rightarrow> (case s of [] \<Rightarrow> [] | c # t \<Rightarrow> c # expandEnvRefs env t))"
  by pat_completeness auto
termination
  by (relation "measure (\<lambda>(env, s). length s)") (auto dest: env_ref_shorter)

declare expandEnvRefs.simps [simp del]

definition defaults :: config where
  "defaults = \<lparr>cfSources = [], cfSinks = [], cfState = \<lparr>scType = ''sqlite'', scPath = ''./state.db''\<rparr>,
     cfRuntime = \<lparr>rtPollInterval = 10 * second, rtPollIntervalMax = 0, rtPollBackoffMultiplier = 2,
       rtMaxBatchBytes = 5 * 1024 * 1024, rtMaxBatchRecords = 10000, rtCheckpointRetention = 0,
       rtMaxWorkers = 5, rtParallelReadsPerFile = 0, rtShard = [], rtMaxInstancesConcurrent = 0,
       rtShutdownTimeout = 30 * second, rtStartFrom = StartFromEnd,
       rtMemoryBudgetBytes = 256 * 1024 * 1024\<rparr>,
     cfMetricsEnabled = True, cfMetricsListen = '':9090'', cfLoggingLevel = ''info''\<rparr>"

definition default_retry :: "retry_policy \<Rightarrow> retry_policy" where
  "default_retry r =
     \<lparr>rpMaxAttempts = (if rpMaxAttempts r = 0 then 10 else rpMaxAttempts r),
      rpInitialWait = (if rpInitialWait r = 0 then 500 * millisecond else rpInitialWait r),
      rpMaxWait = (if rpMaxWait r = 0 then 60 * second else rpMaxWait r),
      rpMultiplier = (if rpMultiplier r = 0 then 2 else rpMultiplier r)\<rparr>"

definition default_s3 :: "s3_cfg \<Rightarrow> s3_cfg" where
  "default_s3 c = c\<lparr>s3MaxBytes := (if s3MaxBytes c = 0 then 5 * 1024 * 1024 else s3MaxBytes c),
     s3MaxRecords := (if s3MaxRecords c = 0 then 10000 else s3MaxRecords c),
     s3MaxAge := (if s3MaxAge c = 0 then 30 * second else s3MaxAge c)\<rparr>"

definition default_http :: "http_cfg \<Rightarrow> http_cfg" where
  "default_http c = c\<lparr>htTimeout := (if htTimeout c = 0 then 30 * second else htTimeout c)\<rparr>"

definition default_sink :: "sink_cfg \<Rightarrow> sink_cfg" where
  "default_sink s = s\<lparr>csRetry := default_retry (csRetry s), csS3 := map_option default_s3 (csS3 s),
                      csHTTP := map_option default_http (csHTTP s)\<rparr>"

definition applyPostDefaults :: "config \<Rightarrow> config" where
  "applyPostDefaults c = c\<lparr>cfSinks := map default_sink (cfSinks c)\<rparr>"

text \<open>Load after the decoder: the argument is the decoded configuration.\<close>

definition Load_decoded :: "config \<Rightarrow> config" where
  "Load_decoded c =
     (let c1 = applyPostDefaults c in c1\<lparr>cfSources := expandRegions (cfSources c1)\<rparr>)"

text \<open>An environment variable overrides the setting its name spells.\<close>

definition env_key :: "string \<Rightarrow> string" where
  "env_key s = replace_all ''__'' ''.'' (to_lower (trim_prefix s ''RDSTAIL_''))"

text \<open>
  Load: readFile is os.ReadFile, parse the YAML provider of koanf, overlay its environment provider
  over a naming of variables, unmarshal the decoder into a configuration.
\<close>

definition Load ::
    "(string \<Rightarrow> string option) \<Rightarrow> (string \<Rightarrow> go_err + string) \<Rightarrow> (string \<Rightarrow> go_err + 'k)
       \<Rightarrow> ((string \<Rightarrow> string) \<Rightarrow> 'k \<Rightarrow> go_err + 'k) \<Rightarrow> ('k \<Rightarrow> config \<Rightarrow> go_err + config) \<Rightarrow> string
       \<Rightarrow> go_err + config" where
  "Load env readFile parse overlay unmarshal path =
     (if path = [] then Inl (ErrMsg ''config path is required'')
      else (case readFile path of
              Inl e \<Rightarrow> Inl (Wrapped ''read config'' e)
            | Inr raw \<Rightarrow>
                (case parse (expandEnvRefs env raw) of
                   Inl e \<Rightarrow> Inl (Wrapped ''parse yaml'' e)
                 | Inr k \<Rightarrow>
                     (case overlay env_key k of
                        Inl e \<Rightarrow> Inl (Wrapped ''load env'' e)
                      | Inr k1 \<Rightarrow>
                          (case unmarshal k1 defaults of
                             Inl e \<Rightarrow> Inl (Wrapped ''unmarshal'' e)
                           | Inr c \<Rightarrow> Inr (Load_decoded c))))))"

section \<open>Validation\<close>

definition chk :: "bool \<Rightarrow> string \<Rightarrow> go_err list" where
  "chk failed msg = (if failed then [ErrMsg msg] else [])"

definition idx_prefix :: "string \<Rightarrow> nat \<Rightarrow> string" where
  "idx_prefix what i = what @ ''['' @ nat_str i @ '']''"

definition validate_source :: "nat \<Rightarrow> source \<Rightarrow> go_err list" where
  "validate_source i src =
     (let p = idx_prefix ''sources'' i in
      chk (soType src \<noteq> ''rds'') (p @ ''.type: only '' @ go_quote ''rds'' @ '' is supported'')
      @ chk (soEngine src \<noteq> [] \<and> \<not> isValidEngine (soEngine src))
          (p @ ''.engine: must be one of postgres, mysql, mariadb (got '' @ go_quote (soEngine src) @ '')'')
      @ (if soRegion src \<noteq> [] \<and> soRegions src \<noteq> []
         then [ErrMsg (p @ '': set region or regions, not both'')]
         else chk (trim_space (soRegion src) = []) (p @ ''.region: required (or regions: [...])''))
      @ chk (soInstances src = [] \<and> soDiscover src = None)
          (p @ ''.instances: at least one instance required (or set discover)'')
      @ (case soDiscover src of
           None \<Rightarrow> []
         | Some d \<Rightarrow>
             chk (dcTags d = [] \<and> \<not> dcAll d)
               (p @ ''.discover: set tags, or all: true to ingest every instance in the region'')
             @ chk (dcRefreshInterval d \<noteq> 0 \<and> dcRefreshInterval d < 30 * second)
               (p @ ''.discover.refresh_interval: must be >= 30s (or 0 for startup-only)'')))"

definition validateSinkShape :: "string \<Rightarrow> sink_cfg \<Rightarrow> go_err list" where
  "validateSinkShape p s =
     (if csType s = ''s3'' then
        (case csS3 s of
           None \<Rightarrow> [ErrMsg (p @ ''.s3: required when type=s3'')]
         | Some c \<Rightarrow> chk (trim_space (s3Bucket c) = []) (p @ ''.s3.bucket: required'')
                     @ chk (trim_space (s3Region c) = []) (p @ ''.s3.region: required''))
      else if csType s = ''kafka'' then
        (case csKafka s of
           None \<Rightarrow> [ErrMsg (p @ ''.kafka: required when type=kafka'')]
         | Some c \<Rightarrow>
             chk (kaBrokers c = []) (p @ ''.kafka.brokers: at least one broker required'')
             @ chk (kaTopic c = [] \<and> kaTopicTemplate c = [])
                 (p @ ''.kafka: one of topic or topic_template is required'')
             @ chk (kaSASLMechanism c \<notin> {'''', ''plain'', ''scram-sha-256'', ''scram-sha-512''})
                 (p @ ''.kafka.sasl_mechanism: must be plain, scram-sha-256, or scram-sha-512 (got ''
                    @ go_quote (kaSASLMechanism c) @ '')'')
             @ chk (kaSASLUsername c \<noteq> [] \<and> kaSASLPassword c = [])
                 (p @ ''.kafka.sasl_password: required when sasl_username is set''))
      else if csType s = ''http'' then
        (case csHTTP s of
           None \<Rightarrow> [ErrMsg (p @ ''.http: required when type=http'')]
         | Some c \<Rightarrow>
             if trim_space (htURL c) = [] then [ErrMsg (p @ ''.http.url: required'')]
             else chk (\<not> has_prefix (htURL c) ''http://'' \<and> \<not> has_prefix (htURL c) ''https://'')
                    (p @ ''.http.url: must begin with http:// or https://''))
      else if csType s = ''stdout'' then
        (case csStdout s of
           None \<Rightarrow> []
         | Some c \<Rightarrow>
             chk (odFormat c \<noteq> [] \<and> odFormat c \<noteq> ''ndjson'' \<and> odFormat c \<noteq> ''text'')
               (p @ ''.stdout.format: must be ndjson or text (got '' @ go_quote (odFormat c) @ '')''))
      else [ErrMsg (p @ ''.type: must be one of s3, kafka, http, stdout (got ''
                      @ go_quote (csType s) @ '')'')])"

definition validate_filter :: "string \<Rightarrow> sink_filter \<Rightarrow> go_err list" where
  "validate_filter p f =
     chk (sfMinSeverity f \<noteq> [] \<and> sfSeverities f \<noteq> [])
       (p @ ''.filter: set min_severity or severities, not both'')
     @ chk (sfMinSeverity f = [] \<and> sfSeverities f = [])
         (p @ ''.filter: min_severity or severities required'')
     @ chk (sfMinSeverity f \<noteq> [] \<and> SeverityRank (sfMinSeverity f) = 0)
         (p @ ''.filter.min_severity: unknown severity '' @ go_quote (sfMinSeverity f))"

text \<open>One pass over the sinks; seen holds the names accepted so far.\<close>

fun validate_sinks :: "nat \<Rightarrow> string list \<Rightarrow> sink_cfg list \<Rightarrow> go_err list" where
  "validate_sinks i seen [] = []"
| "validate_sinks i seen (s # ss) =
     (let p = idx_prefix ''sinks'' i in
      (case csFilter s of None \<Rightarrow> [] | Some f \<Rightarrow> validate_filter p f)
      @ (if trim_space (csName s) = [] then [ErrMsg (p @ ''.name: required'')]
         else if csName s \<in> set seen
         then [ErrMsg (p @ ''.name: duplicate sink name '' @ go_quote (csName s))] else [])
      @ validateSinkShape p s
      @ validate_sinks (Suc i)
          (if trim_space (csName s) = [] \<or> csName s \<in> set seen then seen else csName s # seen) ss)"

definition validate_runtime :: "runtime \<Rightarrow> go_err list" where
  "validate_runtime r =
     chk (rtPollInterval r < second) ''runtime.poll_interval: must be >= 1s''
     @ chk (rtPollIntervalMax r \<noteq> 0 \<and> rtPollIntervalMax r < rtPollInterval r)
         ''runtime.poll_interval_max: must be >= runtime.poll_interval (or 0 to disable adaptive polling)''
     @ chk (rtPollBackoffMultiplier r \<noteq> 0 \<and> rtPollBackoffMultiplier r \<le> 1)
         ''runtime.poll_backoff_multiplier: must be > 1''
     @ chk (rtMaxBatchBytes r < 0) ''runtime.max_batch_bytes: must be >= 0 (0 = per-chunk writes)''
     @ chk (rtMaxBatchRecords r < 0) ''runtime.max_batch_records: must be >= 0 (0 = per-chunk writes)''
     @ chk (rtCheckpointRetention r \<noteq> 0 \<and> rtCheckpointRetention r < 24 * hour)
         ''runtime.checkpoint_retention: must be >= 24h (or 0 to disable)''
     @ chk (rtParallelReadsPerFile r < 0 \<or> rtParallelReadsPerFile r > 32)
         ''runtime.parallel_reads_per_file: must be between 1 and 32 (0 or 1 = off)''
     @ chk (rtMaxWorkers r < 1) ''runtime.max_workers: must be >= 1''
     @ chk (rtStartFrom r \<noteq> StartFromBeginning \<and> rtStartFrom r \<noteq> StartFromEnd)
         (''runtime.start_from: must be '' @ go_quote StartFromBeginning @ '' or ''
            @ go_quote StartFromEnd)"

definition validate_all :: "config \<Rightarrow> go_err list" where
  "validate_all c =
     chk (cfSources c = []) ''sources: at least one source is required''
     @ concat (map (\<lambda>(i, s). validate_source i s) (enumerate 0 (cfSources c)))
     @ chk (cfSinks c = []) ''sinks: at least one sink is required''
     @ validate_sinks 0 [] (cfSinks c)
     @ validate_runtime (cfRuntime c)
     @ chk (scType (cfState c) \<noteq> ''sqlite'' \<and> scType (cfState c) \<noteq> ''file'')
         (''state.type: must be '' @ go_quote ''sqlite'' @ '' or '' @ go_quote ''file'')
     @ chk (trim_space (scPath (cfState c)) = []) ''state.path: required''
     @ (case shard_Parse (rtShard (cfRuntime c)) of
          Inl e \<Rightarrow> [Wrapped ''runtime.shard'' e] | Inr _ \<Rightarrow> [])
     @ (let n = int (sum_list (map (\<lambda>s. length (soInstances s)) (cfSources c)));
            cnt = (case shard_Parse (rtShard (cfRuntime c)) of
                     Inl _ \<Rightarrow> 0 | Inr sh \<Rightarrow> shCount sh)
        in chk (n div max cnt 1 > 500)
             (''sources: '' @ format_int n @ '' instances exceeds the 500-instance default cap (raise memory_budget_bytes and re-check cardinality before removing)''))"

definition Validate :: "config \<Rightarrow> go_err option" where
  "Validate c = errors_join (validate_all c)"

end
