(* ===== verification/Worker.thy ===== *)
theory Worker
  imports Fetcher Config
begin

text \<open>
  internal/pipeline/worker.go, the worker of one instance: its constants (record worker),
  the mutable fields of the same struct (record wst), and the operations on them that do
  not touch the store or the sink.  A counter is the list of its increments, a gauge its last
  value.  A Go map is a partial function, or an association list where its length matters.
\<close>

section \<open>State\<close>

record ship_key =
  skHash :: u64
  skLen :: int

record ring =
  rgKeys :: "ship_key list"
  rgBytes :: int
  rgSet :: "u64 \<Rightarrow> nat"

record restart_note =
  rnGen :: int
  rnAt :: time

record mark_at =
  mkTime :: time
  mkMarker :: string

record wst =
  wsInitialFiles :: "string list option"
  wsInitialSize :: "string \<Rightarrow> int option"
  wsHorizon :: time
  wsThrottled :: bool
  wsStalls :: "string \<Rightarrow> nat"
  wsRecentErrors :: "(u64 \<times> time) list"
  wsErrPruned :: time
  wsShipped :: "string \<Rightarrow> ring option"
  wsRestartGen :: int
  wsRestarts :: "restart_note list"
  wsHandledGen :: "string \<Rightarrow> int"
  wsStarted :: time
  wsMarks :: "string \<Rightarrow> mark_at list"
  wsAnoms :: "string list"
  wsStateOps :: "(string \<times> string) list"
  wsLag :: "string \<Rightarrow> duration option"
  wsPollGauge :: "duration option"

record 'w worker =
  wkFetcher :: "'w fetcher"
  wkStore :: "'w state_store"
  wkSink :: "'w sink"
  wkPollInterval :: duration
  wkPollIntervalMax :: duration
  wkPollMultiplier :: rat
  wkMaxBatchBytes :: int
  wkMaxBatchRecords :: int
  wkParallelReads :: int
  wkDrainSem :: bool
  wkStartFrom :: string
  wkMinFileTime :: time
  wkEnv :: "'w env"

abbreviation wkInstance :: "'w worker \<Rightarrow> string" where
  "wkInstance wk \<equiv> ftInstanceID (wkFetcher wk)"

definition restartMargin :: duration where "restartMargin = minute"
definition restartDedupWindow :: duration where "restartDedupWindow = 90 * second"
definition marksKept :: nat where "marksKept = 256"
definition rewindBytes :: int where "rewindBytes = 262144"
definition shipRingBytes :: int where "shipRingBytes = 2097152"
definition shipRingMaxKeys :: nat where "shipRingMaxKeys = 50000"
definition recentErrorsTTL :: duration where "recentErrorsTTL = hour"
definition recentErrorsMax :: nat where "recentErrorsMax = 200000"
definition stallThreshold :: nat where "stallThreshold = 3"
definition throttleMaxDelay :: duration where "throttleMaxDelay = 2 * minute"

section \<open>Construction\<close>

record 'w worker_opts =
  woFetcher :: "'w fetcher option"
  woStore :: "'w state_store option"
  woSink :: "'w sink option"
  woPollInterval :: duration
  woPollIntervalMax :: duration
  woPollMultiplier :: rat
  woMaxBatchBytes :: int
  woMaxBatchRecords :: int
  woParallelReads :: int
  woDrainSem :: bool
  woStartFrom :: string
  woMinFileTime :: time
  woEnv :: "'w env"

definition initial_wst :: "time \<Rightarrow> wst" where
  "initial_wst now = \<lparr>wsInitialFiles = None, wsInitialSize = (\<lambda>_. None), wsHorizon = time_zero,
     wsThrottled = False, wsStalls = (\<lambda>_. 0), wsRecentErrors = [], wsErrPruned = time_zero,
     wsShipped = (\<lambda>_. None), wsRestartGen = 0, wsRestarts = [], wsHandledGen = (\<lambda>_. 0),
     wsStarted = now, wsMarks = (\<lambda>_. []), wsAnoms = [], wsStateOps = [],
     wsLag = (\<lambda>_. None), wsPollGauge = None\<rparr>"

definition NewInstanceWorker :: "'w worker_opts \<Rightarrow> 'w \<Rightarrow> go_err + ('w worker \<times> wst)" where
  "NewInstanceWorker opts w =
     (case (woFetcher opts, woStore opts, woSink opts) of
        (None, _, _) \<Rightarrow> Inl (ErrMsg ''pipeline: fetcher required'')
      | (Some f, None, _) \<Rightarrow> Inl (ErrMsg ''pipeline: state store required'')
      | (Some f, Some st, None) \<Rightarrow> Inl (ErrMsg ''pipeline: sink required'')
      | (Some f, Some st, Some sk) \<Rightarrow>
          (let pi = (if woPollInterval opts \<le> 0 then 10 * second else woPollInterval opts) in
           Inr (\<lparr>wkFetcher = f, wkStore = st, wkSink = sk, wkPollInterval = pi,
                 wkPollIntervalMax = (if woPollIntervalMax opts < pi then 0 else woPollIntervalMax opts),
                 wkPollMultiplier = (if woPollMultiplier opts \<le> 1 then 2 else woPollMultiplier opts),
                 wkMaxBatchBytes = woMaxBatchBytes opts, wkMaxBatchRecords = woMaxBatchRecords opts,
                 wkParallelReads = woParallelReads opts, wkDrainSem = woDrainSem opts,
                 wkStartFrom = (if woStartFrom opts = [] then StartFromEnd else woStartFrom opts),
                 wkMinFileTime = woMinFileTime opts, wkEnv = woEnv opts\<rparr>,
                initial_wst (enNow (woEnv opts) w))))"

section \<open>Pacing\<close>

text \<open>rnd is the draw of rand.Float64; products are exact.\<close>

definition nextPollDelay :: "'w worker \<Rightarrow> rat \<Rightarrow> duration \<Rightarrow> bool \<Rightarrow> bool \<Rightarrow> duration" where
  "nextPollDelay wk rnd current active throttled =
     (if throttled then
        let d = min (max current (wkPollInterval wk) * 2) (max throttleMaxDelay (wkPollIntervalMax wk))
        in to_duration (enOverflow (wkEnv wk)) (of_int d * (4 / 5 + 2 / 5 * rnd))
      else if wkPollIntervalMax wk \<le> 0 \<or> active then wkPollInterval wk
      else min (to_duration (enOverflow (wkEnv wk)) (of_int current * wkPollMultiplier wk))
             (wkPollIntervalMax wk))"

section \<open>Files\<close>

definition eligibleFiles :: "'w worker \<Rightarrow> file_meta list \<Rightarrow> file_meta list" where
  "eligibleFiles wk files =
     (if is_zero_time (wkMinFileTime wk) then files
      else filter (\<lambda>f. \<not> (\<not> is_zero_time (LastWritten f) \<and> LastWritten f < wkMinFileTime wk)) files)"

definition startFor :: "'w worker \<Rightarrow> wst \<Rightarrow> file_meta \<Rightarrow> string" where
  "startFor wk ws file =
     (if wkStartFrom wk = StartFromBeginning then StartFromBeginning
      else if (case wsInitialFiles ws of None \<Rightarrow> False | Some ns \<Rightarrow> fmName file \<in> set ns)
      then wkStartFrom wk
      else if \<not> is_zero_time (wsHorizon ws) \<and> \<not> is_zero_time (LastWritten file)
              \<and> \<not> wsHorizon ws < LastWritten file
      then wkStartFrom wk
      else StartFromBeginning)"

definition isErrorLog :: "string \<Rightarrow> bool" where
  "isErrorLog name = (path_base name = ''mysql-error.log'')"

definition isErrorRunningLog :: "string \<Rightarrow> bool" where
  "isErrorRunningLog name = has_prefix (path_base name) ''mysql-error-running.log''"

definition splitErrorLogPhases :: "file_meta list \<Rightarrow> file_meta list \<times> file_meta list" where
  "splitErrorLogPhases files =
     (if \<not> list_ex (\<lambda>f. isErrorLog (fmName f)) files then (files, [])
      else (filter (\<lambda>f. \<not> isErrorRunningLog (fmName f)) files,
            filter (\<lambda>f. isErrorRunningLog (fmName f)) files))"

section \<open>Metrics\<close>

definition anomaly :: "string \<Rightarrow> wst \<Rightarrow> wst" where
  "anomaly kind ws = ws\<lparr>wsAnoms := wsAnoms ws @ [kind]\<rparr>"

definition stateOp :: "string \<Rightarrow> string \<Rightarrow> wst \<Rightarrow> wst" where
  "stateOp op outcome ws = ws\<lparr>wsStateOps := wsStateOps ws @ [(op, outcome)]\<rparr>"

text \<open>The lag of a file at now, never negative; a file with no time is not observed.\<close>

definition observeLag :: "time \<Rightarrow> file_meta \<Rightarrow> wst \<Rightarrow> wst" where
  "observeLag now file ws =
     (if is_zero_time (LastWritten file) then ws
      else ws\<lparr>wsLag := (wsLag ws)(fmName file \<mapsto> max 0 (time_sub now (LastWritten file)))\<rparr>)"

section \<open>Stalls\<close>

definition noteProgress :: "file_meta \<Rightarrow> checkpoint \<Rightarrow> checkpoint \<Rightarrow> nat \<Rightarrow> wst \<Rightarrow> wst" where
  "noteProgress file before after shipped ws =
     (let grew = (ckLastWritten before < LastWritten file \<and> \<not> is_zero_time (ckLastWritten before)) in
      if shipped > 0 \<or> ckMarker after \<noteq> ckMarker before \<or> \<not> grew
      then ws\<lparr>wsStalls := (wsStalls ws)(fmName file := 0)\<rparr>
      else let n = wsStalls ws (fmName file) + 1;
               ws1 = ws\<lparr>wsStalls := (wsStalls ws)(fmName file := n)\<rparr>
           in if n = stallThreshold then anomaly ''stall'' ws1 else ws1)"

section \<open>Remembered error lines\<close>

definition prune_errors :: "time \<Rightarrow> duration \<Rightarrow> (u64 \<times> time) list \<Rightarrow> (u64 \<times> time) list" where
  "prune_errors now ttl es = filter (\<lambda>(k, t). \<not> time_sub now t > ttl) es"

fun add_errors :: "time \<Rightarrow> logrecord list \<Rightarrow> (u64 \<times> time) list \<Rightarrow> (u64 \<times> time) list" where
  "add_errors now [] es = es"
| "add_errors now (r # rs) es =
     (if length es \<ge> recentErrorsMax then es
      else add_errors now rs (AList.update (errorKey (lrMessage r)) now es))"

definition rememberErrors :: "time \<Rightarrow> logrecord list \<Rightarrow> wst \<Rightarrow> wst" where
  "rememberErrors now recs ws =
     (let es = (if length (wsRecentErrors ws) + length recs > recentErrorsMax
                then prune_errors now (recentErrorsTTL div 4) (wsRecentErrors ws)
                else wsRecentErrors ws)
      in ws\<lparr>wsRecentErrors := add_errors now recs es\<rparr>)"

definition seen_error :: "(u64 \<times> time) list \<Rightarrow> logrecord \<Rightarrow> bool" where
  "seen_error es r = (map_of es (errorKey (lrMessage r)) \<noteq> None)"

definition dropShippedErrors :: "time \<Rightarrow> logrecord list \<Rightarrow> wst \<Rightarrow> (logrecord list \<times> bool) \<times> wst" where
  "dropShippedErrors now recs ws =
     (let ws1 = (if time_sub now (wsErrPruned ws) > minute
                 then ws\<lparr>wsRecentErrors := prune_errors now recentErrorsTTL (wsRecentErrors ws),
                        wsErrPruned := now\<rparr>
                 else ws)
      in ((filter (\<lambda>r. \<not> seen_error (wsRecentErrors ws1) r) recs,
           recs \<noteq> [] \<and> seen_error (wsRecentErrors ws1) (hd recs)), ws1))"

section \<open>Markers\<close>

definition markerStillValid :: "string \<Rightarrow> int \<Rightarrow> bool" where
  "markerStillValid marker sz =
     (case ParseHourMarker marker of None \<Rightarrow> False | Some (_, off) \<Rightarrow> off \<le> sz)"

definition anchorSize :: "wst \<Rightarrow> file_meta \<Rightarrow> int" where
  "anchorSize ws file =
     (case wsInitialSize ws (fmName file) of
        Some n \<Rightarrow> if n \<le> fmSize file then n else fmSize file
      | None \<Rightarrow> fmSize file)"

definition rewindMarker :: "string \<Rightarrow> int \<Rightarrow> string \<times> bool" where
  "rewindMarker marker sz =
     (case last_index_byte marker (CHR '':'') of
        None \<Rightarrow> (MarkerBeginning, False)
      | Some i \<Rightarrow>
          if i = 0 then (MarkerBeginning, False)
          else (case parse_int (drop (Suc i) marker) of
                  None \<Rightarrow> (MarkerBeginning, False)
                | Some off \<Rightarrow>
                    let start = min off sz - rewindBytes in
                    if start \<le> 0 then (MarkerBeginning, False)
                    else (take (Suc i) marker @ format_int start, True)))"

definition sameHourFile :: "string \<Rightarrow> string \<Rightarrow> bool" where
  "sameHourFile a b =
     (case (ParseHourMarker a, ParseHourMarker b) of
        (Some (ia, _), Some (ib, _)) \<Rightarrow> ia = ib
      | (None, None) \<Rightarrow> True
      | _ \<Rightarrow> False)"

section \<open>The ring of shipped records\<close>

definition empty_ring :: ring where
  "empty_ring = \<lparr>rgKeys = [], rgBytes = 0, rgSet = (\<lambda>_. 0)\<rparr>"

definition ship_key_of :: "logrecord \<Rightarrow> ship_key" where
  "ship_key_of r = \<lparr>skHash = errorKey (lrMessage r), skLen = int (length (lrMessage r)) + 1\<rparr>"

definition ring_add :: "ring \<Rightarrow> logrecord \<Rightarrow> ring" where
  "ring_add r rec =
     (let k = ship_key_of rec in
      \<lparr>rgKeys = rgKeys r @ [k], rgBytes = rgBytes r + skLen k,
       rgSet = (rgSet r)(skHash k := rgSet r (skHash k) + 1)\<rparr>)"

text \<open>The eviction loop, on the keys not yet dropped.\<close>

fun ring_evict :: "ship_key list \<Rightarrow> int \<Rightarrow> (u64 \<Rightarrow> nat) \<Rightarrow> ring" where
  "ring_evict [] b s = \<lparr>rgKeys = [], rgBytes = b, rgSet = s\<rparr>"
| "ring_evict (k # ks) b s =
     (if b - skLen k \<ge> shipRingBytes \<or> length (k # ks) > shipRingMaxKeys
      then ring_evict ks (b - skLen k) (s(skHash k := s (skHash k) - 1))
      else \<lparr>rgKeys = k # ks, rgBytes = b, rgSet = s\<rparr>)"

definition ring_trim :: "ring \<Rightarrow> ring" where
  "ring_trim r = ring_evict (rgKeys r) (rgBytes r) (rgSet r)"

definition rememberShipped :: "string \<Rightarrow> logrecord list \<Rightarrow> wst \<Rightarrow> wst" where
  "rememberShipped file recs ws =
     (let r = (case wsShipped ws file of None \<Rightarrow> empty_ring | Some r \<Rightarrow> r) in
      ws\<lparr>wsShipped := (wsShipped ws)(file \<mapsto> ring_trim (foldl ring_add r recs))\<rparr>)"

fun drop_loop :: "(u64 \<Rightarrow> nat) \<Rightarrow> logrecord list \<Rightarrow> (u64 \<Rightarrow> nat) \<Rightarrow> logrecord list \<times> (u64 \<Rightarrow> nat)" where
  "drop_loop s [] consumed = ([], consumed)"
| "drop_loop s (rec # recs) consumed =
     (let h = errorKey (lrMessage rec) in
      if consumed h < s h then drop_loop s recs (consumed(h := consumed h + 1))
      else (case drop_loop s recs consumed of (kept, c) \<Rightarrow> (rec # kept, c)))"

definition dropAlreadyShipped ::
    "wst \<Rightarrow> string \<Rightarrow> logrecord list \<Rightarrow> (u64 \<Rightarrow> nat) \<Rightarrow> logrecord list \<times> (u64 \<Rightarrow> nat)" where
  "dropAlreadyShipped ws file recs consumed =
     (case wsShipped ws file of None \<Rightarrow> (recs, consumed)
      | Some r \<Rightarrow> drop_loop (rgSet r) recs consumed)"

section \<open>Restarts\<close>

definition serverReady :: "string \<Rightarrow> bool" where
  "serverReady m = (str_contains m ''ready for connections''
                    \<or> str_contains m ''database system is ready to accept connections'')"

definition NotifyRestart :: "time \<Rightarrow> wst \<Rightarrow> wst" where
  "NotifyRestart tm ws =
     (if list_ex (\<lambda>r. let d = time_sub tm (rnAt r) in
                      d < restartDedupWindow \<and> d > - restartDedupWindow) (wsRestarts ws)
      then ws
      else let gen = wsRestartGen ws + 1;
               rs = wsRestarts ws @ [\<lparr>rnGen = gen, rnAt = tm\<rparr>]
           in (anomaly ''restart'' ws)\<lparr>wsRestartGen := gen,
                wsRestarts := (if length rs > 32 then drop (length rs - 32) rs else rs)\<rparr>)"

fun first_banner :: "time \<Rightarrow> logrecord list \<Rightarrow> time option" where
  "first_banner since [] = None"
| "first_banner since (r # rs) =
     (if since < lrTimestamp r \<and> serverReady (lrMessage r) then Some (lrTimestamp r)
      else first_banner since rs)"

definition noteServerStart :: "logrecord list \<Rightarrow> wst \<Rightarrow> wst" where
  "noteServerStart recs ws =
     (let since = (if \<not> is_zero_time (wsHorizon ws) \<and> wsHorizon ws < wsStarted ws
                   then wsHorizon ws else wsStarted ws)
      in case first_banner since recs of None \<Rightarrow> ws | Some tm \<Rightarrow> NotifyRestart tm ws)"

definition earliest_restart :: "int \<Rightarrow> restart_note list \<Rightarrow> time" where
  "earliest_restart handled rs =
     foldl (\<lambda>tm r. if rnGen r > handled \<and> (is_zero_time tm \<or> rnAt r < tm) then rnAt r else tm)
       time_zero rs"

definition pendingRestart :: "wst \<Rightarrow> string \<Rightarrow> bool \<times> time \<times> int" where
  "pendingRestart ws file =
     (let gen = wsRestartGen ws; handled = wsHandledGen ws file in
      if handled \<ge> gen then (False, time_zero, 0)
      else (True, earliest_restart handled (wsRestarts ws), gen))"

definition markRestartHandled :: "string \<Rightarrow> int \<Rightarrow> wst \<Rightarrow> wst" where
  "markRestartHandled file gen ws =
     (if gen > wsHandledGen ws file
      then ws\<lparr>wsHandledGen := (wsHandledGen ws)(file := gen)\<rparr> else ws)"

definition recordMark :: "time \<Rightarrow> string \<Rightarrow> string \<Rightarrow> wst \<Rightarrow> wst" where
  "recordMark now file marker ws =
     (let m = wsMarks ws file @ [\<lparr>mkTime = now, mkMarker = marker\<rparr>] in
      ws\<lparr>wsMarks := (wsMarks ws)(file := if length m > marksKept then drop (length m - marksKept) m
                                       else m)\<rparr>)"

text \<open>The newest mark set at or before t, else the oldest known.\<close>

definition markBefore :: "wst \<Rightarrow> string \<Rightarrow> time \<Rightarrow> string option" where
  "markBefore ws file t =
     (let m = wsMarks ws file in
      case find (\<lambda>k. \<not> t < mkTime k) (rev m) of
        Some k \<Rightarrow> Some (mkMarker k)
      | None \<Rightarrow> (case m of [] \<Rightarrow> None | k # _ \<Rightarrow> Some (mkMarker k)))"

end
