(* ===== verification/Drain.thy ===== *)
theory Drain
  imports Worker
begin

text \<open>
  internal/pipeline/worker.go, drainFile and parallelDrain: one drain of one log file.  The
  local variables of drainFile are a record; its closures and the body of its pagination
  loop are definitions on that record, composed by drain_loop.  A drain returns the number
  of records shipped and an error, with the worker's state and the world; None is a drain
  that does not return.
\<close>

section \<open>Parallel reads\<close>

definition parallelSegment :: int where "parallelSegment = 2097152"

text \<open>The byte ranges of one wave: start, end (-1 is to the end of file), first of the wave.\<close>

fun range_plan :: "int \<Rightarrow> int \<Rightarrow> int \<Rightarrow> bool \<Rightarrow> nat \<Rightarrow> nat \<Rightarrow> (int \<times> int \<times> bool) list" where
  "range_plan off sz n lastWave i 0 = []"
| "range_plan off sz n lastWave i (Suc k) =
     (let start = off + int i * parallelSegment;
          stop = (if lastWave \<and> (int i = n - 1 \<or> start + parallelSegment \<ge> sz) then -1
                  else start + parallelSegment)
      in if start \<ge> sz then range_plan off sz n lastWave (Suc i) k
         else (start, stop, i = 0) # (if stop < 0 then [] else range_plan off sz n lastWave (Suc i) k))"

text \<open>The reads of one wave; every read is made, whatever the others return.\<close>

fun read_ranges ::
    "'w fetcher \<Rightarrow> string \<Rightarrow> string \<Rightarrow> (int \<times> int \<times> bool) list \<Rightarrow> 'w
       \<Rightarrow> ((go_err + string \<times> int) list \<times> 'w) option" where
  "read_ranges f name pfx [] w = Some ([], w)"
| "read_ranges f name pfx ((start, stop, first) # rs) w =
     (case ReadRange f name pfx start stop first w of
        None \<Rightarrow> None
      | Some (r, w1) \<Rightarrow>
          (case read_ranges f name pfx rs w1 of
             None \<Rightarrow> None | Some (xs, w2) \<Rightarrow> Some (r # xs, w2)))"

text \<open>The ranges tile when each starts where the one before ended.\<close>

datatype tiling = TileErr go_err | NoTile | Tiled string int

fun tile :: "int \<Rightarrow> string \<Rightarrow> (go_err + string \<times> int) list \<Rightarrow> tiling" where
  "tile pos sb [] = Tiled sb pos"
| "tile pos sb (Inl e # rs) =
     (if err_is e ErrRangeUnsupported then NoTile else TileErr (Wrapped ''parallel read'' e))"
| "tile pos sb (Inr (t, stop) # rs) =
     (if stop < 0 then tile pos sb rs
      else if stop - int (length t) \<noteq> pos then NoTile
      else tile stop (sb @ t) rs)"

text \<open>
  What of a wave is shipped: None leaves it to the sequential path; a wave that is not the
  last holds its last record back.
\<close>

definition wave_records ::
    "'w fetcher \<Rightarrow> string \<Rightarrow> bool \<Rightarrow> string \<Rightarrow> int \<Rightarrow> 'w \<Rightarrow> (logrecord list \<times> int) option" where
  "wave_records f name lastWave text waveEnd w =
     (let recs = Records f name text w in
      if lastWave then Some (recs, waveEnd)
      else if length recs < 2 then None
      else let tail = lrMessage (last recs) @ [nl] in
           if \<not> has_suffix text tail then None
           else Some (butlast recs, waveEnd - int (length tail)))"

definition stamp :: "string \<Rightarrow> string \<Rightarrow> logrecord list \<Rightarrow> logrecord list" where
  "stamp marker batch recs = map (\<lambda>r. r\<lparr>lrMarker := marker, lrBatchID := batch\<rparr>) recs"

definition set_ckpt ::
    "'w worker \<Rightarrow> string \<Rightarrow> checkpoint \<Rightarrow> wst \<Rightarrow> 'w \<Rightarrow> go_err option \<times> wst \<times> 'w" where
  "set_ckpt wk name c ws w =
     (case ssSet (wkStore wk) (wkInstance wk) name c w of
        (Some e, w1) \<Rightarrow> (Some e, stateOp ''set'' ''error'' ws, w1)
      | (None, w1) \<Rightarrow> (None, stateOp ''set'' ''ok'' ws, w1))"

text \<open>
  One wave after its reads: Inl ends the drain with a count and an error, Inr continues
  with the new checkpoint, offset and count.
\<close>

definition parallel_wave ::
    "'w worker \<Rightarrow> file_meta \<Rightarrow> string \<Rightarrow> int \<Rightarrow> bool \<Rightarrow> checkpoint \<Rightarrow> nat
       \<Rightarrow> (go_err + string \<times> int) list \<Rightarrow> wst \<Rightarrow> 'w
       \<Rightarrow> (((nat \<times> go_err option) + (checkpoint \<times> int \<times> nat)) \<times> wst \<times> 'w)" where
  "parallel_wave wk file pfx off lastWave prev shipped results ws w =
     (case tile off [] results of
        TileErr e \<Rightarrow> (Inl (shipped, Some e), ws, w)
      | NoTile \<Rightarrow> (Inl (shipped, None), ws, w)
      | Tiled text waveEnd0 \<Rightarrow>
        (case wave_records (wkFetcher wk) (fmName file) lastWave text waveEnd0 w of
           None \<Rightarrow> (Inl (shipped, None), ws, w)
         | Some (recs0, waveEnd) \<Rightarrow>
           if waveEnd \<le> off then (Inl (shipped, None), ws, w)
           else
             let next = offset_marker pfx waveEnd;
                 recs = stamp next (BatchID (wkInstance wk) (fmName file) (ckMarker prev) next) recs0;
                 ws1 = noteServerStart recs ws in
             (case (if recs = [] then (None, w) else skWrite (wkSink wk) recs w) of
                (Some e, w1) \<Rightarrow> (Inl (shipped, Some (Wrapped ''sink write'' e)), ws1, w1)
              | (None, w1) \<Rightarrow>
                  let ws2 = (if recs = [] then ws1 else rememberShipped (fmName file) recs ws1);
                      ckpt = \<lparr>ckMarker = next, ckBytesWritten = ckBytesWritten prev + (waveEnd - off),
                              ckFileSize = fmSize file, ckLastWritten = LastWritten file,
                              ckSkip = False\<rparr> in
                  (case set_ckpt wk (fmName file) ckpt ws2 w1 of
                     (Some e, ws3, w2) \<Rightarrow>
                       (Inl (shipped + length recs, Some (Wrapped ''state set'' e)), ws3, w2)
                   | (None, ws3, w2) \<Rightarrow>
                       (Inr (ckpt, waveEnd, shipped + length recs),
                        recordMark (enNow (wkEnv wk) w2) (fmName file) next ws3, w2)))))"

partial_function (option) parallel_loop ::
    "'w worker \<Rightarrow> file_meta \<Rightarrow> string \<Rightarrow> int \<Rightarrow> checkpoint \<Rightarrow> nat \<Rightarrow> wst \<Rightarrow> 'w
       \<Rightarrow> ((nat \<times> go_err option) \<times> checkpoint \<times> wst \<times> 'w) option" where
  "parallel_loop wk file pfx off prev shipped ws w =
     (let n = wkParallelReads wk in
      if fmSize file - off < n * parallelSegment div 2 then Some ((shipped, None), prev, ws, w)
      else (case enCtx (wkEnv wk) w of
              Some e \<Rightarrow> Some ((shipped, Some e), prev, ws, w)
            | None \<Rightarrow>
                let lastWave = off + n * parallelSegment \<ge> fmSize file in
                (case read_ranges (wkFetcher wk) (fmName file) pfx
                        (range_plan off (fmSize file) n lastWave 0 (nat n)) w of
                   None \<Rightarrow> None
                 | Some (results, w1) \<Rightarrow>
                     (case parallel_wave wk file pfx off lastWave prev shipped results ws w1 of
                        (Inl r, ws2, w2) \<Rightarrow> Some (r, prev, ws2, w2)
                      | (Inr (prev', off', shipped'), ws2, w2) \<Rightarrow>
                          if lastWave then Some ((shipped', None), prev', ws2, w2)
                          else parallel_loop wk file pfx off' prev' shipped' ws2 w2))))"

definition parallelDrain ::
    "'w worker \<Rightarrow> file_meta \<Rightarrow> checkpoint \<Rightarrow> wst \<Rightarrow> 'w
       \<Rightarrow> ((nat \<times> go_err option) \<times> checkpoint \<times> wst \<times> 'w) option" where
  "parallelDrain wk file prev ws w =
     (case OffsetMarker (ckMarker prev) of
        None \<Rightarrow> Some ((0, None), prev, ws, w)
      | Some (pfx, off) \<Rightarrow> parallel_loop wk file pfx off prev 0 ws w)"

section \<open>The local variables of a drain\<close>

record drain =
  dnPrev :: checkpoint
  dnBefore :: checkpoint
  dnMarker :: string
  dnShipped :: nat
  dnPending :: "logrecord list"
  dnPendingBytes :: int
  dnLastStart :: string
  dnLastStartSkip :: bool
  dnSkipLeading :: bool
  dnDedupe :: bool
  dnDropFirst :: bool
  dnConsumed :: "u64 \<Rightarrow> nat"
  dnDedupeUntil :: int
  dnRestarted :: bool
  dnRestartGen :: int

section \<open>Where a drain starts\<close>

text \<open>A file with no checkpoint that starts at its end: skip, checkpoint, ship nothing.\<close>

definition drain_skip ::
    "'w worker \<Rightarrow> file_meta \<Rightarrow> wst \<Rightarrow> 'w \<Rightarrow> ((nat \<times> go_err option) \<times> wst \<times> 'w) option" where
  "drain_skip wk file ws w =
     (case SkipToEnd (wkFetcher wk) (fmName file) (anchorSize ws file) w of
        None \<Rightarrow> None
      | Some (Inl e, w1) \<Rightarrow> Some ((0, Some (Wrapped ''skip to end'' e)), ws, w1)
      | Some (Inr tail, w1) \<Rightarrow>
          (case set_ckpt wk (fmName file)
                  \<lparr>ckMarker = tail, ckBytesWritten = 0, ckFileSize = fmSize file,
                   ckLastWritten = LastWritten file, ckSkip = False\<rparr> ws w1 of
             (Some e, ws1, w2) \<Rightarrow> Some ((0, Some (Wrapped ''state set tail'' e)), ws1, w2)
           | (None, ws1, w2) \<Rightarrow> Some ((0, None), ws1, w2)))"

text \<open>Whether the file has to be re-verified after a restart.\<close>

definition restart_check :: "file_meta \<Rightarrow> wst \<Rightarrow> (bool \<times> time \<times> int) \<times> wst" where
  "restart_check file ws =
     (case pendingRestart ws (fmName file) of
        (restarted, tm, gen) \<Rightarrow>
          if restarted \<and> \<not> is_zero_time (LastWritten file)
             \<and> LastWritten file < tm - restartMargin
          then ((False, tm, gen), markRestartHandled (fmName file) gen ws)
          else ((restarted, tm, gen), ws))"

definition file_shrank :: "file_meta \<Rightarrow> checkpoint \<Rightarrow> bool" where
  "file_shrank file prev =
     (fmSize file < ckFileSize prev \<and> \<not> markerStillValid (ckMarker prev) (fmSize file))"

text \<open>The marker a re-read starts from.\<close>

definition rewind_from :: "wst \<Rightarrow> file_meta \<Rightarrow> checkpoint \<Rightarrow> bool \<Rightarrow> time \<Rightarrow> string" where
  "rewind_from ws file prev restarted tm =
     (if restarted then
        (case markBefore ws (fmName file) (tm - restartMargin) of
           Some m \<Rightarrow> if sameHourFile m (ckMarker prev) then m else ckMarker prev
         | None \<Rightarrow> ckMarker prev)
      else ckMarker prev)"

definition start_drain :: "checkpoint \<Rightarrow> drain" where
  "start_drain prev =
     \<lparr>dnPrev = prev, dnBefore = prev, dnMarker = ckMarker prev, dnShipped = 0, dnPending = [],
      dnPendingBytes = 0, dnLastStart = ckMarker prev, dnLastStartSkip = False,
      dnSkipLeading = ckSkip prev, dnDedupe = False, dnDropFirst = False, dnConsumed = (\<lambda>_. 0),
      dnDedupeUntil = -1, dnRestarted = False, dnRestartGen = 0\<rparr>"

definition drain_found :: "file_meta \<Rightarrow> checkpoint \<Rightarrow> wst \<Rightarrow> drain \<times> wst" where
  "drain_found file prev ws =
     (case restart_check file ws of
        ((restarted, tm, gen), ws1) \<Rightarrow>
          if file_shrank file prev \<or> restarted then
            (case rewindMarker (rewind_from ws1 file prev restarted tm) (fmSize file) of
               (start, dropFirst) \<Rightarrow>
                 ((start_drain (prev\<lparr>ckMarker := start, ckSkip := False\<rparr>))
                    \<lparr>dnDedupe := True, dnDropFirst := dropFirst,
                     dnDedupeUntil := (case OffsetMarker (ckMarker prev) of
                                         None \<Rightarrow> -1 | Some (_, off) \<Rightarrow> off),
                     dnRestarted := restarted, dnRestartGen := gen\<rparr>, ws1))
          else (start_drain prev, ws1))"

section \<open>Flush\<close>

definition commitRestart :: "file_meta \<Rightarrow> drain \<Rightarrow> wst \<Rightarrow> drain \<times> wst" where
  "commitRestart file dn ws =
     (if dnRestarted dn
      then (dn\<lparr>dnRestarted := False\<rparr>, markRestartHandled (fmName file) (dnRestartGen dn) ws)
      else (dn, ws))"

text \<open>The checkpoint, the records to write and the record held back.\<close>

definition flush_plan ::
    "drain \<Rightarrow> checkpoint \<Rightarrow> bool \<Rightarrow> checkpoint \<times> logrecord list \<times> logrecord list" where
  "flush_plan dn ckpt holdLast =
     (if holdLast \<and> dnPending dn \<noteq> []
      then (ckpt\<lparr>ckMarker := dnLastStart dn, ckSkip := dnLastStartSkip dn\<rparr>,
            butlast (dnPending dn), [last (dnPending dn)])
      else (ckpt, dnPending dn, []))"

definition flush_write ::
    "'w worker \<Rightarrow> file_meta \<Rightarrow> logrecord list \<Rightarrow> logrecord list \<Rightarrow> drain \<Rightarrow> wst \<Rightarrow> 'w
       \<Rightarrow> go_err option \<times> drain \<times> wst \<times> 'w" where
  "flush_write wk file pending carry dn ws w =
     (if pending = [] then (None, dn\<lparr>dnPending := carry\<rparr>, ws, w)
      else (case skWrite (wkSink wk) pending w of
              (Some e, w1) \<Rightarrow>
                (Some (Wrapped ''sink write'' e), dn\<lparr>dnPending := pending @ carry\<rparr>, ws, w1)
            | (None, w1) \<Rightarrow>
                (None,
                 dn\<lparr>dnPending := carry, dnShipped := dnShipped dn + length pending,
                    dnPendingBytes := 0\<rparr>,
                 rememberShipped (fmName file) pending
                   (if isErrorLog (fmName file)
                    then rememberErrors (enNow (wkEnv wk) w1) pending ws else ws),
                 w1)))"

definition flush ::
    "'w worker \<Rightarrow> file_meta \<Rightarrow> checkpoint \<Rightarrow> bool \<Rightarrow> drain \<Rightarrow> wst \<Rightarrow> 'w
       \<Rightarrow> go_err option \<times> drain \<times> wst \<times> 'w" where
  "flush wk file ckpt0 holdLast dn ws w =
     (case flush_plan dn ckpt0 holdLast of
        (ckpt, pending, carry) \<Rightarrow>
          (case flush_write wk file pending carry dn ws w of
             (Some e, dn1, ws1, w1) \<Rightarrow> (Some e, dn1, ws1, w1)
           | (None, dn1, ws1, w1) \<Rightarrow>
               if ckMarker ckpt = ckMarker (dnPrev dn1) \<and> carry \<noteq> [] then (None, dn1, ws1, w1)
               else (case set_ckpt wk (fmName file) ckpt ws1 w1 of
                       (Some e, ws2, w2) \<Rightarrow> (Some (Wrapped ''state set'' e), dn1, ws2, w2)
                     | (None, ws2, w2) \<Rightarrow>
                         (case commitRestart file dn1
                                 (recordMark (enNow (wkEnv wk) w2) (fmName file) (ckMarker ckpt) ws2) of
                            (dn2, ws3) \<Rightarrow> (None, dn2\<lparr>dnPrev := ckpt\<rparr>, ws3, w2)))))"

section \<open>One chunk\<close>

definition drop_first :: "bool \<Rightarrow> logrecord list \<Rightarrow> bool \<Rightarrow> logrecord list \<times> bool \<times> bool" where
  "drop_first dropFirst recs leading =
     (if dropFirst \<and> recs \<noteq> [] then (tl recs, False, False) else (recs, leading, dropFirst))"

definition dedupe_recs ::
    "wst \<Rightarrow> string \<Rightarrow> bool \<Rightarrow> (u64 \<Rightarrow> nat) \<Rightarrow> logrecord list \<Rightarrow> bool
       \<Rightarrow> logrecord list \<times> bool \<times> (u64 \<Rightarrow> nat)" where
  "dedupe_recs ws name dedupe consumed recs leading =
     (if \<not> dedupe then (recs, leading, consumed)
      else (case dropAlreadyShipped ws name recs consumed of
              (kept, consumed') \<Rightarrow>
                if length kept < length recs
                then (kept,
                      (if kept = [] \<or> lrMessage (hd kept) \<noteq> lrMessage (hd recs) then False
                       else leading),
                      consumed')
                else (recs, leading, consumed')))"

definition running_recs ::
    "time \<Rightarrow> string \<Rightarrow> logrecord list \<Rightarrow> bool \<Rightarrow> wst \<Rightarrow> (logrecord list \<times> bool) \<times> wst" where
  "running_recs now name recs leading ws =
     (if \<not> isErrorRunningLog name then ((recs, leading), ws)
      else (case dropShippedErrors now recs ws of
              ((kept, firstDropped), ws1) \<Rightarrow> ((kept, leading \<and> \<not> firstDropped), ws1)))"

text \<open>The leading continuation record: dropped, joined to the newest pending one, or kept.\<close>

definition join_leading ::
    "bool \<Rightarrow> bool \<Rightarrow> logrecord list \<Rightarrow> logrecord list
       \<Rightarrow> logrecord list \<times> logrecord list \<times> bool" where
  "join_leading leading skip pending recs =
     (if leading \<and> recs \<noteq> [] then
        (if skip \<and> pending = [] then (pending, tl recs, True)
         else if pending \<noteq> [] then
           (case JoinContinuation (last pending) (hd recs) of
              (joined, ok) \<Rightarrow>
                if ok then (butlast pending @ [joined], tl recs, True) else (pending, recs, False))
         else (pending, recs, False))
      else (pending, recs, False))"

text \<open>The body of the loop up to the flush decision.\<close>

definition absorb ::
    "time \<Rightarrow> file_meta \<Rightarrow> chunk \<Rightarrow> drain \<Rightarrow> wst \<Rightarrow> drain \<times> wst" where
  "absorb now file ch dn ws =
     (let ws0 = (if chTruncatedLines ch > 0 then anomaly ''truncated_line'' ws else ws);
          stamped = stamp (chNextMarker ch) (chBatchID ch) (chRecords ch);
          (recs1, leading1, dropFirst1) = drop_first (dnDropFirst dn) stamped (chLeading ch);
          (recs2, leading2, consumed2) =
            dedupe_recs ws0 (fmName file) (dnDedupe dn) (dnConsumed dn) recs1 leading1;
          ((recs3, leading3), ws1) = running_recs now (fmName file) recs2 leading2 ws0;
          (pending4, recs4, absorbed) =
            join_leading leading3 (dnSkipLeading dn) (dnPending dn) recs3;
          marker = chNextMarker ch
      in (dn\<lparr>dnMarker := marker,
             dnPending := pending4 @ recs4,
             dnPendingBytes := dnPendingBytes dn + chBytes ch,
             dnLastStart := (if recs4 \<noteq> [] then dnMarker dn else dnLastStart dn),
             dnLastStartSkip := (if recs4 \<noteq> [] then absorbed else dnLastStartSkip dn),
             dnSkipLeading := False,
             dnDropFirst := dropFirst1,
             dnConsumed := consumed2,
             dnDedupe := (dnDedupe dn \<and>
               \<not> (case OffsetMarker marker of
                    None \<Rightarrow> False
                  | Some (_, off) \<Rightarrow> dnDedupeUntil dn \<ge> 0 \<and> off \<ge> dnDedupeUntil dn))\<rparr>,
          noteServerStart recs4 ws1))"

definition chunk_ckpt :: "file_meta \<Rightarrow> chunk \<Rightarrow> drain \<Rightarrow> checkpoint" where
  "chunk_ckpt file ch dn =
     \<lparr>ckMarker = chNextMarker ch, ckBytesWritten = ckBytesWritten (dnPrev dn) + dnPendingBytes dn,
      ckFileSize = fmSize file, ckLastWritten = LastWritten file, ckSkip = False\<rparr>"

definition batch_full :: "'w worker \<Rightarrow> drain \<Rightarrow> bool" where
  "batch_full wk dn =
     ((wkMaxBatchBytes wk > 0 \<and> dnPendingBytes dn \<ge> wkMaxBatchBytes wk)
      \<or> (wkMaxBatchRecords wk > 0 \<and> int (length (dnPending dn)) \<ge> wkMaxBatchRecords wk)
      \<or> (wkMaxBatchBytes wk = 0 \<and> wkMaxBatchRecords wk = 0))"

section \<open>The loop\<close>

partial_function (option) drain_loop ::
    "'w worker \<Rightarrow> file_meta \<Rightarrow> drain \<Rightarrow> wst \<Rightarrow> 'w
       \<Rightarrow> ((nat \<times> go_err option) \<times> wst \<times> 'w) option" where
  "drain_loop wk file dn ws w =
     (case enCtx (wkEnv wk) w of
        Some e \<Rightarrow> Some ((dnShipped dn, Some e), ws, w)
      | None \<Rightarrow>
        (case PullPortion (wkFetcher wk) (fmName file) (dnMarker dn) w of
           (Inl e, w1) \<Rightarrow> Some ((dnShipped dn, Some (Wrapped ''pull'' e)), ws, w1)
         | (Inr ch, w1) \<Rightarrow>
           (case absorb (enNow (wkEnv wk) w1) file ch dn ws of
              (dn1, ws1) \<Rightarrow>
                if \<not> chPending ch then
                  (case flush wk file (chunk_ckpt file ch dn1) False dn1 ws1 w1 of
                     (err, dn2, ws2, w2) \<Rightarrow>
                       Some ((dnShipped dn2, err),
                             (if err = None
                              then noteProgress file (dnBefore dn2) (dnPrev dn2) (dnShipped dn2) ws2
                              else ws2), w2))
                else if batch_full wk dn1 then
                  (case flush wk file (chunk_ckpt file ch dn1) (GroupsMultiline (wkFetcher wk))
                          dn1 ws1 w1 of
                     (Some e, dn2, ws2, w2) \<Rightarrow> Some ((dnShipped dn2, Some e), ws2, w2)
                   | (None, dn2, ws2, w2) \<Rightarrow> drain_loop wk file dn2 ws2 w2)
                else drain_loop wk file dn1 ws1 w1)))"

section \<open>drainFile\<close>

definition wants_parallel :: "'w worker \<Rightarrow> file_meta \<Rightarrow> drain \<Rightarrow> bool" where
  "wants_parallel wk file dn =
     (wkParallelReads wk > 1 \<and> \<not> dnDedupe dn \<and> \<not> dnDropFirst dn \<and> \<not> dnSkipLeading dn
      \<and> \<not> isErrorLog (fmName file) \<and> \<not> isErrorRunningLog (fmName file))"

definition drain_run ::
    "'w worker \<Rightarrow> file_meta \<Rightarrow> drain \<Rightarrow> wst \<Rightarrow> 'w
       \<Rightarrow> ((nat \<times> go_err option) \<times> wst \<times> 'w) option" where
  "drain_run wk file dn ws w =
     (if wants_parallel wk file dn then
        (case parallelDrain wk file (dnPrev dn) ws w of
           None \<Rightarrow> None
         | Some ((n, Some e), _, ws1, w1) \<Rightarrow> Some ((n, Some e), ws1, w1)
         | Some ((n, None), prev, ws1, w1) \<Rightarrow>
             drain_loop wk file
               (dn\<lparr>dnPrev := prev, dnShipped := n, dnMarker := ckMarker prev,
                   dnLastStart := ckMarker prev\<rparr>) ws1 w1)
      else drain_loop wk file dn ws w)"

definition drainFile ::
    "'w worker \<Rightarrow> file_meta \<Rightarrow> wst \<Rightarrow> 'w \<Rightarrow> ((nat \<times> go_err option) \<times> wst \<times> 'w) option" where
  "drainFile wk file ws w =
     (case ssGet (wkStore wk) (wkInstance wk) (fmName file) w of
        (Inl e, w1) \<Rightarrow> Some ((0, Some (Wrapped ''state get'' e)), stateOp ''get'' ''error'' ws, w1)
      | (Inr found, w1) \<Rightarrow>
          let ws1 = stateOp ''get'' ''ok'' ws in
          (case found of
             None \<Rightarrow>
               if startFor wk ws1 file = StartFromEnd then drain_skip wk file ws1 w1
               else drain_run wk file
                      (start_drain (zero_ckpt\<lparr>ckMarker := MarkerBeginning,
                                             ckFileSize := fmSize file\<rparr>)) ws1 w1
           | Some prev \<Rightarrow>
               (case drain_found file prev ws1 of
                  (dn, ws2) \<Rightarrow> drain_run wk file dn ws2 w1)))"

end
