(* ===== verification/RecordProps.thy ===== *)
theory RecordProps
  imports Fetcher
begin

text \<open>
  What parseRecords makes of the text of a chunk: no line is lost, added or reordered, every
  record is bounded, and only the messages (not the clock) decide the grouping.  The
  messages-only view of the loop, msg_line, is what the drain theorems reason with.
\<close>

section \<open>The messages of the parsed records\<close>

fun msg_line ::
    "(string \<Rightarrow> meta) option \<Rightarrow> string list \<times> bool \<Rightarrow> string \<Rightarrow> string list \<times> bool" where
  "msg_line parser (out, leading) line =
     (if line = [] then (out, leading)
      else if \<not> starts_record parser line \<and> out \<noteq> []
              \<and> length (last out) + 1 + length line \<le> maxRecordBytes
      then (butlast out @ [last out @ nl # line], leading)
      else (out @ [line], leading \<or> (\<not> starts_record parser line \<and> out = [])))"

definition parse_msgs :: "(string \<Rightarrow> meta) option \<Rightarrow> string \<Rightarrow> string list \<times> bool" where
  "parse_msgs parser data = foldl (msg_line parser) ([], False) (split_byte nl data)"

lemma map_butlast_last: "map f (butlast xs) = butlast (map f xs)"
  by (simp add: map_butlast)

lemma parse_line_msgs:
  "parse_line f logFile now (out, ts, leading) line = (out', ts', leading') \<Longrightarrow>
     msg_line (ftParser f) (map lrMessage out, leading) line = (map lrMessage out', leading')"
  by (auto simp: append_line_def new_record_def Let_def map_butlast last_map split: if_splits)

lemma fold_parse_msgs:
  "foldl (parse_line f logFile now) (out, ts, leading) lines = (out', ts', leading') \<Longrightarrow>
     foldl (msg_line (ftParser f)) (map lrMessage out, leading) lines = (map lrMessage out', leading')"
proof (induction lines arbitrary: out ts leading)
  case (Cons l ls)
  obtain o1 t1 b1 where s: "parse_line f logFile now (out, ts, leading) l = (o1, t1, b1)"
    by (cases "parse_line f logFile now (out, ts, leading) l")
  have "foldl (parse_line f logFile now) (o1, t1, b1) ls = (out', ts', leading')"
    using Cons.prems unfolding foldl_Cons s .
  then show ?case using Cons.IH parse_line_msgs [OF s] unfolding foldl_Cons by simp
qed simp

lemma parseRecords_msgs:
  assumes "parseRecords f logFile data w = (recs, leading)"
  shows "parse_msgs (ftParser f) data = (map lrMessage recs, leading)"
proof (cases "data = []")
  case True
  then show ?thesis using assms by (simp add: parseRecords_def parse_msgs_def)
next
  case False
  obtain out ts l where fl: "foldl (parse_line f logFile (ftClock f w)) ([], time_zero, False)
      (split_byte nl data) = (out, ts, l)"
    by (cases "foldl (parse_line f logFile (ftClock f w)) ([], time_zero, False) (split_byte nl data)")
  then have "recs = out" "leading = l" using assms False by (simp_all add: parseRecords_def)
  then show ?thesis using fold_parse_msgs [OF fl] by (simp add: parse_msgs_def)
qed

section \<open>No line is lost\<close>

text \<open>The lines of a list of messages.\<close>

definition msg_lines :: "string list \<Rightarrow> string list" where
  "msg_lines ms = concat (map (split_byte nl) ms)"

lemma msg_lines_append: "msg_lines (xs @ ys) = msg_lines xs @ msg_lines ys"
  by (simp add: msg_lines_def)

lemma msg_line_lines:
  assumes "nl \<notin> set line"
  shows "msg_lines (fst (msg_line p (out, leading) line)) =
           msg_lines out @ (if line = [] then [] else [line])"
proof -
  have sp: "split_byte nl line = [line]" using assms by (rule split_byte_notin)
  have "out \<noteq> [] \<Longrightarrow> msg_lines (butlast out @ [last out @ nl # line]) = msg_lines out @ [line]"
    using append_butlast_last_id [of out] msg_lines_append [of "butlast out" "[last out]"]
    by (simp add: msg_lines_def split_byte_append sp)
  then show ?thesis by (simp add: msg_lines_append) (simp add: msg_lines_def sp)
qed

lemma fold_msg_lines:
  "\<forall>l \<in> set ls. nl \<notin> set l \<Longrightarrow>
     msg_lines (fst (foldl (msg_line p) s ls)) = msg_lines (fst s) @ filter (\<lambda>l. l \<noteq> []) ls"
proof (induction ls arbitrary: s)
  case (Cons l ls)
  show ?case
    using Cons msg_line_lines [of l p "fst s" "snd s"] by simp
qed simp

lemma parse_msgs_lines:
  "msg_lines (fst (parse_msgs p data)) = filter (\<lambda>l. l \<noteq> []) (split_byte nl data)"
  using fold_msg_lines [of "split_byte nl data" p "([], False)"] split_byte_parts
  by (auto simp: parse_msgs_def msg_lines_def)

section \<open>Sizes and flags\<close>

lemma msg_line_bound:
  assumes "\<forall>m \<in> set out. length m \<le> max maxRecordBytes k" "length line \<le> k"
  shows "\<forall>m \<in> set (fst (msg_line p (out, leading) line)). length m \<le> max maxRecordBytes k"
  using assms by (auto dest: in_set_butlastD)

lemma fold_msg_bound:
  "\<forall>l \<in> set ls. length l \<le> k \<Longrightarrow> \<forall>m \<in> set (fst s). length m \<le> max maxRecordBytes k \<Longrightarrow>
     \<forall>m \<in> set (fst (foldl (msg_line p) s ls)). length m \<le> max maxRecordBytes k"
proof (induction ls arbitrary: s)
  case (Cons l ls)
  show ?case
    using Cons msg_line_bound [of "fst s" k l p "snd s"] by simp
qed simp

lemma fold_msg_no_parser:
  "\<not> snd s \<Longrightarrow> \<not> snd (foldl (msg_line None) s ls)"
proof (induction ls arbitrary: s)
  case (Cons l ls)
  then show ?case by (cases s) (simp add: starts_record_def)
qed simp

lemma parse_msgs_no_parser: "snd (parse_msgs None data) = False"
  using fold_msg_no_parser [of "([], False)"] by (simp add: parse_msgs_def)

text \<open>A leading continuation implies a record.\<close>

lemma fold_msg_leading:
  "(snd s \<longrightarrow> fst s \<noteq> []) \<Longrightarrow> snd (foldl (msg_line p) s ls) \<Longrightarrow> fst (foldl (msg_line p) s ls) \<noteq> []"
proof (induction ls arbitrary: s)
  case (Cons l ls)
  have "snd (msg_line p s l) \<longrightarrow> fst (msg_line p s l) \<noteq> []"
    using Cons.prems(1) by (cases s) auto
  then show ?case using Cons by simp
qed simp

lemma parse_msgs_leading: "snd (parse_msgs p data) \<Longrightarrow> fst (parse_msgs p data) \<noteq> []"
  unfolding parse_msgs_def by (rule fold_msg_leading) simp_all

section \<open>Properties\<close>

text \<open>What every record of a file carries.\<close>

definition stamped :: "'w fetcher \<Rightarrow> string \<Rightarrow> logrecord \<Rightarrow> bool" where
  "stamped f logFile r = (lrInstanceID r = ftInstanceID f \<and> lrEngine r = ftEngine f
     \<and> lrLogFile r = logFile \<and> \<not> lrTruncated r)"

lemma parse_line_stamped:
  "list_all (stamped f logFile) out \<Longrightarrow>
     list_all (stamped f logFile) (fst (parse_line f logFile now (out, ts, l) line))"
  by (cases "out = []")
    (auto simp: append_line_def new_record_def stamped_def Let_def list_all_iff dest: in_set_butlastD)

lemma fold_parse_stamped:
  "list_all (stamped f logFile) (fst s) \<Longrightarrow>
     list_all (stamped f logFile) (fst (foldl (parse_line f logFile now) s lines))"
proof (induction lines arbitrary: s)
  case (Cons line lines)
  obtain out ts l where s: "s = (out, ts, l)" by (cases s)
  show ?case using Cons.IH [of "parse_line f logFile now s line"] Cons.prems
      parse_line_stamped [of f logFile out now ts l line] s by simp
qed simp

text \<open>C27. Parsing a chunk loses, adds and reorders no line: the messages of the records, split into
  lines, are the non-empty lines of the text in order; each record carries the instance, the
  engine and the file; and no message is longer than the cap, except a single line that is.\<close>

theorem parseRecords_lossless:
  assumes "parseRecords f logFile data w = (recs, leading)"
    and "\<forall>l \<in> set (split_byte nl data). length l \<le> k"
  shows "msg_lines (map lrMessage recs) = filter (\<lambda>l. l \<noteq> []) (split_byte nl data)
    \<and> (\<forall>r \<in> set recs. stamped f logFile r \<and> length (lrMessage r) \<le> max maxRecordBytes k)"
proof -
  have m: "parse_msgs (ftParser f) data = (map lrMessage recs, leading)"
    by (rule parseRecords_msgs [OF assms(1)])
  have "\<forall>x \<in> set (map lrMessage recs). length x \<le> max maxRecordBytes k"
    using fold_msg_bound [OF assms(2), of "([], False)" "ftParser f"] m by (simp add: parse_msgs_def)
  moreover have "list_all (stamped f logFile) recs"
    using assms(1) fold_parse_stamped [of f logFile "([], time_zero, False)" "ftClock f w" "split_byte nl data"]
    by (auto simp: parseRecords_def split: if_splits prod.splits)
  ultimately show ?thesis using parse_msgs_lines [of "ftParser f" data] m by (auto simp: list_all_iff)
qed

theorem parseRecords_lossless_witness:
  "\<forall>f w. msg_lines (map lrMessage (fst (parseRecords f ''a.log'' (''x'' @ [nl] @ ''y'') w))) = [''x'', ''y'']"
proof (intro allI)
  fix f and w :: "'w"
  obtain recs leading where p: "parseRecords f ''a.log'' (''x'' @ [nl] @ ''y'') w = (recs, leading)"
    by (cases "parseRecords f ''a.log'' (''x'' @ [nl] @ ''y'') w")
  have s: "split_byte nl (''x'' @ [nl] @ ''y'') = [''x'', ''y'']" by simp
  show "msg_lines (map lrMessage (fst (parseRecords f ''a.log'' (''x'' @ [nl] @ ''y'') w))) = [''x'', ''y'']"
    using parseRecords_lossless [OF p, unfolded s, of 1] p by simp
qed

end
