(* ===== verification/ShipStream.thy ===== *)
theory ShipStream
  imports Drain RecordProps
begin

text \<open>
  The specification a drain is measured against: the stream of messages a log file owes from
  a marker on.  It glues the chunks in order and knows nothing of batches, flushes or
  checkpoints.
\<close>

section \<open>Chunks as messages\<close>

record cdata =
  cdMsgs :: "string list"
  cdLeading :: bool
  cdNext :: string
  cdPending :: bool

definition chunk_data :: "(string \<Rightarrow> meta) option \<Rightarrow> raw_portion \<Rightarrow> cdata" where
  "chunk_data parser raw =
     \<lparr>cdMsgs = fst (parse_msgs parser (rpData raw)), cdLeading = snd (parse_msgs parser (rpData raw)),
      cdNext = rpNext raw, cdPending = rpPending raw\<rparr>"

text \<open>The chunk at a marker of a file whose portions are R; the empty marker is the start.\<close>

definition chunk_at ::
    "(string \<Rightarrow> meta) option \<Rightarrow> (string \<Rightarrow> raw_portion) \<Rightarrow> string \<Rightarrow> cdata" where
  "chunk_at parser R m = chunk_data parser (R (if m = [] then MarkerBeginning else m))"

fun chain :: "(string \<Rightarrow> cdata) \<Rightarrow> string \<Rightarrow> cdata list \<Rightarrow> bool" where
  "chain P m [] = False"
| "chain P m (c # cs) =
     (c = P m \<and> (if cs = [] then \<not> cdPending c else cdPending c \<and> chain P (cdNext c) cs))"

lemma chain_unique: "chain P m cs \<Longrightarrow> chain P m cs' \<Longrightarrow> cs = cs'"
proof (induction cs arbitrary: m cs')
  case (Cons c cs)
  then obtain d ds where d: "cs' = d # ds" by (cases cs') auto
  have c: "c = P m" "d = P m" using Cons.prems d by simp_all
  show ?case
  proof (cases "cdPending (P m)")
    case True
    then have "chain P (cdNext (P m)) cs" "chain P (cdNext (P m)) ds"
      using Cons.prems c d by (simp_all split: if_splits)
    then show ?thesis using Cons.IH c d by simp
  next
    case False
    then show ?thesis using Cons.prems c d by (simp split: if_splits)
  qed
qed simp

lemma chain_hd: "chain P m (c # cs) \<Longrightarrow> c = P m"
  by simp

lemma chain_tl: "chain P m (c # cs) \<Longrightarrow> cs \<noteq> [] \<Longrightarrow> chain P (cdNext c) cs"
  by (metis chain.simps(2))

lemma chain_pending: "chain P m (c # cs) \<Longrightarrow> cdPending c \<longleftrightarrow> cs \<noteq> []"
  by (metis chain.simps(2))

lemma chain_range: "chain P m cs \<Longrightarrow> \<forall>c \<in> set cs. \<exists>m. c = P m"
proof (induction cs arbitrary: m)
  case (Cons c cs)
  then have "cs \<noteq> [] \<Longrightarrow> \<forall>c \<in> set cs. \<exists>m. c = P m" using chain_tl by blast
  then show ?case using chain_hd [OF Cons.prems] by (cases "cs = []") auto
qed simp

declare chain.simps(2) [simp del]

section \<open>Gluing chunks\<close>

definition can_join :: "string \<Rightarrow> string \<Rightarrow> bool" where
  "can_join a b = (length a + 1 + length b \<le> maxRecordBytes)"

definition glue :: "bool \<Rightarrow> string list \<Rightarrow> cdata \<Rightarrow> string list" where
  "glue skip acc c =
     (if cdLeading c \<and> cdMsgs c \<noteq> [] then
        (if skip \<and> acc = [] then tl (cdMsgs c)
         else if acc \<noteq> [] \<and> can_join (last acc) (hd (cdMsgs c))
         then butlast acc @ [last acc @ nl # hd (cdMsgs c)] @ tl (cdMsgs c)
         else acc @ cdMsgs c)
      else acc @ cdMsgs c)"

fun stream :: "bool \<Rightarrow> string list \<Rightarrow> cdata list \<Rightarrow> string list" where
  "stream skip acc [] = acc"
| "stream skip acc (c # cs) = stream False (glue skip acc c) cs"

lemma glue_append:
  assumes "acc \<noteq> []"
  shows "glue False (pre @ acc) c = pre @ glue False acc c"
  using assms by (simp add: glue_def butlast_append)

lemma glue_nonempty: "acc \<noteq> [] \<Longrightarrow> glue False acc c \<noteq> []"
  by (simp add: glue_def)

lemma stream_append: "acc \<noteq> [] \<Longrightarrow> stream False (pre @ acc) cs = pre @ stream False acc cs"
proof (induction cs arbitrary: acc)
  case (Cons c cs)
  then show ?case using Cons.IH [of "glue False acc c"] by (simp add: glue_append glue_nonempty)
qed simp

text \<open>All but the newest message are final once a chunk is glued.\<close>

lemma glue_prefix: "prefix (butlast acc) (glue False acc c)"
  using prefixeq_butlast [of acc] by (auto simp: glue_def intro: prefix_order.trans)

lemma glue_keeps_butlast: "acc \<noteq> [] \<Longrightarrow> prefix (butlast acc) (butlast (glue False acc c))"
  by (cases "cdMsgs c")
    (auto simp: glue_def butlast_append prefixeq_butlast intro: prefix_order.trans)

lemma stream_prefix: "prefix (butlast acc) (stream False acc cs)"
proof (induction cs arbitrary: acc)
  case Nil
  then show ?case by (simp add: prefixeq_butlast)
next
  case (Cons c cs)
  show ?case
  proof (cases "acc = []")
    case False
    from Cons [of "glue False acc c"] glue_keeps_butlast [OF False, of c]
    show ?thesis by (auto intro: prefix_order.trans)
  qed simp
qed

section \<open>What a checkpoint owes\<close>

definition owed :: "(string \<Rightarrow> cdata) \<Rightarrow> string \<Rightarrow> bool \<Rightarrow> string list \<Rightarrow> bool" where
  "owed P m skip out = (\<exists>cs. chain P m cs \<and> out = stream skip [] cs)"

text \<open>
  A checkpoint covers what was shipped: the full stream is a part already shipped followed
  by all that the checkpoint still owes.
\<close>

definition covers ::
    "(string \<Rightarrow> cdata) \<Rightarrow> string list \<Rightarrow> string \<Rightarrow> string \<Rightarrow> bool \<Rightarrow> string list \<Rightarrow> bool" where
  "covers P full stop m skip shipped =
     (\<exists>pre rest. full = pre @ rest \<and> prefix pre shipped
        \<and> (owed P m skip rest \<or> (m = stop \<and> \<not> skip \<and> rest = [])))"

lemma covers_more: "covers P full stop m skip s \<Longrightarrow> prefix s s' \<Longrightarrow> covers P full stop m skip s'"
  unfolding covers_def by (blast intro: prefix_order.trans)

lemma owed_unique: "owed P m skip a \<Longrightarrow> owed P m skip b \<Longrightarrow> a = b"
  unfolding owed_def using chain_unique by blast

text \<open>What a drain to the end ships after a checkpoint that covers what was shipped before.\<close>

lemma covers_resume:
  assumes "covers P full stop m skip s1" "chain P m cs"
  shows "\<exists>pre rest. full = pre @ rest \<and> prefix pre s1 \<and> (rest = stream skip [] cs \<or> rest = [])"
proof -
  obtain pre rest where c: "full = pre @ rest" "prefix pre s1" "owed P m skip rest \<or> rest = []"
    using assms(1) unfolding covers_def by blast
  have "owed P m skip (stream skip [] cs)" using assms(2) unfolding owed_def by blast
  then have "rest = stream skip [] cs \<or> rest = []" using c(3) owed_unique by blast
  then show ?thesis using c(1,2) by blast
qed

lemma covers_resume_set:
  assumes "covers P full stop m skip s1" "chain P m cs"
  shows "set full \<subseteq> set s1 \<union> set (stream skip [] cs)"
  using covers_resume [OF assms] set_mono_prefix by fastforce

end
