(* ===== verification/DrainProps.thy ===== *)
theory DrainProps
  imports ShipStream
begin

text \<open>
  The at-least-once contract of drainFile: whatever fails and wherever a flush falls, the
  messages shipped by a drain are a prefix of the stream the file owes, and the durable
  checkpoint owes everything that was not shipped.
\<close>

section \<open>The world of a drain\<close>

text \<open>
  The interface a drain is proved against.  acked is what the sink has acknowledged so far,
  view the durable checkpoint of the file.  The file serves the portion R m at each marker m
  (a read may also fail); a read, a refused write and a failed Set leave what was acked
  alone; a failed Set leaves the old or the new checkpoint.
\<close>

locale drain_world =
  fixes wk :: "'w worker" and name :: string and R :: "string \<Rightarrow> raw_portion"
    and acked :: "'w \<Rightarrow> logrecord list" and view :: "'w \<Rightarrow> checkpoint option"
  assumes name_nonempty: "name \<noteq> []"
    and pull_serves: "pullRaw (wkFetcher wk) name m w = (Inr raw, w') \<Longrightarrow> raw = R m"
    and pull_frame: "pullRaw (wkFetcher wk) name m w = (r, w') \<Longrightarrow>
          acked w' = acked w \<and> view w' = view w"
    and write_ok: "skWrite (wkSink wk) rs w = (None, w') \<Longrightarrow>
          acked w' = acked w @ rs \<and> view w' = view w"
    and write_err: "skWrite (wkSink wk) rs w = (Some e, w') \<Longrightarrow>
          acked w' = acked w \<and> view w' = view w"
    and store_ok: "ssSet (wkStore wk) (wkInstance wk) name c w = (None, w') \<Longrightarrow>
          acked w' = acked w
          \<and> (\<exists>c'. view w' = Some c' \<and> ckMarker c' = ckMarker c \<and> ckSkip c' = ckSkip c)"
    and store_err: "ssSet (wkStore wk) (wkInstance wk) name c w = (Some e, w') \<Longrightarrow>
          acked w' = acked w
          \<and> (view w' = view w
             \<or> (\<exists>c'. view w' = Some c' \<and> ckMarker c' = ckMarker c \<and> ckSkip c' = ckSkip c))"

text \<open>Where the next drain of a file resumes: its checkpoint, or the beginning.\<close>

definition resume_at :: "checkpoint option \<Rightarrow> string \<times> bool" where
  "resume_at c = (case c of None \<Rightarrow> (MarkerBeginning, False) | Some c \<Rightarrow> (ckMarker c, ckSkip c))"

lemma resume_at_Some [simp]: "resume_at (Some c) = (ckMarker c, ckSkip c)"
  by (simp add: resume_at_def)

abbreviation covers_at ::
    "(string \<Rightarrow> cdata) \<Rightarrow> string list \<Rightarrow> string \<Rightarrow> checkpoint option \<Rightarrow> string list \<Rightarrow> bool" where
  "covers_at P full stop c shipped \<equiv>
     covers P full stop (fst (resume_at c)) (snd (resume_at c)) shipped"

section \<open>One chunk\<close>

lemma join_leading_glue:
  assumes j: "join_leading leading skip pending recs = (p', r', absorbed)"
    and c: "cdMsgs c = map lrMessage recs" "cdLeading c = leading"
    and acc: "leading \<Longrightarrow> pending = [] \<Longrightarrow> S = []"
  shows "S @ map lrMessage (p' @ r') = glue skip (S @ map lrMessage pending) c"
proof (cases "leading \<and> recs \<noteq> []")
  case False
  then show ?thesis using j c by (auto simp: join_leading_def glue_def)
next
  case True
  note lead = True
  show ?thesis
  proof (cases "pending = []")
    case True
    then have "S = []" using acc lead by simp
    then show ?thesis using j c lead True
      by (cases skip) (auto simp: join_leading_def glue_def map_tl)
  next
    case False
    have ls: "last (S @ map lrMessage pending) = lrMessage (last pending)"
      using False by (simp add: last_map)
    have hd: "hd (cdMsgs c) = lrMessage (hd recs)" using c lead by (simp add: hd_map)
    have cj: "snd (JoinContinuation (last pending) (hd recs)) \<longleftrightarrow>
        can_join (last (S @ map lrMessage pending)) (hd (cdMsgs c))"
      unfolding ls hd by (simp add: JoinContinuation_def can_join_def)
    show ?thesis
    proof (cases "snd (JoinContinuation (last pending) (hd recs))")
      case True
      have jm: "lrMessage (fst (JoinContinuation (last pending) (hd recs))) =
          lrMessage (last pending) @ nl # lrMessage (hd recs)"
        using True by (simp add: JoinContinuation_def split: if_splits)
      have pr: "p' = butlast pending @ [fst (JoinContinuation (last pending) (hd recs))]"
          "r' = tl recs"
        using j True lead False by (auto simp: join_leading_def split: prod.splits)
      show ?thesis
        using True lead False cj c
        by (simp add: pr glue_def jm ls [simplified] butlast_append map_butlast map_tl hd_map)
    next
      case False
      have "p' = pending" "r' = recs"
        using j False lead \<open>pending \<noteq> []\<close> by (auto simp: join_leading_def split: prod.splits)
      then show ?thesis
        using False lead \<open>pending \<noteq> []\<close> cj c by (simp add: glue_def)
    qed
  qed
qed

lemma join_leading_shape:
  assumes "join_leading leading skip pending recs = (p', r', absorbed)"
  shows "p' = [] \<longleftrightarrow> pending = []" "absorbed \<Longrightarrow> leading \<and> recs \<noteq> [] \<and> r' = tl recs"
    "\<not> absorbed \<Longrightarrow> r' = recs \<and> p' = pending"
  using assms by (auto simp: join_leading_def split: if_splits prod.splits)

text \<open>With no de-duplication, absorb is join_leading on the stamped records.\<close>

lemma absorb_plain:
  assumes "\<not> dnDedupe dn" "\<not> dnDropFirst dn" "\<not> isErrorRunningLog (fmName file)"
    and "absorb now file ch dn ws = (dn1, ws1)"
  obtains p' r' absorbed where
    "join_leading (chLeading ch) (dnSkipLeading dn) (dnPending dn)
       (stamp (chNextMarker ch) (chBatchID ch) (chRecords ch)) = (p', r', absorbed)"
    "dn1 = dn\<lparr>dnMarker := chNextMarker ch, dnPending := p' @ r',
              dnPendingBytes := dnPendingBytes dn + chBytes ch,
              dnLastStart := (if r' \<noteq> [] then dnMarker dn else dnLastStart dn),
              dnLastStartSkip := (if r' \<noteq> [] then absorbed else dnLastStartSkip dn),
              dnSkipLeading := False, dnDropFirst := False, dnDedupe := False\<rparr>"
proof -
  obtain p' r' absorbed where j: "join_leading (chLeading ch) (dnSkipLeading dn) (dnPending dn)
       (stamp (chNextMarker ch) (chBatchID ch) (chRecords ch)) = (p', r', absorbed)"
    by (cases "join_leading (chLeading ch) (dnSkipLeading dn) (dnPending dn)
       (stamp (chNextMarker ch) (chBatchID ch) (chRecords ch))") auto
  show thesis
    by (rule that [OF j])
      (use assms j in \<open>simp add: absorb_def drop_first_def dedupe_recs_def running_recs_def Let_def
        prod_eq_iff\<close>)
qed

lemma stamp_msgs [simp]: "map lrMessage (stamp m b rs) = map lrMessage rs"
  by (simp add: stamp_def comp_def)

lemma stamp_Nil [simp]: "stamp m b rs = [] \<longleftrightarrow> rs = []"
  by (simp add: stamp_def)

text \<open>The chunk PullPortion returns is the chunk of the portion it pulled.\<close>

lemma PullPortion_chunk:
  assumes "PullPortion f name marker w = (Inr ch, w')"
  obtains raw where "pullRaw f name (if marker = [] then MarkerBeginning else marker) w = (Inr raw, w')"
    "map lrMessage (chRecords ch) = cdMsgs (chunk_data (ftParser f) raw)"
    "chLeading ch = cdLeading (chunk_data (ftParser f) raw)"
    "chNextMarker ch = cdNext (chunk_data (ftParser f) raw)"
    "chPending ch = cdPending (chunk_data (ftParser f) raw)"
proof -
  have ne: "name \<noteq> []" using assms by (auto simp: PullPortion_def)
  then obtain raw where raw: "pullRaw f name (if marker = [] then MarkerBeginning else marker) w
      = (Inr raw, w')"
    using assms by (auto simp: PullPortion_def split: prod.splits sum.splits)
  obtain recs leading where pr: "parseRecords f name (rpData raw) w' = (recs, leading)"
    by (cases "parseRecords f name (rpData raw) w'")
  have trunc: "map lrMessage (mark_last_truncated recs) = map lrMessage recs"
    using append_butlast_last_id [of recs]
    by (auto simp: mark_last_truncated_def simp flip: map_butlast)
      (metis last_map list.map_disc_iff map_append map_butlast append_butlast_last_id)
  show thesis
    by (rule that [OF raw])
      (use assms ne raw pr trunc parseRecords_msgs [OF pr] in
        \<open>auto simp: PullPortion_def chunk_data_def split: if_splits\<close>)
qed

lemma chunk_data_no_parser: "cdLeading (chunk_data None raw) = False"
  by (simp add: chunk_data_def parse_msgs_no_parser)

lemma stream_no_leading:
  "\<forall>c \<in> set cs. \<not> cdLeading c \<Longrightarrow> stream False acc cs = acc @ stream False [] cs"
proof (induction cs arbitrary: acc)
  case (Cons c cs)
  then have g: "glue False a c = a @ cdMsgs c" for a by (simp add: glue_def)
  have "stream False acc (c # cs) = (acc @ cdMsgs c) @ stream False [] cs"
    using Cons.IH [of "acc @ cdMsgs c"] Cons.prems g by simp
  also have "\<dots> = acc @ stream False [] (c # cs)"
    using Cons.IH [of "cdMsgs c"] Cons.prems g [of "[]"] by simp
  finally show ?case .
qed simp

section \<open>A flush\<close>

context drain_world
begin

definition ckpt_written :: "'w \<Rightarrow> checkpoint \<Rightarrow> bool" where
  "ckpt_written w c = (resume_at (view w) = (ckMarker c, ckSkip c))"

lemma set_ckpt_cases:
  assumes "set_ckpt wk name c ws w = (err, ws', w')"
  shows "acked w' = acked w" "err = None \<Longrightarrow> ckpt_written w' c"
    "resume_at (view w') = resume_at (view w) \<or> ckpt_written w' c"
proof -
  obtain r where r: "ssSet (wkStore wk) (wkInstance wk) name c w = (r, w')" "r = err"
    using assms by (auto simp: set_ckpt_def split: prod.splits option.splits)
  show "acked w' = acked w" using r store_ok store_err by (cases err) blast+
  show "err = None \<Longrightarrow> ckpt_written w' c"
    using r store_ok [of c w w'] by (auto simp: ckpt_written_def)
  show "resume_at (view w') = resume_at (view w) \<or> ckpt_written w' c"
    using r store_ok [of c w w'] store_err [of c w _ w']
    by (cases err) (auto simp: ckpt_written_def)
qed

lemma flush_cases:
  assumes fnm: "fmName file = name"
    and plan: "flush_plan dn ckpt0 hold = (ckpt, batch, carry)"
    and fl: "flush wk file ckpt0 hold dn ws w = (err, dn2, ws2, w2)"
  shows
    "(err \<noteq> None \<and> acked w2 = acked w \<and> resume_at (view w2) = resume_at (view w)
        \<and> dnShipped dn2 = dnShipped dn)
     \<or> (acked w2 = acked w @ batch \<and> dnShipped dn2 = dnShipped dn + length batch
        \<and> (resume_at (view w2) = resume_at (view w) \<or> ckpt_written w2 ckpt)
        \<and> (err = None \<longrightarrow> (carry = [] \<longrightarrow> ckpt_written w2 ckpt)
              \<and> dnPending dn2 = carry \<and> dnMarker dn2 = dnMarker dn
              \<and> dnLastStart dn2 = dnLastStart dn \<and> dnLastStartSkip dn2 = dnLastStartSkip dn
              \<and> dnSkipLeading dn2 = dnSkipLeading dn \<and> dnDedupe dn2 = dnDedupe dn
              \<and> dnDropFirst dn2 = dnDropFirst dn))"
proof (cases "flush_write wk file batch carry dn ws w")
  case (fields werr dn1 ws1 w1)
  note fw = this
  show ?thesis
  proof (cases werr)
    case (Some e)
    then have "err = Some e" "dn2 = dn1" "w2 = w1"
      using fl plan fw by (simp_all add: flush_def)
    moreover obtain e' where "skWrite (wkSink wk) batch w = (Some e', w1)"
        "dn1 = dn\<lparr>dnPending := batch @ carry\<rparr>"
      using fw Some by (auto simp: flush_write_def split: if_splits prod.splits option.splits)
    ultimately show ?thesis using write_err [of batch w e' w1] by simp
  next
    case None
    have w1: "acked w1 = acked w @ batch" "view w1 = view w"
      using fw None write_ok [of batch w w1]
      by (auto simp: flush_write_def split: if_splits prod.splits option.splits)
    have d1: "dnShipped dn1 = dnShipped dn + length batch" "dnPending dn1 = carry"
        "dnMarker dn1 = dnMarker dn" "dnLastStart dn1 = dnLastStart dn"
        "dnLastStartSkip dn1 = dnLastStartSkip dn" "dnSkipLeading dn1 = dnSkipLeading dn"
        "dnDedupe dn1 = dnDedupe dn" "dnDropFirst dn1 = dnDropFirst dn"
      using fw None by (auto simp: flush_write_def split: if_splits prod.splits option.splits)
    show ?thesis
    proof (cases "ckMarker ckpt = ckMarker (dnPrev dn1) \<and> carry \<noteq> []")
      case True
      then have "err = None" "dn2 = dn1" "w2 = w1"
        using fl plan fw None by (simp_all add: flush_def)
      then show ?thesis using w1 d1 True by simp
    next
      case False
      obtain serr ws3 w3 where sc: "set_ckpt wk name ckpt ws1 w1 = (serr, ws3, w3)"
        by (cases "set_ckpt wk name ckpt ws1 w1")
      note sp = set_ckpt_cases [OF sc]
      show ?thesis
      proof (cases serr)
        case (Some e)
        then have "err \<noteq> None" "dn2 = dn1" "w2 = w3"
          using fl plan fw None False sc fnm by (auto simp: flush_def)
        then show ?thesis using w1 d1 sp by auto
      next
        case None
        have dn2: "dn2 = (fst (commitRestart file dn1 (recordMark (enNow (wkEnv wk) w3) name
              (ckMarker ckpt) ws3)))\<lparr>dnPrev := ckpt\<rparr>" "err = None" "w2 = w3"
          using fl plan fw \<open>werr = None\<close> False sc None fnm
          by (auto simp: flush_def split: prod.splits)
        then show ?thesis using w1 d1 sp None by (auto simp: commitRestart_def)
      qed
    qed
  qed
qed

section \<open>The invariant of the loop\<close>

definition P :: "string \<Rightarrow> cdata" where
  "P = chunk_at (ftParser (wkFetcher wk)) R"

text \<open>The marker of the newest pending record is a point to resume from.\<close>

definition hold_ok :: "string list \<Rightarrow> string list \<Rightarrow> drain \<Rightarrow> bool" where
  "hold_ok full acc dn =
     (\<exists>pre rest. full = pre @ rest \<and> prefix pre (butlast acc)
        \<and> owed P (dnLastStart dn) (dnLastStartSkip dn) rest)"

text \<open>What holds of the locals, after sent messages were shipped, with chunks cs to come.\<close>

definition plain_dn :: "string list \<Rightarrow> drain \<Rightarrow> bool" where
  "plain_dn sent dn =
     (\<not> dnDedupe dn \<and> \<not> dnDropFirst dn \<and> dnShipped dn = length sent
      \<and> (GroupsMultiline (wkFetcher wk) \<longrightarrow> dnPending dn = [] \<longrightarrow> sent = []))"

definition dn_inv :: "string list \<Rightarrow> string list \<Rightarrow> drain \<Rightarrow> cdata list \<Rightarrow> bool" where
  "dn_inv full sent dn cs =
     (let acc = sent @ map lrMessage (dnPending dn) in
      plain_dn sent dn \<and> chain P (dnMarker dn) cs \<and> full = stream (dnSkipLeading dn) acc cs
      \<and> (dnSkipLeading dn \<longrightarrow> acc = [])
      \<and> (dnPending dn \<noteq> [] \<longrightarrow> hold_ok full acc dn))"

text \<open>The same after a chunk was absorbed: cs may be empty and the marker is not read.\<close>

definition mid_inv :: "string list \<Rightarrow> string list \<Rightarrow> drain \<Rightarrow> cdata list \<Rightarrow> bool" where
  "mid_inv full sent dn cs =
     (let acc = sent @ map lrMessage (dnPending dn) in
      plain_dn sent dn \<and> \<not> dnSkipLeading dn \<and> full = stream False acc cs
      \<and> (dnPending dn \<noteq> [] \<longrightarrow> hold_ok full acc dn))"

lemma no_parser_no_leading:
  assumes "\<not> GroupsMultiline (wkFetcher wk)" "chain P m cs"
  shows "\<forall>c \<in> set cs. \<not> cdLeading c"
proof
  fix c assume "c \<in> set cs"
  then obtain m where "c = P m" using chain_range [OF assms(2)] by blast
  moreover have "ftParser (wkFetcher wk) = None"
    using assms(1) by (simp add: GroupsMultiline_def)
  ultimately show "\<not> cdLeading c" by (simp add: P_def chunk_at_def chunk_data_no_parser)
qed

lemma hold_ok_extend:
  assumes "hold_ok full acc dn" "prefix (butlast acc) (butlast acc')"
    and "dnLastStart dn' = dnLastStart dn" "dnLastStartSkip dn' = dnLastStartSkip dn"
  shows "hold_ok full acc' dn'"
proof -
  obtain pre rest where "full = pre @ rest" "prefix pre (butlast acc)"
      "owed P (dnLastStart dn) (dnLastStartSkip dn) rest"
    using assms(1) unfolding hold_ok_def by blast
  then show ?thesis unfolding hold_ok_def assms(3,4)
    using assms(2) prefix_order.trans [of pre "butlast acc" "butlast acc'"] by blast
qed

lemma absorb_inv:
  assumes inv: "dn_inv full sent dn (c # cs)"
    and run: "\<not> isErrorRunningLog (fmName file)"
    and ch: "map lrMessage (chRecords ch) = cdMsgs c" "chLeading ch = cdLeading c"
    and ab: "absorb now file ch dn ws = (dn1, ws1)"
  shows "mid_inv full sent dn1 cs" "dnMarker dn1 = chNextMarker ch"
proof -
  let ?acc = "sent @ map lrMessage (dnPending dn)"
  let ?acc1 = "sent @ map lrMessage (dnPending dn1)"
  let ?recs = "stamp (chNextMarker ch) (chBatchID ch) (chRecords ch)"
  note I = inv [unfolded dn_inv_def Let_def]
  from I have plain: "\<not> dnDedupe dn" "\<not> dnDropFirst dn" "dnShipped dn = length sent"
    by (simp_all add: plain_dn_def)
  obtain p' r' absorbed where
    j: "join_leading (chLeading ch) (dnSkipLeading dn) (dnPending dn) ?recs = (p', r', absorbed)" and
    d1: "dn1 = dn\<lparr>dnMarker := chNextMarker ch, dnPending := p' @ r',
              dnPendingBytes := dnPendingBytes dn + chBytes ch,
              dnLastStart := (if r' \<noteq> [] then dnMarker dn else dnLastStart dn),
              dnLastStartSkip := (if r' \<noteq> [] then absorbed else dnLastStartSkip dn),
              dnSkipLeading := False, dnDropFirst := False, dnDedupe := False\<rparr>"
    using absorb_plain [OF plain(1,2) run ab] by metis
  have pend: "dnPending dn1 = p' @ r'" by (simp add: d1)
  note sh = join_leading_shape [OF j]
  have multi: "chLeading ch \<Longrightarrow> GroupsMultiline (wkFetcher wk)"
    using no_parser_no_leading [of "dnMarker dn" "c # cs"] I ch(2) by force
  then have lead: "chLeading ch \<Longrightarrow> dnPending dn = [] \<Longrightarrow> sent = []"
    using I by (auto simp: plain_dn_def)
  have acc1: "?acc1 = glue (dnSkipLeading dn) ?acc c"
    unfolding pend by (rule join_leading_glue [OF j _ _ lead]) (simp_all add: ch)
  have full: "full = stream False ?acc1 cs" using I acc1 by simp
  have cP: "c = P (dnMarker dn)" and chainc: "chain P (dnMarker dn) (c # cs)"
    using I chain_hd by blast+
  have hold: "hold_ok full ?acc1 dn1" if "dnPending dn1 \<noteq> []"
  proof (cases "r' = []")
    case False
    let ?X = "map lrMessage r'"
    have X: "glue absorbed [] c = ?X"
    proof (cases absorbed)
      case True
      then show ?thesis using sh(2) ch by (auto simp: glue_def map_tl)
    next
      case False
      then show ?thesis using sh(3) ch by (auto simp: glue_def)
    qed
    have a1: "?acc1 = (sent @ map lrMessage p') @ ?X" by (simp add: pend)
    have "full = (sent @ map lrMessage p') @ stream False ?X cs"
      unfolding full a1 by (rule stream_append) (use False in simp)
    moreover have "owed P (dnLastStart dn1) (dnLastStartSkip dn1) (stream False ?X cs)"
      unfolding owed_def using chainc X False
      by (intro exI [of _ "c # cs"]) (simp add: d1)
    moreover have "prefix (sent @ map lrMessage p') (butlast ?acc1)"
      unfolding a1 using False by (simp add: butlast_append)
    ultimately show ?thesis unfolding hold_ok_def by blast
  next
    case True
    then have ne: "dnPending dn \<noteq> []" using that sh(1) by (simp add: pend)
    then have ns: "\<not> dnSkipLeading dn" using I by auto
    have "prefix (butlast ?acc) (butlast ?acc1)"
      unfolding acc1 using ns ne glue_keeps_butlast [of ?acc c] by simp
    moreover have "hold_ok full ?acc dn" using I ne by blast
    moreover have "dnLastStart dn1 = dnLastStart dn" "dnLastStartSkip dn1 = dnLastStartSkip dn"
      by (simp_all add: d1 True)
    ultimately show ?thesis using hold_ok_extend by blast
  qed
  have "GroupsMultiline (wkFetcher wk) \<Longrightarrow> dnPending dn1 = [] \<Longrightarrow> sent = []"
    using I sh(1) by (simp add: pend plain_dn_def)
  then have "plain_dn sent dn1" using plain by (simp add: plain_dn_def d1)
  moreover have "\<not> dnSkipLeading dn1" by (simp add: d1)
  ultimately show "mid_inv full sent dn1 cs"
    unfolding mid_inv_def Let_def using full hold by blast
  show "dnMarker dn1 = chNextMarker ch" by (simp add: d1)
qed

lemma mid_to_inv:
  assumes "mid_inv full sent dn cs" "chain P (dnMarker dn) cs"
  shows "dn_inv full sent dn cs"
proof -
  note I = assms(1) [unfolded mid_inv_def Let_def]
  have "dnSkipLeading dn = False" using I by blast
  then show ?thesis unfolding dn_inv_def Let_def using I assms(2) by metis
qed

text \<open>A flush in the middle of the pages keeps the invariant and the cover.\<close>

lemma mid_flush:
  assumes inv: "mid_inv full sent dn cs" and cs: "chain P (dnMarker dn) cs"
    and fnm: "fmName file = name"
    and ck: "ckMarker ckpt0 = dnMarker dn" "\<not> ckSkip ckpt0"
    and cov: "covers_at P full stop (view w) sent"
    and fl: "flush wk file ckpt0 (GroupsMultiline (wkFetcher wk)) dn ws w = (err, dn2, ws2, w2)"
  obtains batch where "acked w2 = acked w @ batch"
    "covers_at P full stop (view w2) (sent @ map lrMessage batch)"
    "prefix (sent @ map lrMessage batch) full"
    "dnShipped dn2 = length (sent @ map lrMessage batch)"
    "err = None \<Longrightarrow> dn_inv full (sent @ map lrMessage batch) dn2 cs"
proof -
  let ?multi = "GroupsMultiline (wkFetcher wk)"
  let ?acc = "sent @ map lrMessage (dnPending dn)"
  note I = inv [unfolded mid_inv_def Let_def]
  obtain ckpt batch carry where plan: "flush_plan dn ckpt0 ?multi = (ckpt, batch, carry)"
    by (cases "flush_plan dn ckpt0 ?multi")
  have pend: "dnPending dn = batch @ carry"
    using plan by (auto simp: flush_plan_def split: if_splits)
  let ?sent2 = "sent @ map lrMessage batch"
  have shp: "dnShipped dn = length sent" using I by (simp add: plain_dn_def)
  have cover: "covers P full stop (ckMarker ckpt) (ckSkip ckpt) ?sent2 \<and> prefix ?sent2 full"
  proof (cases "?multi \<and> dnPending dn \<noteq> []")
    case True
    then have c: "ckMarker ckpt = dnLastStart dn" "ckSkip ckpt = dnLastStartSkip dn"
        "batch = butlast (dnPending dn)"
      using plan by (auto simp: flush_plan_def)
    have bl: "butlast ?acc = ?sent2" using True by (simp add: c butlast_append map_butlast)
    have "hold_ok full ?acc dn" using I True by blast
    then have "covers P full stop (ckMarker ckpt) (ckSkip ckpt) ?sent2"
      unfolding hold_ok_def covers_def c(1,2) bl by blast
    moreover have "prefix ?sent2 full" using I stream_prefix bl by metis
    ultimately show ?thesis by blast
  next
    case False
    then have c: "ckpt = ckpt0" "batch = dnPending dn" using plan by (auto simp: flush_plan_def)
    have "full = ?acc @ stream False [] cs"
    proof (cases ?multi)
      case True
      then have "?acc = []" using False I by (simp add: plain_dn_def)
      then show ?thesis using I by simp
    next
      case False
      have "full = stream False ?acc cs" using I by blast
      also have "\<dots> = ?acc @ stream False [] cs"
        by (rule stream_no_leading) (rule no_parser_no_leading [OF False cs])
      finally show ?thesis .
    qed
    moreover have "owed P (ckMarker ckpt) (ckSkip ckpt) (stream False [] cs)"
      unfolding owed_def c(1) using cs ck by auto
    moreover have "prefix ?acc full" unfolding \<open>full = _\<close> by (rule prefixI [OF refl])
    ultimately show ?thesis unfolding covers_def c(2) by blast
  qed
  have keep: "covers_at P full stop (view w) ?sent2"
    using cov covers_more by (metis prefixI)
  have inv2: "dn_inv full ?sent2 dn2 cs"
    if "dnPending dn2 = carry" "dnMarker dn2 = dnMarker dn" "dnLastStart dn2 = dnLastStart dn"
      "dnLastStartSkip dn2 = dnLastStartSkip dn" "dnSkipLeading dn2 = dnSkipLeading dn"
      "dnDedupe dn2 = dnDedupe dn" "dnDropFirst dn2 = dnDropFirst dn"
      "dnShipped dn2 = dnShipped dn + length batch"
  proof -
    have acc2: "?sent2 @ map lrMessage (dnPending dn2) = ?acc" using that pend by simp
    have "?multi \<Longrightarrow> carry = [] \<Longrightarrow> ?sent2 = []"
      using plan I by (auto simp: flush_plan_def plain_dn_def split: if_splits)
    then have "plain_dn ?sent2 dn2" using I that shp by (simp add: plain_dn_def)
    moreover have "dnPending dn2 \<noteq> [] \<Longrightarrow> hold_ok full ?acc dn2"
    proof -
      assume "dnPending dn2 \<noteq> []"
      then have "dnPending dn \<noteq> []" using that(1) pend by simp
      then have "hold_ok full ?acc dn" using I by blast
      then show ?thesis by (simp add: hold_ok_def that)
    qed
    ultimately show ?thesis
      unfolding dn_inv_def Let_def acc2 using I cs that by simp
  qed
  from flush_cases [OF fnm plan fl]
  consider "err \<noteq> None" "acked w2 = acked w" "resume_at (view w2) = resume_at (view w)"
      "dnShipped dn2 = dnShipped dn"
    | "acked w2 = acked w @ batch" "dnShipped dn2 = dnShipped dn + length batch"
      "resume_at (view w2) = resume_at (view w) \<or> ckpt_written w2 ckpt"
      "err = None \<Longrightarrow> dn_inv full ?sent2 dn2 cs"
    using inv2 by blast
  then show thesis
  proof cases
    case 1
    have "prefix sent full" using cover prefixI prefix_order.trans by metis
    then show thesis by (intro that [of "[]"]) (use 1 cov shp in simp_all)
  next
    case 2
    have "covers_at P full stop (view w2) ?sent2"
      using 2(3) keep cover by (auto simp: ckpt_written_def)
    then show thesis
      by (intro that [of batch]) (use 2 cover shp in simp_all)
  qed
qed

text \<open>The last flush of a drain.\<close>

lemma last_flush:
  assumes inv: "mid_inv full sent dn []" and fnm: "fmName file = name"
    and ck: "ckMarker ckpt0 = stop" "\<not> ckSkip ckpt0"
    and cov: "covers_at P full stop (view w) sent"
    and fl: "flush wk file ckpt0 False dn ws w = (err, dn2, ws2, w2)"
  obtains batch where "acked w2 = acked w @ batch"
    "covers_at P full stop (view w2) (sent @ map lrMessage batch)"
    "prefix (sent @ map lrMessage batch) full"
    "dnShipped dn2 = length (sent @ map lrMessage batch)"
    "err = None \<Longrightarrow> sent @ map lrMessage batch = full \<and> resume_at (view w2) = (stop, False)"
proof -
  note I = inv [unfolded mid_inv_def Let_def]
  have full: "full = sent @ map lrMessage (dnPending dn)" using I by simp
  have shp: "dnShipped dn = length sent" using I by (simp add: plain_dn_def)
  have plan: "flush_plan dn ckpt0 False = (ckpt0, dnPending dn, [])" by (simp add: flush_plan_def)
  have cover: "covers P full stop stop False full" unfolding covers_def by blast
  have keep: "covers_at P full stop (view w) full"
    using cov covers_more full by (metis prefixI)
  from flush_cases [OF fnm plan fl]
  consider "err \<noteq> None" "acked w2 = acked w" "resume_at (view w2) = resume_at (view w)"
      "dnShipped dn2 = dnShipped dn"
    | "acked w2 = acked w @ dnPending dn" "dnShipped dn2 = dnShipped dn + length (dnPending dn)"
      "resume_at (view w2) = resume_at (view w) \<or> ckpt_written w2 ckpt0"
      "err = None \<Longrightarrow> ckpt_written w2 ckpt0"
    by blast
  then show thesis
  proof cases
    case 1
    show thesis by (rule that [of "[]"]) (use 1 cov shp full in simp_all)
  next
    case 2
    have "covers_at P full stop (view w2) full"
      using 2(3) keep cover ck by (auto simp: ckpt_written_def)
    then show thesis
      by (intro that [of "dnPending dn"]) (use 2 full shp ck in \<open>simp_all add: ckpt_written_def\<close>)
  qed
qed

section \<open>The loop\<close>

text \<open>
  For any state of a drain within the invariant the loop returns; the messages shipped, here
  sent, extend what was shipped before, are a prefix of the full stream, and the durable
  checkpoint covers them.  A drain without error shipped the full stream.
\<close>

definition drain_result ::
    "string list \<Rightarrow> string \<Rightarrow> logrecord list \<Rightarrow> ((nat \<times> go_err option) \<times> wst \<times> 'w) \<Rightarrow> bool" where
  "drain_result full stop base r =
     (case r of ((n, err), ws', w') \<Rightarrow>
        \<exists>sent. acked w' = base @ sent \<and> n = length sent \<and> prefix (map lrMessage sent) full
          \<and> covers_at P full stop (view w') (map lrMessage sent)
          \<and> (err = None \<longrightarrow> map lrMessage sent = full \<and> resume_at (view w') = (stop, False)))"

lemma drain_resultI:
  assumes "acked w' = base @ sent" "n = length sent" "prefix (map lrMessage sent) full"
    and "covers_at P full stop (view w') (map lrMessage sent)"
    and "err = None \<Longrightarrow> map lrMessage sent = full \<and> resume_at (view w') = (stop, False)"
  shows "drain_result full stop base ((n, err), ws', w')"
  using assms unfolding drain_result_def by auto

lemma inv_prefix:
  assumes "dn_inv full sent dn (c # cs)" shows "prefix sent full"
proof (cases "dnPending dn = [] \<and> dnSkipLeading dn")
  case True
  then show ?thesis using assms by (simp add: dn_inv_def)
next
  case False
  note I = assms [unfolded dn_inv_def Let_def]
  show ?thesis
  proof (cases "dnPending dn = []")
    case True
    then have ns: "\<not> dnSkipLeading dn" using False by simp
    show ?thesis
    proof (cases "GroupsMultiline (wkFetcher wk)")
      case True
      then have "sent = []" using I \<open>dnPending dn = []\<close> by (simp add: plain_dn_def)
      then show ?thesis by simp
    next
      case False
      have "chain P (dnMarker dn) (c # cs)" using I by blast
      then have "stream False sent (c # cs) = sent @ stream False [] (c # cs)"
        using stream_no_leading no_parser_no_leading [OF False] by blast
      then show ?thesis using I ns \<open>dnPending dn = []\<close> by simp
    qed
  next
    case False
    then have "\<not> dnSkipLeading dn" using I by auto
    then have "prefix (butlast (sent @ map lrMessage (dnPending dn))) full"
      using I stream_prefix by metis
    moreover have "prefix sent (butlast (sent @ map lrMessage (dnPending dn)))"
      using False by (simp add: butlast_append)
    ultimately show ?thesis by (rule prefix_order.trans [rotated])
  qed
qed

lemma pull_chunk:
  assumes pp: "PullPortion (wkFetcher wk) name m w = (Inr ch, w')"
  shows "map lrMessage (chRecords ch) = cdMsgs (P m)" "chLeading ch = cdLeading (P m)"
    "chNextMarker ch = cdNext (P m)" "chPending ch = cdPending (P m)"
    "acked w' = acked w" "view w' = view w"
proof -
  obtain raw where raw:
    "pullRaw (wkFetcher wk) name (if m = [] then MarkerBeginning else m) w = (Inr raw, w')"
    "map lrMessage (chRecords ch) = cdMsgs (chunk_data (ftParser (wkFetcher wk)) raw)"
    "chLeading ch = cdLeading (chunk_data (ftParser (wkFetcher wk)) raw)"
    "chNextMarker ch = cdNext (chunk_data (ftParser (wkFetcher wk)) raw)"
    "chPending ch = cdPending (chunk_data (ftParser (wkFetcher wk)) raw)"
    using PullPortion_chunk [OF pp] by metis
  have "P m = chunk_data (ftParser (wkFetcher wk)) raw"
    using pull_serves [OF raw(1)] by (simp add: P_def chunk_at_def)
  then show "map lrMessage (chRecords ch) = cdMsgs (P m)" "chLeading ch = cdLeading (P m)"
    "chNextMarker ch = cdNext (P m)" "chPending ch = cdPending (P m)"
    using raw by simp_all
  show "acked w' = acked w" "view w' = view w" using pull_frame [OF raw(1)] by simp_all
qed

lemma pull_error:
  assumes "PullPortion (wkFetcher wk) name m w = (Inl e, w')"
  shows "acked w' = acked w" "view w' = view w"
proof -
  have "pullRaw (wkFetcher wk) name (if m = [] then MarkerBeginning else m) w = (Inl e, w')"
    using assms name_nonempty
    by (auto simp: PullPortion_def split: prod.splits sum.splits)
  then show "acked w' = acked w" "view w' = view w" using pull_frame by blast+
qed

lemma drain_loop_result:
  assumes "dn_inv full (map lrMessage sent) dn cs" "cs \<noteq> []"
    and fnm: "fmName file = name" and run: "\<not> isErrorRunningLog (fmName file)"
    and "stop = cdNext (last cs)" "acked w = base @ sent"
    and "covers_at P full stop (view w) (map lrMessage sent)"
  shows "\<exists>r. drain_loop wk file dn ws w = Some r \<and> drain_result full stop base r"
  using assms(1,2,5-)
proof (induction cs arbitrary: sent dn ws w)
  case Nil
  then show ?case by simp
next
  case (Cons c cs)
  note inv = Cons.prems(1) and stop = Cons.prems(3) and ack = Cons.prems(4) and cov = Cons.prems(5)
  have shp: "dnShipped dn = length sent" using inv by (simp add: dn_inv_def plain_dn_def Let_def)
  have chn: "chain P (dnMarker dn) (c # cs)" using inv unfolding dn_inv_def Let_def by blast
  have here: "drain_result full stop base ((dnShipped dn, Some e), ws', w')"
    if "acked w' = acked w" "view w' = view w" for e ws' w'
    using that ack cov inv_prefix [OF inv] shp by (intro drain_resultI [of _ _ sent]) simp_all
  show ?case
  proof (cases "enCtx (wkEnv wk) w")
    case (Some e)
    then show ?thesis using here [of w] by (subst drain_loop.simps) simp
  next
    case None
    note ctx = None
    obtain r w1 where pp: "PullPortion (wkFetcher wk) name (dnMarker dn) w = (r, w1)"
      by (cases "PullPortion (wkFetcher wk) name (dnMarker dn) w")
    show ?thesis
    proof (cases r)
      case (Inl e)
      then show ?thesis using here [of w1] pp pull_error [of "dnMarker dn" w e w1] ctx fnm
        by (subst drain_loop.simps) simp
    next
      case (Inr ch)
      note ch = pull_chunk [OF pp [unfolded Inr]]
      have cP: "c = P (dnMarker dn)" using chn by (rule chain_hd)
      obtain dn1 ws1 where ab: "absorb (enNow (wkEnv wk) w1) file ch dn ws = (dn1, ws1)"
        by (cases "absorb (enNow (wkEnv wk) w1) file ch dn ws")
      have mid: "mid_inv full (map lrMessage sent) dn1 cs" "dnMarker dn1 = cdNext c"
        using absorb_inv [OF inv run _ _ ab] ch cP by simp_all
      let ?ck = "chunk_ckpt file ch dn1"
      have ck: "ckMarker ?ck = cdNext c" "\<not> ckSkip ?ck"
        using ch cP by (simp_all add: chunk_ckpt_def)
      have cov1: "covers_at P full stop (view w1) (map lrMessage sent)" using cov ch by simp
      note start = ctx pp [unfolded Inr] ab fnm
      show ?thesis
      proof (cases "cs = []")
        case True
        have np: "\<not> chPending ch" using ch(4) cP chain_pending [OF chn] True by simp
        have stopc: "ckMarker ?ck = stop" using stop True ck by simp
        obtain err dn2 ws2 w2 where fl: "flush wk file ?ck False dn1 ws1 w1 = (err, dn2, ws2, w2)"
          by (cases "flush wk file ?ck False dn1 ws1 w1") auto
        obtain batch where b: "acked w2 = acked w1 @ batch"
          "covers_at P full stop (view w2) (map lrMessage sent @ map lrMessage batch)"
          "prefix (map lrMessage sent @ map lrMessage batch) full"
          "dnShipped dn2 = length (map lrMessage sent @ map lrMessage batch)"
          "err = None \<Longrightarrow> map lrMessage sent @ map lrMessage batch = full
             \<and> resume_at (view w2) = (stop, False)"
          using last_flush [OF mid(1) [unfolded True] fnm stopc ck(2) cov1 fl] by metis
        have "drain_result full stop base ((dnShipped dn2, err), ws', w2)" for ws'
          using b ack ch by (intro drain_resultI [of _ _ "sent @ batch"]) simp_all
        then show ?thesis using start np fl by (subst drain_loop.simps) simp
      next
        case False
        have pd: "chPending ch" using ch(4) cP chain_pending [OF chn] False by simp
        have chn1: "chain P (dnMarker dn1) cs" using chain_tl [OF chn False] mid(2) by simp
        have stop1: "stop = cdNext (last cs)" using stop False by simp
        show ?thesis
        proof (cases "batch_full wk dn1")
          case True
          obtain err dn2 ws2 w2 where
            fl: "flush wk file ?ck (GroupsMultiline (wkFetcher wk)) dn1 ws1 w1 = (err, dn2, ws2, w2)"
            by (cases "flush wk file ?ck (GroupsMultiline (wkFetcher wk)) dn1 ws1 w1") auto
          have ckm: "ckMarker ?ck = dnMarker dn1" using ck mid(2) by simp
          obtain batch where b: "acked w2 = acked w1 @ batch"
            "covers_at P full stop (view w2) (map lrMessage sent @ map lrMessage batch)"
            "prefix (map lrMessage sent @ map lrMessage batch) full"
            "dnShipped dn2 = length (map lrMessage sent @ map lrMessage batch)"
            "err = None \<Longrightarrow> dn_inv full (map lrMessage sent @ map lrMessage batch) dn2 cs"
            using mid_flush [OF mid(1) chn1 fnm ckm ck(2) cov1 fl] by metis
          have ack2: "acked w2 = base @ (sent @ batch)" using b ack ch by simp
          show ?thesis
          proof (cases err)
            case None
            obtain r where "drain_loop wk file dn2 ws2 w2 = Some r" "drain_result full stop base r"
              using Cons.IH [of "sent @ batch" dn2 w2 ws2] b None False stop1 ack2 by auto
            then show ?thesis using start pd True fl None by (subst drain_loop.simps) simp
          next
            case (Some e)
            have "drain_result full stop base ((dnShipped dn2, Some e), ws2, w2)"
              using b ack2 by (intro drain_resultI [of _ _ "sent @ batch"]) simp_all
            then show ?thesis using start pd True fl Some by (subst drain_loop.simps) simp
          qed
        next
          case False
          have "dn_inv full (map lrMessage sent) dn1 cs"
            using mid(1) chn1 by (rule mid_to_inv)
          then obtain r where "drain_loop wk file dn1 ws1 w1 = Some r" "drain_result full stop base r"
            using Cons.IH [of sent dn1 w1 ws1] \<open>cs \<noteq> []\<close> stop1 ack ch cov1 by auto
          then show ?thesis using start pd False by (subst drain_loop.simps) simp
        qed
      qed
    qed
  qed
qed

end

section \<open>drainFile\<close>

text \<open>With what a drain reads of the store first.\<close>

locale drain_store = drain_world +
  assumes get_ok: "ssGet (wkStore wk) (wkInstance wk) name w = (Inr r, w') \<Longrightarrow> r = view w"
    and get_frame: "ssGet (wkStore wk) (wkInstance wk) name w = (x, w') \<Longrightarrow>
          acked w' = acked w \<and> view w' = view w"

lemma startFor_stateOp [simp]: "startFor wk (stateOp a b ws) file = startFor wk ws file"
  by (simp add: startFor_def stateOp_def)

lemma pendingRestart_stateOp [simp]:
  "pendingRestart (stateOp a b ws) file = pendingRestart ws file"
  by (simp add: pendingRestart_def stateOp_def Let_def)

lemma restart_check_stateOp [simp]:
  "fst (restart_check file (stateOp a b ws)) = fst (restart_check file ws)"
  by (cases "pendingRestart ws (fmName file)") (auto simp: restart_check_def)

text \<open>No rewind: the file has not shrunk and no restart is pending for it.\<close>

definition calm :: "file_meta \<Rightarrow> wst \<Rightarrow> checkpoint option \<Rightarrow> bool" where
  "calm file ws found =
     (case found of None \<Rightarrow> True
      | Some c \<Rightarrow> \<not> file_shrank file c \<and> \<not> fst (fst (restart_check file ws)))"

text \<open>The file is read from its beginning or from its checkpoint.\<close>

definition reads_on :: "'w worker \<Rightarrow> wst \<Rightarrow> file_meta \<Rightarrow> checkpoint option \<Rightarrow> bool" where
  "reads_on wk ws file found =
     (wkParallelReads wk \<le> 1 \<and> \<not> isErrorRunningLog (fmName file) \<and> calm file ws found
      \<and> (found = None \<longrightarrow> startFor wk ws file \<noteq> StartFromEnd))"

lemma drain_found_calm:
  assumes "calm file ws (Some prev)"
  obtains ws' where "drain_found file prev ws = (start_drain prev, ws')"
proof -
  obtain r tm g ws' where rc: "restart_check file ws = ((r, tm, g), ws')"
    by (cases "restart_check file ws") auto
  then have "\<not> r" "\<not> file_shrank file prev" using assms by (simp_all add: calm_def)
  then show thesis using that rc by (simp add: drain_found_def)
qed

context drain_store
begin

lemma start_inv:
  assumes "chain P (ckMarker prev) cs" "cs \<noteq> []"
  shows "dn_inv (stream (ckSkip prev) [] cs) [] (start_drain prev) cs"
  using assms by (simp add: dn_inv_def plain_dn_def start_drain_def Let_def)

lemma start_covers:
  assumes "chain P m cs" shows "covers P (stream skip [] cs) stop m skip []"
  unfolding covers_def owed_def using assms by auto

lemma drainFile_result:
  assumes fnm: "fmName file = name" and go: "reads_on wk ws file (view w)"
    and chn: "chain P (fst (resume_at (view w))) cs" and ne: "cs \<noteq> []"
  shows "\<exists>r. drainFile wk file ws w = Some r
           \<and> drain_result (stream (snd (resume_at (view w))) [] cs) (cdNext (last cs)) (acked w) r"
proof -
  let ?full = "stream (snd (resume_at (view w))) [] cs"
  let ?ws1 = "stateOp ''get'' ''ok'' ws"
  obtain x w1 where g: "ssGet (wkStore wk) (wkInstance wk) name w = (x, w1)"
    by (cases "ssGet (wkStore wk) (wkInstance wk) name w")
  have fr: "acked w1 = acked w" "view w1 = view w" using get_frame [OF g] by simp_all
  have nil: "covers_at P ?full (cdNext (last cs)) (view w1) []"
    using start_covers [OF chn] fr by simp
  have run: "\<not> isErrorRunningLog (fmName file)" and np: "\<not> wants_parallel wk file dn" for dn
    using go by (auto simp: reads_on_def wants_parallel_def)
  have loop: "\<exists>r. drain_run wk file (start_drain prev) ws2 w1 = Some r
      \<and> drain_result ?full (cdNext (last cs)) (acked w) r"
    if "(ckMarker prev, ckSkip prev) = resume_at (view w)" for prev ws2
  proof -
    have pm: "ckMarker prev = fst (resume_at (view w))" "ckSkip prev = snd (resume_at (view w))"
      using that by (metis fst_conv, metis snd_conv)
    have "dn_inv ?full (map lrMessage []) (start_drain prev) cs"
      using start_inv [of prev cs] chn ne pm by simp
    note drain_loop_result [OF this ne fnm run refl, of w1 "acked w" ws2]
    then show ?thesis using fr nil np by (simp add: drain_run_def)
  qed
  show ?thesis
  proof (cases x)
    case (Inl e)
    have "drain_result ?full (cdNext (last cs)) (acked w)
        ((0, Some (Wrapped ''state get'' e)), stateOp ''get'' ''error'' ws, w1)"
      by (rule drain_resultI [of _ _ "[]"]) (use fr nil in simp_all)
    then show ?thesis using g Inl fnm by (simp add: drainFile_def)
  next
    case (Inr found)
    then have f: "found = view w" using get_ok g by simp
    show ?thesis
    proof (cases found)
      case None
      have "startFor wk ?ws1 file \<noteq> StartFromEnd" using go f None by (simp add: reads_on_def)
      then show ?thesis
        using loop [of "zero_ckpt\<lparr>ckMarker := MarkerBeginning, ckFileSize := fmSize file\<rparr>" ?ws1]
          f None g Inr fnm by (simp add: drainFile_def resume_at_def zero_ckpt_def Let_def)
    next
      case (Some prev)
      have "view w = Some prev" using f Some by simp
      note vw = this
      then have "calm file ?ws1 (Some prev)" using go by (simp add: reads_on_def calm_def)
      then obtain ws2 where d: "drain_found file prev ?ws1 = (start_drain prev, ws2)"
        using drain_found_calm by blast
      moreover obtain r where "drain_run wk file (start_drain prev) ws2 w1 = Some r"
          "drain_result ?full (cdNext (last cs)) (acked w) r"
        using loop [of prev ws2] vw by auto
      ultimately show ?thesis
        using Some g Inr fnm by (intro exI [of _ r]) (simp add: drainFile_def Let_def)
    qed
  qed
qed

end

text \<open>What drainFile ships, with the names of the locale unfolded.\<close>

lemma drainFile_ships:
  assumes "drain_store wk name R acked view" "fmName file = name" "reads_on wk ws file (view w)"
    and "chain (chunk_at (ftParser (wkFetcher wk)) R) (fst (resume_at (view w))) cs" "cs \<noteq> []"
  defines "full \<equiv> stream (snd (resume_at (view w))) [] cs"
  shows "\<exists>n err ws' w' sent. drainFile wk file ws w = Some ((n, err), ws', w')
      \<and> acked w' = acked w @ sent \<and> n = length sent \<and> prefix (map lrMessage sent) full
      \<and> covers_at (chunk_at (ftParser (wkFetcher wk)) R) full (cdNext (last cs)) (view w')
          (map lrMessage sent)
      \<and> (err = None \<longrightarrow> map lrMessage sent = full \<and> resume_at (view w') = (cdNext (last cs), False))"
  unfolding full_def
  using drain_store.drainFile_result [OF assms(1-3) _ assms(5)] assms(4)
  unfolding drain_store.axioms(1) [OF assms(1), THEN drain_world.P_def]
    drain_world.drain_result_def [OF drain_store.axioms(1) [OF assms(1)]]
  by (auto split: prod.splits)

end
