(* ===== verification/DrainLive.thy ===== *)
theory DrainLive
  imports DrainProps
begin

text \<open>
  A drain in a world where nothing fails: every read, write, checkpoint and lookup succeeds
  and the context is not cancelled.  Such a drain ends without error.
\<close>

locale healthy =
  fixes wk :: "'w worker" and name :: string and ok :: "'w \<Rightarrow> bool"
  assumes name_ne: "name \<noteq> []"
    and pull_works: "ok w \<Longrightarrow> \<exists>raw w'. pullRaw (wkFetcher wk) name m w = (Inr raw, w') \<and> ok w'"
    and write_works: "ok w \<Longrightarrow> \<exists>w'. skWrite (wkSink wk) rs w = (None, w') \<and> ok w'"
    and set_works: "ok w \<Longrightarrow> \<exists>w'. ssSet (wkStore wk) (wkInstance wk) name c w = (None, w') \<and> ok w'"
    and get_works: "ok w \<Longrightarrow> \<exists>r w'. ssGet (wkStore wk) (wkInstance wk) name w = (Inr r, w') \<and> ok w'"
    and not_cancelled: "ok w \<Longrightarrow> enCtx (wkEnv wk) w = None"
begin

lemma pull_portion_works:
  assumes "ok w" shows "\<exists>ch w'. PullPortion (wkFetcher wk) name m w = (Inr ch, w') \<and> ok w'"
  using pull_works [OF assms, of "if m = [] then MarkerBeginning else m"] name_ne
  by (auto simp: PullPortion_def split: prod.splits)

lemma flush_works:
  assumes "ok w" "fmName file = name"
  shows "\<exists>dn' ws' w'. flush wk file c hold dn ws w = (None, dn', ws', w') \<and> ok w'"
proof -
  obtain ckpt batch carry where p: "flush_plan dn c hold = (ckpt, batch, carry)"
    by (cases "flush_plan dn c hold")
  obtain dn1 ws1 w1 where fw: "flush_write wk file batch carry dn ws w = (None, dn1, ws1, w1)" "ok w1"
    using write_works [OF assms(1), of batch] assms(1)
    by (cases "batch = []") (auto simp: flush_write_def)
  obtain w2 where s: "set_ckpt wk name ckpt ws1 w1 = (None, stateOp ''set'' ''ok'' ws1, w2)" "ok w2"
    using set_works [OF fw(2), of ckpt] by (auto simp: set_ckpt_def)
  show ?thesis using p fw s assms(2) by (auto simp: flush_def split: prod.splits)
qed

lemma drain_loop_raw:
  "drain_loop wk' file dn ws w = Some r \<Longrightarrow>
     wk' = wk \<longrightarrow> fmName file = name \<longrightarrow> ok w \<longrightarrow> snd (fst r) = None \<and> ok (snd (snd r))"
proof (erule drain_loop.raw_induct
    [where P = "\<lambda>wk' file dn ws w r. wk' = wk \<longrightarrow> fmName file = name \<longrightarrow> ok w \<longrightarrow>
           snd (fst r) = None \<and> ok (snd (snd r))",
     rotated])
  fix loop and wk' :: "'w worker" and fl dn ws w r
  assume IH: "\<And>wk' file dn ws w r. loop wk' file dn ws w = Some r \<Longrightarrow>
      wk' = wk \<longrightarrow> fmName file = name \<longrightarrow> ok w \<longrightarrow> snd (fst r) = None \<and> ok (snd (snd r))"
    and run: "(case enCtx (wkEnv wk') w of
        Some e \<Rightarrow> Some ((dnShipped dn, Some e), ws, w)
      | None \<Rightarrow>
        (case PullPortion (wkFetcher wk') (fmName fl) (dnMarker dn) w of
           (Inl e, w1) \<Rightarrow> Some ((dnShipped dn, Some (Wrapped ''pull'' e)), ws, w1)
         | (Inr ch, w1) \<Rightarrow>
           (case absorb (enNow (wkEnv wk') w1) fl ch dn ws of
              (dn1, ws1) \<Rightarrow>
                if \<not> chPending ch then
                  (case flush wk' fl (chunk_ckpt fl ch dn1) False dn1 ws1 w1 of
                     (err, dn2, ws2, w2) \<Rightarrow>
                       Some ((dnShipped dn2, err),
                             (if err = None
                              then noteProgress fl (dnBefore dn2) (dnPrev dn2) (dnShipped dn2) ws2
                              else ws2), w2))
                else if batch_full wk' dn1 then
                  (case flush wk' fl (chunk_ckpt fl ch dn1) (GroupsMultiline (wkFetcher wk'))
                          dn1 ws1 w1 of
                     (Some e, dn2, ws2, w2) \<Rightarrow> Some ((dnShipped dn2, Some e), ws2, w2)
                   | (None, dn2, ws2, w2) \<Rightarrow> loop wk' fl dn2 ws2 w2)
                else loop wk' fl dn1 ws1 w1))) = Some r"
  show "wk' = wk \<longrightarrow> fmName fl = name \<longrightarrow> ok w \<longrightarrow> snd (fst r) = None \<and> ok (snd (snd r))"
  proof (intro impI)
    assume a: "wk' = wk" "fmName fl = name" "ok w"
    obtain ch w1 where p: "PullPortion (wkFetcher wk) name (dnMarker dn) w = (Inr ch, w1)" "ok w1"
      using pull_portion_works [OF a(3)] by blast
    obtain dn1 ws1 where ab: "absorb (enNow (wkEnv wk) w1) fl ch dn ws = (dn1, ws1)"
      by (cases "absorb (enNow (wkEnv wk) w1) fl ch dn ws")
    obtain dn2 ws2 w2 where f1: "flush wk fl (chunk_ckpt fl ch dn1) False dn1 ws1 w1
        = (None, dn2, ws2, w2)" "ok w2" using flush_works [OF p(2) a(2)] by blast
    obtain dn3 ws3 w3 where f2: "flush wk fl (chunk_ckpt fl ch dn1) (GroupsMultiline (wkFetcher wk))
        dn1 ws1 w1 = (None, dn3, ws3, w3)" "ok w3" using flush_works [OF p(2) a(2)] by blast
    show "snd (fst r) = None \<and> ok (snd (snd r))"
      using IH run a p ab f1 f2 not_cancelled [OF a(3)]
      by (auto split: if_splits)
  qed
qed

lemma drain_loop_ok:
  "drain_loop wk file dn ws w = Some r \<Longrightarrow> fmName file = name \<Longrightarrow> ok w \<Longrightarrow>
     snd (fst r) = None \<and> ok (snd (snd r))"
  using drain_loop_raw by blast

lemma drainFile_ok:
  assumes "ok w" "fmName file = name" and nopar: "wkParallelReads wk \<le> 1"
    and start: "fst (ssGet (wkStore wk) (wkInstance wk) name w) = Inr None \<Longrightarrow>
      startFor wk (stateOp ''get'' ''ok'' ws) file \<noteq> StartFromEnd"
    and d: "drainFile wk file ws w = Some ((n, err), ws', w')"
  shows "err = None \<and> ok w'"
proof -
  obtain r w1 where g: "ssGet (wkStore wk) (wkInstance wk) name w = (Inr r, w1)" "ok w1"
    using get_works [OF assms(1)] by blast
  have run: "drain_run wk file dn ws2 w1 = Some ((n, err), ws', w') \<Longrightarrow> err = None \<and> ok w'" for dn ws2
    using drain_loop_ok [OF _ assms(2) g(2)] nopar
    by (fastforce simp: drain_run_def wants_parallel_def)
  show ?thesis using d g assms(2) start run
    by (auto simp: drainFile_def Let_def split: option.splits prod.splits)
qed

lemmas drainFile_no_error = drainFile_ok [THEN conjunct1]

end

text \<open>The same for a file that is read on.\<close>

lemma drainFile_reads_on_ok:
  assumes st: "drain_store wk name R acked view" and h: "healthy wk name ok" "ok w" "fmName file = name"
    and go: "reads_on wk ws file (view w)" and d: "drainFile wk file ws w = Some ((n, err), ws', w')"
  shows "err = None \<and> ok w'"
proof (rule healthy.drainFile_ok [OF h _ _ d])
  show "wkParallelReads wk \<le> 1" using go by (simp add: reads_on_def)
  assume "fst (ssGet (wkStore wk) (wkInstance wk) name w) = Inr None"
  then have "view w = None"
    using drain_store.get_ok [OF st, of w None] by (metis prod.collapse)
  then show "startFor wk (stateOp ''get'' ''ok'' ws) file \<noteq> StartFromEnd"
    using go by (simp add: reads_on_def)
qed

end
