(* ===== verification/SinkTypes.thy ===== *)
theory SinkTypes
  imports Config Parse
begin

text \<open>
  internal/sink/memory, stdout, http, s3 and kafka: what each destination is sent and how
  its answer becomes the result of Write.  The network calls (an HTTP round trip, PutObject,
  ProduceSync), the JSON encoder and gzip are arguments.
\<close>

section \<open>The memory sink\<close>

record mem_sink =
  msName :: string
  msBatches :: "logrecord list list"
  msWriteErr :: "go_err option"

definition mem_sink_New :: "string \<Rightarrow> mem_sink" where
  "mem_sink_New name = \<lparr>msName = name, msBatches = [], msWriteErr = None\<rparr>"

definition mem_sink_Name :: "mem_sink \<Rightarrow> string" where
  "mem_sink_Name s = (if msName s = [] then ''memory'' else msName s)"

definition mem_sink_Write :: "logrecord list \<Rightarrow> mem_sink \<Rightarrow> go_err option \<times> mem_sink" where
  "mem_sink_Write rs s =
     (case msWriteErr s of
        Some e \<Rightarrow> (Some e, s)
      | None \<Rightarrow> (None, s\<lparr>msBatches := msBatches s @ [rs]\<rparr>))"

definition mem_sink_RecordCount :: "mem_sink \<Rightarrow> nat" where
  "mem_sink_RecordCount s = sum_list (map length (msBatches s))"

definition mem_sink_FailNext :: "go_err option \<Rightarrow> mem_sink \<Rightarrow> mem_sink" where
  "mem_sink_FailNext e s = s\<lparr>msWriteErr := e\<rparr>"

section \<open>The stdout sink\<close>

text \<open>
  The buffered writer is its pending text; its 4096-byte intermediate flushes are not
  modelled (out is called once per flush).
\<close>

record stdout_sink =
  sdName :: string
  sdFormat :: string
  sdBuf :: string

definition stdout_New :: "string \<Rightarrow> string \<Rightarrow> go_err + stdout_sink" where
  "stdout_New name format =
     (if format = [] \<or> format = ''ndjson''
      then Inr \<lparr>sdName = name, sdFormat = ''ndjson'', sdBuf = []\<rparr>
      else if format = ''text'' then Inr \<lparr>sdName = name, sdFormat = format, sdBuf = []\<rparr>
      else Inl (ErrMsg (''stdout sink '' @ go_quote name @ '': unknown format '' @ go_quote format
                  @ '' (ndjson|text)'')))"

fun stdout_lines ::
    "stdout_sink \<Rightarrow> (logrecord \<Rightarrow> go_err + string) \<Rightarrow> logrecord list \<Rightarrow> string
       \<Rightarrow> go_err option \<times> string" where
  "stdout_lines s marshal [] buf = (None, buf)"
| "stdout_lines s marshal (r # rs) buf =
     (if sdFormat s = ''text'' then stdout_lines s marshal rs (buf @ lrMessage r @ [CHR 0x0A])
      else (case marshal r of
              Inl e \<Rightarrow> (Some (Wrapped (''stdout sink '' @ go_quote (sdName s)) e), buf)
            | Inr b \<Rightarrow> stdout_lines s marshal rs (buf @ b @ [CHR 0x0A])))"

definition stdout_Write ::
    "(string \<Rightarrow> 'w \<Rightarrow> go_err option \<times> 'w) \<Rightarrow> (logrecord \<Rightarrow> go_err + string)
       \<Rightarrow> logrecord list \<Rightarrow> stdout_sink \<Rightarrow> 'w \<Rightarrow> go_err option \<times> stdout_sink \<times> 'w" where
  "stdout_Write out marshal rs s w =
     (case stdout_lines s marshal rs (sdBuf s) of
        (Some e, buf) \<Rightarrow> (Some e, s\<lparr>sdBuf := buf\<rparr>, w)
      | (None, buf) \<Rightarrow>
          (case out buf w of
             (Some e, w1) \<Rightarrow>
               (Some (Wrapped (''stdout sink '' @ go_quote (sdName s) @ '' flush'') e),
                s\<lparr>sdBuf := buf\<rparr>, w1)
           | (None, w1) \<Rightarrow> (None, s\<lparr>sdBuf := []\<rparr>, w1)))"

section \<open>The HTTP sink\<close>

record http_sink =
  hsName :: string
  hsURL :: string
  hsHdr :: "(string \<times> string) list"
  hsGzip :: bool
  hsTimeout :: duration

record http_req =
  rqURL :: string
  rqHeaders :: "(string \<times> string) list"
  rqBody :: string

definition http_New :: "string \<Rightarrow> http_cfg option \<Rightarrow> go_err + http_sink" where
  "http_New name cfg =
     (let err = Inl (ErrMsg (''http sink '' @ go_quote name @ '': url required'')) in
      case cfg of
        None \<Rightarrow> err
      | Some c \<Rightarrow>
          if htURL c = [] then err
          else Inr \<lparr>hsName = name, hsURL = htURL c, hsHdr = htHeaders c, hsGzip = htGZIP c,
                    hsTimeout = (if htTimeout c \<le> 0 then 30 * second else htTimeout c)\<rparr>)"

text \<open>Header.Set replaces; the configured headers come last.  Names are canonical already.\<close>

definition http_headers :: "http_sink \<Rightarrow> logrecord \<Rightarrow> (string \<times> string) list" where
  "http_headers s r =
     foldl (\<lambda>h (k, v). AList.update k v h)
       ([(''Content-Type'', ''application/json'')]
        @ (if hsGzip s then [(''Content-Encoding'', ''gzip'')] else [])
        @ [(''X-Batch-Id'', lrBatchID r), (''X-Instance-Id'', lrInstanceID r),
           (''X-Log-File'', lrLogFile r)])
       (hsHdr s)"

definition http_status :: "string \<Rightarrow> int \<Rightarrow> go_err option" where
  "http_status name code =
     (let e = ErrMsg (''http sink '' @ go_quote name @ '': status '' @ format_int code) in
      if 200 \<le> code \<and> code < 300 then None
      else if 400 \<le> code \<and> code < 500 then Some (NewPermanentError (Some e))
      else Some e)"

text \<open>doReq answers with an error or a status code; newReq is the error of building the request.\<close>

definition http_Write ::
    "(logrecord list \<Rightarrow> go_err + string) \<Rightarrow> (string \<Rightarrow> string) \<Rightarrow> (string \<Rightarrow> go_err option)
       \<Rightarrow> (http_req \<Rightarrow> 'w \<Rightarrow> (go_err + int) \<times> 'w)
       \<Rightarrow> http_sink \<Rightarrow> logrecord list \<Rightarrow> 'w \<Rightarrow> go_err option \<times> 'w" where
  "http_Write marshal gz newReq doReq s rs w =
     (let q = ''http sink '' @ go_quote (hsName s) in
      if rs = [] then (None, w)
      else (case marshal rs of
              Inl e \<Rightarrow> (Some (Wrapped (q @ '' marshal'') e), w)
            | Inr body \<Rightarrow>
                (case newReq (hsURL s) of
                   Some e \<Rightarrow> (Some (Wrapped (q @ '' new request'') e), w)
                 | None \<Rightarrow>
                     (case doReq \<lparr>rqURL = hsURL s, rqHeaders = http_headers s (hd rs),
                                  rqBody = (if hsGzip s then gz body else body)\<rparr> w of
                        (Inl e, w1) \<Rightarrow> (Some (Wrapped (q @ '' post'') e), w1)
                      | (Inr code, w1) \<Rightarrow> (http_status (hsName s) code, w1)))))"

section \<open>The S3 sink\<close>

record s3_sink =
  s3sName :: string
  s3sBucket :: string
  s3sPrefix :: string
  s3sKMS :: string

definition s3_New :: "string \<Rightarrow> s3_cfg option \<Rightarrow> bool \<Rightarrow> go_err + s3_sink" where
  "s3_New name cfg hasAPI =
     (let q = ''s3 sink '' @ go_quote name in
      case cfg of
        None \<Rightarrow> Inl (ErrMsg (q @ '': config required''))
      | Some c \<Rightarrow>
          if s3Bucket c = [] then Inl (ErrMsg (q @ '': bucket required''))
          else if \<not> hasAPI then Inl (ErrMsg (q @ '': api client required''))
          else Inr \<lparr>s3sName = name, s3sBucket = s3Bucket c, s3sPrefix = trim_suffix (s3Prefix c) ''/'',
                    s3sKMS = s3KMSKeyID c\<rparr>)"

text \<open>The calendar date of a time: the inverse of mk_time on whole days.\<close>

definition year_of_days :: "int \<Rightarrow> int" where
  "year_of_days days =
     (let y = (days * 400) div 146097 + 1 in
      if days_before_year y > days then y - 1
      else if days_before_year (y + 1) \<le> days then y + 1 else y)"

fun month_from :: "int \<Rightarrow> int \<Rightarrow> int \<Rightarrow> nat \<Rightarrow> int \<times> int" where
  "month_from y m dd 0 = (m, dd + 1)"
| "month_from y m dd (Suc k) =
     (if dd < days_in y m then (m, dd + 1) else month_from y (m + 1) (dd - days_in y m) k)"

definition date_of_time :: "time \<Rightarrow> int \<times> int \<times> int" where
  "date_of_time t =
     (let days = t div (24 * hour); y = year_of_days days in
      case month_from y 1 (days - days_before_year y) 11 of (m, d) \<Rightarrow> (y, m, d))"

text \<open>fmt's %0nd on a non-negative number.\<close>

definition pad_int :: "nat \<Rightarrow> int \<Rightarrow> string" where
  "pad_int n i = (let s = format_int i in replicate (n - length s) (CHR ''0'') @ s)"

definition buildKey :: "s3_sink \<Rightarrow> time \<Rightarrow> logrecord \<Rightarrow> string" where
  "buildKey s now sample =
     (let b = path_base (lrLogFile sample);
          base = (if b = ''.'' \<or> b = ''/'' \<or> b = [] then ''log'' else b);
          inst = map (\<lambda>c. if c = CHR ''/'' then CHR ''_'' else c) (lrInstanceID sample);
          engine = (if lrEngine sample = [] then ''unknown'' else lrEngine sample);
          (y, m, d) = date_of_time now;
          p = join_str ''/'' [inst, engine, base,
                pad_int 4 y @ ''/'' @ pad_int 2 m @ ''/'' @ pad_int 2 d,
                format_int (unix_milli now) @ ''-'' @ lrBatchID sample @ ''.ndjson.gz'']
      in if s3sPrefix s = [] then p else s3sPrefix s @ ''/'' @ p)"

record put_object =
  poBucket :: string
  poKey :: string
  poBody :: string
  poContentType :: string
  poContentEncoding :: string
  poMetadata :: "(string \<times> string) list"
  poEncryption :: string
  poKMSKeyId :: "string option"

definition s3_put :: "s3_sink \<Rightarrow> time \<Rightarrow> string \<Rightarrow> logrecord \<Rightarrow> put_object" where
  "s3_put s now body r =
     \<lparr>poBucket = s3sBucket s, poKey = buildKey s now r, poBody = body,
      poContentType = ''application/x-ndjson'', poContentEncoding = ''gzip'',
      poMetadata = [(''batch-id'', lrBatchID r), (''instance-id'', lrInstanceID r),
                    (''log-file'', lrLogFile r), (''engine'', lrEngine r)],
      poEncryption = (if s3sKMS s \<noteq> [] then ''aws:kms'' else ''AES256''),
      poKMSKeyId = (if s3sKMS s \<noteq> [] then Some (s3sKMS s) else None)\<rparr>"

text \<open>The body of an object: a line of JSON per record, gzipped.\<close>

fun ndjson :: "(logrecord \<Rightarrow> go_err + string) \<Rightarrow> logrecord list \<Rightarrow> go_err + string" where
  "ndjson marshal [] = Inr []"
| "ndjson marshal (r # rs) =
     (case marshal r of
        Inl e \<Rightarrow> Inl e
      | Inr b \<Rightarrow> map_sum id (\<lambda>t. b @ CHR 0x0A # t) (ndjson marshal rs))"

definition encodeNDJSONGzip ::
    "(logrecord \<Rightarrow> go_err + string) \<Rightarrow> (string \<Rightarrow> string) \<Rightarrow> logrecord list \<Rightarrow> go_err + string" where
  "encodeNDJSONGzip marshal gz rs = map_sum id gz (ndjson marshal rs)"

definition s3_Write ::
    "(logrecord list \<Rightarrow> go_err + string) \<Rightarrow> (put_object \<Rightarrow> 'w \<Rightarrow> go_err option \<times> 'w) \<Rightarrow> ('w \<Rightarrow> time)
       \<Rightarrow> s3_sink \<Rightarrow> logrecord list \<Rightarrow> 'w \<Rightarrow> go_err option \<times> 'w" where
  "s3_Write encode put clock s rs w =
     (let q = ''s3 sink '' @ go_quote (s3sName s) in
      if rs = [] then (None, w)
      else (case encode rs of
              Inl e \<Rightarrow> (Some (Wrapped (q @ '' encode'') e), w)
            | Inr body \<Rightarrow>
                (case put (s3_put s (clock w) body (hd rs)) w of
                   (Some e, w1) \<Rightarrow> (Some (Wrapped (q @ '' put'') e), w1)
                 | (None, w1) \<Rightarrow> (None, w1))))"

section \<open>The Kafka sink\<close>

record kafka_sink =
  kfName :: string
  kfTopic :: string
  kfTemplate :: string

record kafka_msg =
  kmTopic :: string
  kmKey :: string
  kmValue :: string
  kmHeaders :: "(string \<times> string) list"

text \<open>ClientOpts: only the choice of the SASL mechanism can fail.\<close>

datatype sasl = NoSASL | SASLPlain | ScramSha256 | ScramSha512

definition ClientOpts :: "kafka_cfg \<Rightarrow> go_err + sasl" where
  "ClientOpts c =
     (if kaSASLUsername c = [] then Inr NoSASL
      else if kaSASLMechanism c = [] \<or> kaSASLMechanism c = ''plain'' then Inr SASLPlain
      else if kaSASLMechanism c = ''scram-sha-256'' then Inr ScramSha256
      else if kaSASLMechanism c = ''scram-sha-512'' then Inr ScramSha512
      else Inl (ErrMsg (''unsupported sasl_mechanism '' @ go_quote (kaSASLMechanism c))))"

text \<open>newClient is kgo.NewClient's error; it is called when no producer is given.\<close>

definition kafka_New ::
    "string \<Rightarrow> kafka_cfg option \<Rightarrow> bool \<Rightarrow> (sasl \<Rightarrow> go_err option) \<Rightarrow> go_err + kafka_sink" where
  "kafka_New name cfg hasProducer newClient =
     (let q = ''kafka sink '' @ go_quote name in
      case cfg of
        None \<Rightarrow> Inl (ErrMsg (q @ '': config required''))
      | Some c \<Rightarrow>
          (let s = \<lparr>kfName = name, kfTopic = kaTopic c, kfTemplate = kaTopicTemplate c\<rparr> in
           if kaBrokers c = [] then Inl (ErrMsg (q @ '': brokers required''))
           else if kaTopic c = [] \<and> kaTopicTemplate c = []
           then Inl (ErrMsg (q @ '': topic or topic_template required''))
           else if hasProducer then Inr s
           else (case ClientOpts c of
                   Inl e \<Rightarrow> Inl (Wrapped q e)
                 | Inr m \<Rightarrow>
                     (case newClient m of
                        Some e \<Rightarrow> Inl (Wrapped (q @ '' client'') e) | None \<Rightarrow> Inr s))))"

definition resolveTopic :: "kafka_sink \<Rightarrow> logrecord \<Rightarrow> string" where
  "resolveTopic s r =
     (if kfTopic s \<noteq> [] then kfTopic s
      else replace_all ([CHR 0x7B] @ ''instance'' @ [CHR 0x7D]) (lrInstanceID r)
             (replace_all ([CHR 0x7B] @ ''engine'' @ [CHR 0x7D]) (lrEngine r) (kfTemplate s)))"

definition kafka_msg_of :: "kafka_sink \<Rightarrow> logrecord \<Rightarrow> string \<Rightarrow> kafka_msg" where
  "kafka_msg_of s r body =
     \<lparr>kmTopic = resolveTopic s r, kmKey = lrInstanceID r @ ''|'' @ lrLogFile r, kmValue = body,
      kmHeaders = [(''batch-id'', lrBatchID r), (''instance-id'', lrInstanceID r),
                   (''log-file'', lrLogFile r), (''engine'', lrEngine r)]\<rparr>"

fun kafka_msgs ::
    "(logrecord \<Rightarrow> go_err + string) \<Rightarrow> kafka_sink \<Rightarrow> logrecord list \<Rightarrow> go_err + kafka_msg list" where
  "kafka_msgs marshal s [] = Inr []"
| "kafka_msgs marshal s (r # rs) =
     (case marshal r of
        Inl e \<Rightarrow> Inl (Wrapped (''kafka sink '' @ go_quote (kfName s) @ '' marshal'') e)
      | Inr body \<Rightarrow>
          (case kafka_msgs marshal s rs of
             Inl e \<Rightarrow> Inl e | Inr ms \<Rightarrow> Inr (kafka_msg_of s r body # ms)))"

text \<open>ProduceSync answers with one result per message.\<close>

definition kafka_Write ::
    "(logrecord \<Rightarrow> go_err + string) \<Rightarrow> (kafka_msg list \<Rightarrow> 'w \<Rightarrow> go_err option list \<times> 'w)
       \<Rightarrow> kafka_sink \<Rightarrow> logrecord list \<Rightarrow> 'w \<Rightarrow> go_err option \<times> 'w" where
  "kafka_Write marshal produce s rs w =
     (if rs = [] then (None, w)
      else (case kafka_msgs marshal s rs of
              Inl e \<Rightarrow> (Some e, w)
            | Inr ms \<Rightarrow>
                (case produce ms w of
                   (results, w1) \<Rightarrow> (errors_join (List.map_filter (\<lambda>r. r) results), w1))))"

end
