(* ===== verification/Factory.thy ===== *)
theory Factory
  imports SinkTypes
begin

text \<open>
  internal/sink/factory/factory.go: bare sinks from their configuration, and the decorators
  around them.  What lies outside the program (AWS, HTTP, Kafka, the encoders) is one record
  of functions; the buffer of a stdout sink lives in the world.
\<close>

record 'w outside =
  osAwsConfig :: "string \<Rightarrow> string \<Rightarrow> string \<Rightarrow> go_err option"
  osPut :: "put_object \<Rightarrow> 'w \<Rightarrow> go_err option \<times> 'w"
  osClock :: "'w \<Rightarrow> time"
  osJSON :: "logrecord list \<Rightarrow> go_err + string"
  osJSON1 :: "logrecord \<Rightarrow> go_err + string"
  osGzip :: "string \<Rightarrow> string"
  osNewReq :: "string \<Rightarrow> go_err option"
  osDo :: "http_req \<Rightarrow> 'w \<Rightarrow> (go_err + int) \<times> 'w"
  osProduce :: "kafka_msg list \<Rightarrow> 'w \<Rightarrow> go_err option list \<times> 'w"
  osNewClient :: "sasl \<Rightarrow> go_err option"
  osOut :: "string \<Rightarrow> 'w \<Rightarrow> go_err option \<times> 'w"
  osBuf :: "string \<Rightarrow> 'w \<Rightarrow> string"
  osSetBuf :: "string \<Rightarrow> string \<Rightarrow> 'w \<Rightarrow> 'w"

definition s3_as_sink :: "'w outside \<Rightarrow> s3_sink \<Rightarrow> 'w sink" where
  "s3_as_sink os s = \<lparr>skName = s3sName s, skType = ''s3'',
     skWrite = s3_Write (encodeNDJSONGzip (osJSON1 os) (osGzip os)) (osPut os) (osClock os) s,
     skClose = (\<lambda>w. (None, w))\<rparr>"

definition http_as_sink :: "'w outside \<Rightarrow> http_sink \<Rightarrow> 'w sink" where
  "http_as_sink os s = \<lparr>skName = hsName s, skType = ''http'',
     skWrite = http_Write (osJSON os) (osGzip os) (osNewReq os) (osDo os) s,
     skClose = (\<lambda>w. (None, w))\<rparr>"

definition kafka_as_sink :: "'w outside \<Rightarrow> kafka_sink \<Rightarrow> 'w sink" where
  "kafka_as_sink os s = \<lparr>skName = kfName s, skType = ''kafka'',
     skWrite = kafka_Write (osJSON1 os) (osProduce os) s, skClose = (\<lambda>w. (None, w))\<rparr>"

definition stdout_sink_Write ::
    "'w outside \<Rightarrow> stdout_sink \<Rightarrow> logrecord list \<Rightarrow> 'w \<Rightarrow> go_err option \<times> 'w" where
  "stdout_sink_Write os s rs w =
     (case stdout_Write (osOut os) (osJSON1 os) rs (s\<lparr>sdBuf := osBuf os (sdName s) w\<rparr>) w of
        (r, s1, w1) \<Rightarrow> (r, osSetBuf os (sdName s) (sdBuf s1) w1))"

definition stdout_as_sink :: "'w outside \<Rightarrow> stdout_sink \<Rightarrow> 'w sink" where
  "stdout_as_sink os s = \<lparr>skName = sdName s, skType = ''stdout'', skWrite = stdout_sink_Write os s,
     skClose = (\<lambda>w. osOut os (osBuf os (sdName s) w) w)\<rparr>"

definition buildOne :: "'w outside \<Rightarrow> sink_cfg \<Rightarrow> go_err + 'w sink" where
  "buildOne os c =
     (let q = ''sink '' @ go_quote (csName c) in
      if csType c = ''s3'' then
        (case csS3 c of
           None \<Rightarrow> Inl (ErrMsg (q @ '': s3 config required''))
         | Some s \<Rightarrow>
             (let region = (if s3Region s = [] then ''us-east-1'' else s3Region s) in
              case osAwsConfig os region (s3AssumeRole s) (s3ExternalID s) of
                Some e \<Rightarrow> Inl (Wrapped (q @ '': aws config'') e)
              | None \<Rightarrow> map_sum id (s3_as_sink os) (s3_New (csName c) (Some s) True)))
      else if csType c = ''http'' then map_sum id (http_as_sink os) (http_New (csName c) (csHTTP c))
      else if csType c = ''kafka'' then
        map_sum id (kafka_as_sink os) (kafka_New (csName c) (csKafka c) False (osNewClient os))
      else if csType c = ''stdout'' then
        map_sum id (stdout_as_sink os)
          (stdout_New (csName c) (case csStdout c of None \<Rightarrow> [] | Some s \<Rightarrow> odFormat s))
      else Inl (ErrMsg (q @ '': unsupported type '' @ go_quote (csType c))))"

definition Build :: "'w outside \<Rightarrow> sink_cfg \<Rightarrow> go_err + 'w sink" where
  "Build os c = buildOne os c"

definition retry_of :: "retry_policy \<Rightarrow> retry_config" where
  "retry_of r = \<lparr>rcMaxAttempts = rpMaxAttempts r, rcInitialWait = rpInitialWait r,
                 rcMaxWait = rpMaxWait r, rcMultiplier = rpMultiplier r\<rparr>"

text \<open>Metrics, then retry, then dead letters, then the filter, innermost first.\<close>

definition decorate ::
    "'w env \<Rightarrow> 'w dlq option \<Rightarrow> 'w probe option \<Rightarrow> sink_cfg \<Rightarrow> 'w sink \<Rightarrow> 'w sink" where
  "decorate en q probe c s =
     (let s1 = WithMetrics en s probe;
          s2 = WithRetry en s1 (retry_of (csRetry c));
          s3 = WithDLQ en s2 q
      in case csFilter c of
           None \<Rightarrow> s3
         | Some f \<Rightarrow> WithFilter s3 \<lparr>fcMinSeverity = sfMinSeverity f, fcSeverities = sfSeverities f\<rparr>)"

fun close_all :: "'w sink list \<Rightarrow> 'w \<Rightarrow> 'w" where
  "close_all [] w = w"
| "close_all (s # ss) w = close_all ss (snd (skClose s w))"

fun build_from ::
    "'w outside \<Rightarrow> 'w env \<Rightarrow> 'w dlq option \<Rightarrow> 'w probe option \<Rightarrow> 'w sink list \<Rightarrow> sink_cfg list \<Rightarrow> 'w
       \<Rightarrow> (go_err + 'w sink list) \<times> 'w" where
  "build_from os en q probe out [] w = (Inr out, w)"
| "build_from os en q probe out (c # cs) w =
     (case buildOne os c of
        Inl e \<Rightarrow> (Inl e, close_all out w)
      | Inr s \<Rightarrow> build_from os en q probe (out @ [decorate en q probe c s]) cs w)"

definition BuildAll ::
    "'w outside \<Rightarrow> 'w env \<Rightarrow> config \<Rightarrow> 'w dlq option \<Rightarrow> 'w probe option \<Rightarrow> 'w
       \<Rightarrow> (go_err + 'w sink list) \<times> 'w" where
  "BuildAll os en cfg q probe w = build_from os en q probe [] (cfSinks cfg) w"

end
