(* ===== verification/MemStore.thy ===== *)
theory MemStore
  imports State
begin

text \<open>
  internal/state/memory/store.go: the in-memory store, a map keyed by "instance|logfile".
  The map is an association list (Go's iteration order is unspecified; List inherits it).
\<close>

type_synonym mem_store = "(string \<times> checkpoint) list"

definition mem_New :: mem_store where "mem_New = []"

definition store_key :: "string \<Rightarrow> string \<Rightarrow> string" where
  "store_key inst logfile = inst @ ''|'' @ logfile"

definition mem_Get :: "string \<Rightarrow> string \<Rightarrow> mem_store \<Rightarrow> (go_err + checkpoint option) \<times> mem_store" where
  "mem_Get inst f s = (Inr (map_of s (store_key inst f)), s)"

definition mem_Set :: "string \<Rightarrow> string \<Rightarrow> checkpoint \<Rightarrow> mem_store \<Rightarrow> go_err option \<times> mem_store" where
  "mem_Set inst f c s = (None, AList.update (store_key inst f) c s)"

definition mem_List :: "string \<Rightarrow> mem_store \<Rightarrow> (go_err + file_checkpoint list) \<times> mem_store" where
  "mem_List inst s =
     (let pfx = inst @ ''|'' in
      (Inr (map (\<lambda>(k, c). \<lparr>fcLogFile = drop (length pfx) k, fcCheckpoint = c\<rparr>)
              (filter (\<lambda>(k, c). length k > length pfx \<and> take (length pfx) k = pfx) s)), s))"

definition mem_Delete :: "string \<Rightarrow> string \<Rightarrow> mem_store \<Rightarrow> go_err option \<times> mem_store" where
  "mem_Delete inst f s = (None, AList.delete (store_key inst f) s)"

definition memory_store :: "mem_store state_store" where
  "memory_store = \<lparr>ssGet = mem_Get, ssSet = mem_Set, ssList = mem_List, ssDelete = mem_Delete\<rparr>"

section \<open>The key is injective for instance names without a bar\<close>

definition no_bar :: "string \<Rightarrow> bool" where "no_bar i = (CHR ''|'' \<notin> set i)"

lemma store_key_eq:
  assumes "no_bar i" "no_bar j"
  shows "store_key i f = store_key j g \<longleftrightarrow> i = j \<and> f = g"
proof
  assume eq: "store_key i f = store_key j g"
  have len: "length i = length j"
    using index_byte_append [of "CHR ''|''" i f] index_byte_append [of "CHR ''|''" j g] eq assms
    by (simp add: store_key_def no_bar_def)
  then show "i = j \<and> f = g" using eq by (simp add: store_key_def)
qed simp

lemma store_key_prefix:
  assumes "no_bar i" "no_bar j"
  shows "take (length i + 1) (store_key j g) = i @ ''|'' \<longleftrightarrow> i = j"
proof
  assume "take (length i + 1) (store_key j g) = i @ ''|''"
  then have "store_key j g = store_key i (drop (length i + 1) (store_key j g))"
    by (metis append_take_drop_id append.assoc store_key_def)
  then show "i = j" using store_key_eq [OF assms] store_key_eq [OF assms(2,1)] by metis
qed (simp add: store_key_def)

definition mem_view :: "mem_store \<Rightarrow> string \<Rightarrow> string \<Rightarrow> checkpoint option" where
  "mem_view s i f = map_of s (store_key i f)"

interpretation memst: state_store mem_Get mem_Set mem_Delete mem_view "\<lambda>c. c" no_bar
proof unfold_locales
  fix i f s r s'
  assume "mem_Get i f s = (Inr r, s')"
  then show "r = mem_view s i f" by (auto simp: mem_Get_def mem_view_def)
qed (auto simp: mem_Get_def mem_Set_def mem_Delete_def mem_view_def update_conv' delete_conv'
      store_key_eq)

section \<open>List\<close>

text \<open>
  With keys built by store_key from bar-free instance names, List returns exactly the
  checkpoints of the instance (of non-empty log file names).
\<close>

definition mem_wf :: "mem_store \<Rightarrow> bool" where
  "mem_wf s = (distinct (map fst s) \<and> (\<forall>k \<in> fst ` set s. \<exists>i f. no_bar i \<and> k = store_key i f))"

lemma mem_wf_New: "mem_wf mem_New"
  by (simp add: mem_wf_def mem_New_def)

lemma mem_wf_Set:
  assumes "mem_wf s" "no_bar i" shows "mem_wf (snd (mem_Set i f c s))"
proof -
  have d: "distinct (map fst (AList.update (store_key i f) c s))"
    using assms(1) by (simp add: mem_wf_def distinct_update)
  have k: "fst ` set (AList.update (store_key i f) c s) = insert (store_key i f) (fst ` set s)"
    using dom_update [of "store_key i f" c s] by (simp add: dom_map_of_conv_image_fst)
  show ?thesis using assms d unfolding mem_wf_def mem_Set_def snd_conv k by auto
qed

lemma mem_wf_Delete: "mem_wf s \<Longrightarrow> mem_wf (snd (mem_Delete i f s))"
  by (auto simp: mem_wf_def mem_Delete_def AList.delete_eq intro!: distinct_map_filter)

definition own_key :: "string \<Rightarrow> string \<Rightarrow> bool" where
  "own_key i k = (length i + 1 < length k \<and> take (length i + 1) k = i @ ''|'')"

lemma own_key_store_key: "own_key i (store_key i f) \<longleftrightarrow> f \<noteq> []"
  by (simp add: own_key_def store_key_def)

lemma own_keyD: "own_key i k \<Longrightarrow> k = store_key i (drop (length i + 1) k)"
  using append_take_drop_id [of "length i + 1" k] by (simp add: own_key_def store_key_def)

lemma mem_List_member:
  "\<lparr>fcLogFile = f, fcCheckpoint = c\<rparr> \<in> set (projr (fst (mem_List i s))) \<longleftrightarrow>
     (\<exists>k. (k, c) \<in> set s \<and> own_key i k \<and> f = drop (length i + 1) k)"
proof -
  have eq: "set (projr (fst (mem_List i s))) =
      (\<lambda>(k, c). \<lparr>fcLogFile = drop (length i + 1) k, fcCheckpoint = c\<rparr>) `
        {(k, c) \<in> set s. own_key i k}"
    unfolding mem_List_def Let_def fst_conv sum.sel set_map set_filter own_key_def
    by (simp add: split_def)
  show ?thesis unfolding eq by (auto simp: image_iff)
qed

lemma mem_List_exact:
  assumes wf: "mem_wf s" and f: "f \<noteq> []"
  shows "\<lparr>fcLogFile = f, fcCheckpoint = c\<rparr> \<in> set (projr (fst (mem_List i s)))
         \<longleftrightarrow> mem_view s i f = Some c" (is "?L \<longleftrightarrow> ?R")
proof
  assume ?L
  then obtain k where k: "(k, c) \<in> set s" "own_key i k" "f = drop (length i + 1) k"
    unfolding mem_List_member by blast
  have "k = store_key i f" using own_keyD [OF k(2)] k(3) by simp
  with k(1) wf show ?R unfolding mem_view_def mem_wf_def by (metis map_of_eq_Some_iff)
next
  assume ?R
  then have "(store_key i f, c) \<in> set s" unfolding mem_view_def by (rule map_of_SomeD)
  moreover have "own_key i (store_key i f)" "f = drop (length i + 1) (store_key i f)"
    using f by (simp_all add: own_key_store_key) (simp add: store_key_def)
  ultimately show ?L unfolding mem_List_member by blast
qed

end
