(* ===== verification/FileStore.thy ===== *)
theory FileStore
  imports MemStore
begin

text \<open>
  internal/state/file/store.go: the JSON-file store.  The state holds the data in memory
  and the document on disk (its JSON is modelled by the object it encodes: a field the
  encoder omits is None).  Every file-system call of a persist has its outcome in a script
  of the world, so that each error path can be taken.
\<close>

record entry =
  enMarker :: string
  enBytesWritten :: int
  enFileSize :: int
  enLastWrittenMS :: int
  enSkipCont :: bool

type_synonym file_data = "(string \<times> entry) list"

text \<open>
  The JSON object of an entry: skip_continuation has omitempty.  The document is absent,
  empty, not JSON, or an object whose checkpoints field may be null.
\<close>

record json_entry =
  jeMarker :: string
  jeBytesWritten :: int
  jeFileSize :: int
  jeLastWrittenMS :: int
  jeSkipCont :: "bool option"

datatype disk_doc = NoFile | EmptyFile | NotJson | Doc "(string \<times> json_entry) list option"

definition encode_entry :: "entry \<Rightarrow> json_entry" where
  "encode_entry e = \<lparr>jeMarker = enMarker e, jeBytesWritten = enBytesWritten e,
     jeFileSize = enFileSize e, jeLastWrittenMS = enLastWrittenMS e,
     jeSkipCont = (if enSkipCont e then Some True else None)\<rparr>"

definition decode_entry :: "json_entry \<Rightarrow> entry" where
  "decode_entry j = \<lparr>enMarker = jeMarker j, enBytesWritten = jeBytesWritten j,
     enFileSize = jeFileSize j, enLastWrittenMS = jeLastWrittenMS j,
     enSkipCont = (case jeSkipCont j of None \<Rightarrow> False | Some b \<Rightarrow> b)\<rparr>"

definition marshal :: "file_data \<Rightarrow> disk_doc" where
  "marshal d = Doc (Some (map (\<lambda>(k, e). (k, encode_entry e)) d))"

text \<open>The outcome of each call of one persist (None is success).\<close>

record io_outcome =
  ioMkdir :: "go_err option"
  ioCreate :: "go_err option"
  ioWrite :: "go_err option"
  ioSync :: "go_err option"
  ioClose :: "go_err option"
  ioRename :: "go_err option"

definition io_ok :: io_outcome where
  "io_ok = \<lparr>ioMkdir = None, ioCreate = None, ioWrite = None, ioSync = None, ioClose = None,
            ioRename = None\<rparr>"

record file_store =
  fsPath :: string
  fsData :: file_data
  fsDisk :: disk_doc
  fsIO :: "io_outcome list"

section \<open>Open and load\<close>

definition file_load :: "(go_err + unit) \<Rightarrow> disk_doc \<Rightarrow> go_err + file_data" where
  "file_load readOutcome disk =
     (if disk = NoFile then Inr []
      else (case readOutcome of
              Inl e \<Rightarrow> Inl (Wrapped ''file store read'' e)
            | Inr _ \<Rightarrow>
                (case disk of
                   NoFile \<Rightarrow> Inr []
                 | EmptyFile \<Rightarrow> Inr []
                 | NotJson \<Rightarrow> Inl (Wrapped ''file store parse'' (ErrMsg ''invalid character''))
                 | Doc None \<Rightarrow> Inr []
                 | Doc (Some d) \<Rightarrow> Inr (map (\<lambda>(k, j). (k, decode_entry j)) d))))"

definition file_Open :: "string \<Rightarrow> (go_err + unit) \<Rightarrow> disk_doc \<Rightarrow> io_outcome list \<Rightarrow> go_err + file_store"
where
  "file_Open path readOutcome disk io =
     (if path = [] then Inl (ErrMsg ''file store: path is required'')
      else (case file_load readOutcome disk of
              Inl e \<Rightarrow> Inl e
            | Inr d \<Rightarrow> Inr \<lparr>fsPath = path, fsData = d, fsDisk = disk, fsIO = io\<rparr>))"

section \<open>Persisting\<close>

definition next_io :: "file_store \<Rightarrow> io_outcome" where
  "next_io s = (case fsIO s of [] \<Rightarrow> io_ok | x # _ \<Rightarrow> x)"

definition persistLocked :: "file_store \<Rightarrow> go_err option \<times> file_store" where
  "persistLocked s =
     (let io = next_io s; s1 = s\<lparr>fsIO := tl (fsIO s)\<rparr> in
      case ioMkdir io of Some e \<Rightarrow> (Some (Wrapped ''file store mkdir'' e), s1) | None \<Rightarrow>
      (case ioCreate io of Some e \<Rightarrow> (Some (Wrapped ''file store tmp'' e), s1) | None \<Rightarrow>
      (case ioWrite io of Some e \<Rightarrow> (Some (Wrapped ''file store write'' e), s1) | None \<Rightarrow>
      (case ioSync io of Some e \<Rightarrow> (Some (Wrapped ''file store fsync'' e), s1) | None \<Rightarrow>
      (case ioClose io of Some e \<Rightarrow> (Some (Wrapped ''file store close tmp'' e), s1) | None \<Rightarrow>
      (case ioRename io of Some e \<Rightarrow> (Some (Wrapped ''file store rename'' e), s1) | None \<Rightarrow>
         (None, s1\<lparr>fsDisk := marshal (fsData s)\<rparr>)))))))"

section \<open>Operations\<close>

definition entry_of :: "checkpoint \<Rightarrow> entry" where
  "entry_of c = \<lparr>enMarker = ckMarker c, enBytesWritten = ckBytesWritten c,
     enFileSize = ckFileSize c, enLastWrittenMS = unix_milli (ckLastWritten c),
     enSkipCont = ckSkip c\<rparr>"

definition ckpt_of :: "entry \<Rightarrow> checkpoint" where
  "ckpt_of e = \<lparr>ckMarker = enMarker e, ckBytesWritten = enBytesWritten e,
     ckFileSize = enFileSize e,
     ckLastWritten = (if enLastWrittenMS e > 0 then time_of_unix_milli (enLastWrittenMS e)
                      else time_zero),
     ckSkip = enSkipCont e\<rparr>"

definition file_Get :: "string \<Rightarrow> string \<Rightarrow> file_store \<Rightarrow> (go_err + checkpoint option) \<times> file_store"
where
  "file_Get inst f s = (Inr (map_option ckpt_of (map_of (fsData s) (store_key inst f))), s)"

definition file_Set :: "string \<Rightarrow> string \<Rightarrow> checkpoint \<Rightarrow> file_store \<Rightarrow> go_err option \<times> file_store"
where
  "file_Set inst f c s =
     persistLocked (s\<lparr>fsData := AList.update (store_key inst f) (entry_of c) (fsData s)\<rparr>)"

definition file_List :: "string \<Rightarrow> file_store \<Rightarrow> (go_err + file_checkpoint list) \<times> file_store" where
  "file_List inst s =
     (let pfx = inst @ ''|'' in
      (Inr (map (\<lambda>(k, e). \<lparr>fcLogFile = drop (length pfx) k, fcCheckpoint = ckpt_of e\<rparr>)
              (filter (\<lambda>(k, e). \<not> (length k < length pfx \<or> take (length pfx) k \<noteq> pfx))
                 (fsData s))), s))"

definition file_Delete :: "string \<Rightarrow> string \<Rightarrow> file_store \<Rightarrow> go_err option \<times> file_store" where
  "file_Delete inst f s =
     persistLocked (s\<lparr>fsData := AList.delete (store_key inst f) (fsData s)\<rparr>)"

definition json_store :: "file_store state_store" where
  "json_store = \<lparr>ssGet = file_Get, ssSet = file_Set, ssList = file_List, ssDelete = file_Delete\<rparr>"

section \<open>Lemmas\<close>

text \<open>The form a checkpoint has once it went through an entry.\<close>

definition ms_norm :: "checkpoint \<Rightarrow> checkpoint" where
  "ms_norm c = ckpt_of (entry_of c)"

lemma ms_norm_fields [simp]:
  "ckMarker (ms_norm c) = ckMarker c" "ckSkip (ms_norm c) = ckSkip c"
  "ckFileSize (ms_norm c) = ckFileSize c" "ckBytesWritten (ms_norm c) = ckBytesWritten c"
  by (simp_all add: ms_norm_def ckpt_of_def entry_of_def)

lemma ms_norm_idem: "ms_norm (ms_norm c) = ms_norm c"
  by (simp add: ms_norm_def ckpt_of_def entry_of_def)

lemma ms_norm_exact:
  assumes "ckLastWritten c = time_zero \<or> (\<exists>ms > 0. ckLastWritten c = time_of_unix_milli ms)"
  shows "ms_norm c = c"
  using assms by (cases c) (auto simp: ms_norm_def ckpt_of_def entry_of_def)

lemma persist_data [simp]: "fsData (snd (persistLocked s)) = fsData s"
  by (simp add: persistLocked_def Let_def split: option.splits)

lemma persist_disk:
  "fsDisk (snd (persistLocked s)) =
     (if fst (persistLocked s) = None then marshal (fsData s) else fsDisk s)"
  by (simp add: persistLocked_def Let_def split: option.splits)

lemma persist_path [simp]: "fsPath (snd (persistLocked s)) = fsPath s"
  by (simp add: persistLocked_def Let_def split: option.splits)

definition file_view :: "file_store \<Rightarrow> string \<Rightarrow> string \<Rightarrow> checkpoint option" where
  "file_view s i f = map_option ckpt_of (map_of (fsData s) (store_key i f))"

lemma file_Set_view:
  assumes "no_bar i" "no_bar j" "file_Set i f c s = (x, s')"
  shows "file_view s' j g = (if (j, g) = (i, f) then Some (ms_norm c) else file_view s j g)"
proof -
  have "fsData s' = AList.update (store_key i f) (entry_of c) (fsData s)"
    using arg_cong [OF assms(3), of "\<lambda>p. fsData (snd p)"] by (simp add: file_Set_def)
  then show ?thesis using assms(1,2)
    by (auto simp: file_view_def update_conv' store_key_eq ms_norm_def)
qed

lemma file_Delete_view:
  assumes "no_bar i" "no_bar j" "file_Delete i f s = (x, s')"
  shows "file_view s' j g = (if (j, g) = (i, f) then None else file_view s j g)"
proof -
  have "fsData s' = AList.delete (store_key i f) (fsData s)"
    using arg_cong [OF assms(3), of "\<lambda>p. fsData (snd p)"] by (simp add: file_Delete_def)
  then show ?thesis using assms(1,2) by (auto simp: file_view_def delete_conv' store_key_eq)
qed

interpretation filest: state_store file_Get file_Set file_Delete file_view ms_norm no_bar
proof unfold_locales
  fix i f s r s'
  assume "file_Get i f s = (Inr r, s')"
  then show "r = file_view s i f" by (auto simp: file_Get_def file_view_def)
qed (auto simp: file_Get_def file_Set_view file_Delete_view)

text \<open>Loading a marshalled document gives back the data.\<close>

lemma decode_encode_entry [simp]: "decode_entry (encode_entry e) = e"
  by (cases e) (simp add: decode_entry_def encode_entry_def)

lemma file_load_marshal: "file_load (Inr ()) (marshal d) = Inr d"
  by (simp add: file_load_def marshal_def comp_def split_def)

section \<open>Crashes\<close>

datatype store_op = SetOp string string checkpoint | DelOp string string

fun apply_op :: "store_op \<Rightarrow> file_store \<Rightarrow> go_err option \<times> file_store" where
  "apply_op (SetOp i f c) s = file_Set i f c s"
| "apply_op (DelOp i f) s = file_Delete i f s"

definition run_ops :: "store_op list \<Rightarrow> file_store \<Rightarrow> file_store" where
  "run_ops ops s = foldl (\<lambda>s op. snd (apply_op op s)) s ops"

text \<open>The data of the store when an operation last succeeded, d before any has.\<close>

fun last_acked :: "store_op list \<Rightarrow> file_store \<Rightarrow> file_data \<Rightarrow> file_data" where
  "last_acked [] s d = d"
| "last_acked (op # ops) s d =
     (case apply_op op s of (r, s1) \<Rightarrow> last_acked ops s1 (if r = None then fsData s1 else d))"

lemma apply_op_disk:
  "apply_op op s = (r, s1) \<Longrightarrow> fsDisk s1 = (if r = None then marshal (fsData s1) else fsDisk s)"
  by (cases op) (auto simp: file_Set_def file_Delete_def persistLocked_def Let_def split: option.splits)



end
