(* ===== verification/SqliteStore.thy ===== *)
theory SqliteStore
  imports FileStore
begin

text \<open>
  internal/state/sqlite/store.go: the SQLite store.  The state is the two tables and the
  schema version; a SQL statement is the change it makes to them.  Each statement first
  takes its outcome from a script (None is success), so that every error path is a branch;
  a failing statement changes nothing.  SQLite itself is not modelled beyond this.
\<close>

record ckpt_row =
  rowInstance :: string
  rowLogFile :: string
  rowMarker :: string
  rowBytesWritten :: int
  rowFileSize :: int
  rowLastWritten :: int
  rowSkip :: bool
  rowUpdatedAt :: int

record sqlite_db =
  dbCheckpoints :: "ckpt_row list"
  dbDLQ :: "dlq_item list"
  dbNextID :: int
  dbVersions :: "int list"
  dbHasSkipCol :: bool
  dbNow :: time
  dbScript :: "go_err option list"

definition sql :: "sqlite_db \<Rightarrow> go_err option \<times> sqlite_db" where
  "sql db = (case dbScript db of [] \<Rightarrow> (None, db) | x # xs \<Rightarrow> (x, db\<lparr>dbScript := xs\<rparr>))"

definition fail :: "string \<Rightarrow> go_err \<Rightarrow> go_err + 'a" where
  "fail what e = Inl (Wrapped what e)"

section \<open>Migration\<close>

definition schemaVersion :: int where "schemaVersion = 2"

definition max_version :: "sqlite_db \<Rightarrow> int" where
  "max_version db = foldr max (dbVersions db) 0"

definition migrate :: "sqlite_db \<Rightarrow> go_err option \<times> sqlite_db" where
  "migrate db =
     (case sql db of (Some e, d1) \<Rightarrow> (Some (Wrapped ''sqlite migrate ddl'' e), d1) | (None, d1) \<Rightarrow>
     (case sql d1 of (Some e, d2) \<Rightarrow> (Some (Wrapped ''sqlite migrate read version'' e), d2) | (None, d2) \<Rightarrow>
        if max_version d2 \<ge> schemaVersion then (None, d2)
        else (case sql d2 of (Some e, d3) \<Rightarrow> (Some (Wrapped ''sqlite migrate v2 probe'' e), d3) | (None, d3) \<Rightarrow>
          (case (if dbHasSkipCol d3 then (None, d3)
                 else (case sql d3 of (Some e, d4) \<Rightarrow> (Some (Wrapped ''sqlite migrate v2'' e), d4)
                       | (None, d4) \<Rightarrow> (None, d4\<lparr>dbHasSkipCol := True\<rparr>))) of
             (Some e, d4) \<Rightarrow> (Some e, d4)
           | (None, d4) \<Rightarrow>
               (case sql d4 of
                  (Some e, d5) \<Rightarrow> (Some (Wrapped ''sqlite migrate bump version'' e), d5)
                | (None, d5) \<Rightarrow> (None, d5\<lparr>dbVersions := schemaVersion # dbVersions d5\<rparr>))))))"

text \<open>Open and Close; the handle is gone after the first Close, whatever it returns.\<close>

definition sqlite_Open :: "string \<Rightarrow> sqlite_db \<Rightarrow> go_err option \<times> sqlite_db" where
  "sqlite_Open path db =
     (if path = [] then (Some (ErrMsg ''sqlite: path is required''), db)
      else (case sql db of (Some e, d1) \<Rightarrow> (Some (Wrapped ''sqlite open'' e), d1) | (None, d1) \<Rightarrow>
           (case sql d1 of (Some e, d2) \<Rightarrow> (Some (Wrapped ''sqlite ping'' e), d2) | (None, d2) \<Rightarrow>
            migrate d2)))"

definition sqlite_Close :: "bool \<Rightarrow> sqlite_db \<Rightarrow> go_err option \<times> bool \<times> sqlite_db" where
  "sqlite_Close opened db =
     (if \<not> opened then (None, False, db)
      else (case sql db of (r, d1) \<Rightarrow> (r, False, d1)))"

text \<open>
  A store that opened is at the current schema and holds what it held; opening it again runs
  no migration.
\<close>

lemma sql_keeps:
  assumes "sql db = (x, d)"
  shows "dbCheckpoints d = dbCheckpoints db" "dbDLQ d = dbDLQ db" "dbVersions d = dbVersions db"
    "dbHasSkipCol d = dbHasSkipCol db" "dbNextID d = dbNextID db"
  using assms by (auto simp: sql_def split: list.splits)

lemma migrate_keeps:
  assumes "migrate db = (x, d)"
  shows "dbCheckpoints d = dbCheckpoints db \<and> dbDLQ d = dbDLQ db \<and> dbNextID d = dbNextID db"
  using assms by (auto simp: migrate_def sql_keeps split: prod.splits option.splits if_splits)

lemma migrate_done:
  assumes "migrate db = (None, d)"
  shows "schemaVersion \<le> max_version d"
    "schemaVersion \<le> max_version db \<longrightarrow> dbHasSkipCol db \<Longrightarrow> dbHasSkipCol d"
  using assms by (auto simp: migrate_def max_version_def sql_keeps split: prod.splits option.splits if_splits)

lemma sqlite_Open_ready:
  assumes "sqlite_Open path db = (None, d)"
  shows "path \<noteq> [] \<and> schemaVersion \<le> max_version d \<and> dbCheckpoints d = dbCheckpoints db \<and> dbDLQ d = dbDLQ db
    \<and> ((schemaVersion \<le> max_version db \<longrightarrow> dbHasSkipCol db) \<longrightarrow> dbHasSkipCol d)"
proof -
  obtain d1 d2 where d: "sql db = (None, d1)" "sql d1 = (None, d2)" "migrate d2 = (None, d)" "path \<noteq> []"
    using assms by (auto simp: sqlite_Open_def split: if_splits prod.splits option.splits)
  have "max_version d2 = max_version db" by (simp add: max_version_def sql_keeps [OF d(1)] sql_keeps [OF d(2)])
  then show ?thesis
    using d(4) migrate_done [OF d(3)] migrate_keeps [OF d(3)] by (simp add: sql_keeps [OF d(1)] sql_keeps [OF d(2)])
qed

section \<open>Checkpoints\<close>

definition is_row :: "string \<Rightarrow> string \<Rightarrow> ckpt_row \<Rightarrow> bool" where
  "is_row i f r = (rowInstance r = i \<and> rowLogFile r = f)"

definition scan_row :: "ckpt_row \<Rightarrow> checkpoint" where
  "scan_row r = \<lparr>ckMarker = rowMarker r, ckBytesWritten = rowBytesWritten r,
     ckFileSize = rowFileSize r,
     ckLastWritten = (if rowLastWritten r > 0 then time_of_unix_milli (rowLastWritten r)
                      else time_zero),
     ckSkip = rowSkip r\<rparr>"

definition sqlite_Get :: "string \<Rightarrow> string \<Rightarrow> sqlite_db \<Rightarrow> (go_err + checkpoint option) \<times> sqlite_db"
where
  "sqlite_Get inst f db =
     (case sql db of
        (Some e, d1) \<Rightarrow> (fail ''sqlite get'' e, d1)
      | (None, d1) \<Rightarrow> (Inr (map_option scan_row (find (is_row inst f) (dbCheckpoints d1))), d1))"

definition new_row :: "string \<Rightarrow> string \<Rightarrow> checkpoint \<Rightarrow> time \<Rightarrow> ckpt_row" where
  "new_row i f c now = \<lparr>rowInstance = i, rowLogFile = f, rowMarker = ckMarker c,
     rowBytesWritten = ckBytesWritten c, rowFileSize = ckFileSize c,
     rowLastWritten = unix_milli (ckLastWritten c), rowSkip = ckSkip c,
     rowUpdatedAt = unix_milli now\<rparr>"

text \<open>INSERT ... ON CONFLICT DO UPDATE: the row of the pair is replaced, or a row is added.\<close>

definition upsert :: "ckpt_row \<Rightarrow> ckpt_row list \<Rightarrow> ckpt_row list" where
  "upsert r rows =
     (if list_ex (is_row (rowInstance r) (rowLogFile r)) rows
      then map (\<lambda>x. if is_row (rowInstance r) (rowLogFile r) x then r else x) rows
      else rows @ [r])"

definition sqlite_Set :: "string \<Rightarrow> string \<Rightarrow> checkpoint \<Rightarrow> sqlite_db \<Rightarrow> go_err option \<times> sqlite_db"
where
  "sqlite_Set inst f c db =
     (case sql db of
        (Some e, d1) \<Rightarrow> (Some (Wrapped ''sqlite set'' e), d1)
      | (None, d1) \<Rightarrow>
          (None, d1\<lparr>dbCheckpoints := upsert (new_row inst f c (dbNow d1)) (dbCheckpoints d1)\<rparr>))"

definition sqlite_List :: "string \<Rightarrow> sqlite_db \<Rightarrow> (go_err + file_checkpoint list) \<times> sqlite_db" where
  "sqlite_List inst db =
     (case sql db of
        (Some e, d1) \<Rightarrow> (fail ''sqlite list'' e, d1)
      | (None, d1) \<Rightarrow>
          (Inr (map (\<lambda>r. \<lparr>fcLogFile = rowLogFile r, fcCheckpoint = scan_row r\<rparr>)
                  (filter (\<lambda>r. rowInstance r = inst) (dbCheckpoints d1))), d1))"

definition sqlite_Delete :: "string \<Rightarrow> string \<Rightarrow> sqlite_db \<Rightarrow> go_err option \<times> sqlite_db" where
  "sqlite_Delete inst f db =
     (case sql db of
        (Some e, d1) \<Rightarrow> (Some (Wrapped ''sqlite delete'' e), d1)
      | (None, d1) \<Rightarrow>
          (None, d1\<lparr>dbCheckpoints := filter (\<lambda>r. \<not> is_row inst f r) (dbCheckpoints d1)\<rparr>))"

definition GCCheckpoints :: "time \<Rightarrow> bool \<Rightarrow> sqlite_db \<Rightarrow> (go_err + int) \<times> sqlite_db" where
  "GCCheckpoints olderThan dryRun db =
     (let cutoff = unix_milli olderThan in
      case sql db of
        (Some e, d1) \<Rightarrow> (fail (if dryRun then ''sqlite gc count'' else ''sqlite gc'') e, d1)
      | (None, d1) \<Rightarrow>
          (let n = int (length (filter (\<lambda>r. rowUpdatedAt r < cutoff) (dbCheckpoints d1))) in
           if dryRun then (Inr n, d1)
           else (Inr n, d1\<lparr>dbCheckpoints :=
                   filter (\<lambda>r. \<not> rowUpdatedAt r < cutoff) (dbCheckpoints d1)\<rparr>)))"

section \<open>Dead letters\<close>

text \<open>sinks_dlq is kept in ascending order of its AUTOINCREMENT id.\<close>

definition sqlite_DLQPut ::
    "string \<Rightarrow> string \<Rightarrow> string \<Rightarrow> string \<Rightarrow> sqlite_db \<Rightarrow> go_err option \<times> sqlite_db" where
  "sqlite_DLQPut sinkName batchID payload reason db =
     (case sql db of
        (Some e, d1) \<Rightarrow> (Some (Wrapped ''sqlite dlq put'' e), d1)
      | (None, d1) \<Rightarrow>
          (let it = \<lparr>diID = dbNextID d1, diSinkName = sinkName, diBatchID = batchID,
                     diPayload = payload, diReason = reason,
                     diCreatedAt = time_of_unix_milli (unix_milli (dbNow d1))\<rparr>
           in (None, d1\<lparr>dbDLQ := dbDLQ d1 @ [it], dbNextID := dbNextID d1 + 1\<rparr>)))"

definition sqlite_DLQList :: "dlq_query \<Rightarrow> sqlite_db \<Rightarrow> (go_err + dlq_item list) \<times> sqlite_db" where
  "sqlite_DLQList q db =
     (case sql db of
        (Some e, d1) \<Rightarrow> (fail ''sqlite dlq list'' e, d1)
      | (None, d1) \<Rightarrow> (Inr (dlq_page q (dbDLQ d1)), d1))"

definition sqlite_DLQDelete :: "int \<Rightarrow> sqlite_db \<Rightarrow> go_err option \<times> sqlite_db" where
  "sqlite_DLQDelete n db =
     (case sql db of
        (Some e, d1) \<Rightarrow> (Some (Wrapped ''sqlite dlq delete'' e), d1)
      | (None, d1) \<Rightarrow> (None, d1\<lparr>dbDLQ := filter (\<lambda>it. diID it \<noteq> n) (dbDLQ d1)\<rparr>))"

definition sqlite_DLQCount :: "string \<Rightarrow> sqlite_db \<Rightarrow> (go_err + int) \<times> sqlite_db" where
  "sqlite_DLQCount name db =
     (case sql db of
        (Some e, d1) \<Rightarrow> (fail ''sqlite dlq count'' e, d1)
      | (None, d1) \<Rightarrow>
          (Inr (int (length (filter (of_sink name) (dbDLQ d1)))), d1))"

definition sqlite_DLQPurge :: "string \<Rightarrow> sqlite_db \<Rightarrow> (go_err + int) \<times> sqlite_db" where
  "sqlite_DLQPurge name db =
     (case sql db of
        (Some e, d1) \<Rightarrow> (fail ''sqlite dlq purge'' e, d1)
      | (None, d1) \<Rightarrow>
          (Inr (int (length (filter (of_sink name) (dbDLQ d1)))),
           d1\<lparr>dbDLQ := filter (\<lambda>it. \<not> of_sink name it) (dbDLQ d1)\<rparr>))"

definition sqlite_store :: "sqlite_db state_store" where
  "sqlite_store = \<lparr>ssGet = sqlite_Get, ssSet = sqlite_Set, ssList = sqlite_List,
                   ssDelete = sqlite_Delete\<rparr>"

definition sqlite_dlq :: "sqlite_db dlq" where
  "sqlite_dlq = \<lparr>dlqPut = sqlite_DLQPut, dlqList = sqlite_DLQList, dlqDelete = sqlite_DLQDelete,
                 dlqCount = sqlite_DLQCount, dlqPurge = sqlite_DLQPurge\<rparr>"

section \<open>Lemmas\<close>

lemma sql_tables [simp]:
  assumes "sql db = (x, d)"
  shows "dbCheckpoints d = dbCheckpoints db" "dbDLQ d = dbDLQ db" "dbNextID d = dbNextID db"
    "dbVersions d = dbVersions db" "dbHasSkipCol d = dbHasSkipCol db" "dbNow d = dbNow db"
  using assms by (auto simp: sql_def split: list.splits)

definition sqlite_view :: "sqlite_db \<Rightarrow> string \<Rightarrow> string \<Rightarrow> checkpoint option" where
  "sqlite_view db i f = map_option scan_row (find (is_row i f) (dbCheckpoints db))"

lemma is_row_new_row [simp]: "is_row j g (new_row i f c t) \<longleftrightarrow> i = j \<and> f = g"
  by (simp add: is_row_def new_row_def)

lemma scan_new_row [simp]: "scan_row (new_row i f c t) = ms_norm c"
  by (simp add: scan_row_def new_row_def ms_norm_def ckpt_of_def entry_of_def)

lemma find_append: "find p (xs @ ys) = (case find p xs of None \<Rightarrow> find p ys | Some x \<Rightarrow> Some x)"
  by (induction xs) auto

lemma find_None_list_ex: "find p xs = None \<longleftrightarrow> \<not> list_ex p xs"
  by (induction xs) auto

lemma find_replace_other:
  "\<forall>x. p x \<longrightarrow> \<not> q x \<Longrightarrow> \<not> q r \<Longrightarrow> find q (map (\<lambda>x. if p x then r else x) xs) = find q xs"
  by (induction xs) auto

lemma find_replace_same:
  "list_ex p xs \<Longrightarrow> p r \<Longrightarrow> find p (map (\<lambda>x. if p x then r else x) xs) = Some r"
  by (induction xs) auto

lemma find_filter_other:
  "\<forall>x. q x \<longrightarrow> \<not> p x \<Longrightarrow> find q (filter (\<lambda>x. \<not> p x) xs) = find q xs"
  by (induction xs) auto

lemma find_upsert:
  "find (is_row j g) (upsert (new_row i f c t) rows) =
     (if (j, g) = (i, f) then Some (new_row i f c t) else find (is_row j g) rows)"
proof -
  have fld: "rowInstance (new_row i f c t) = i" "rowLogFile (new_row i f c t) = f"
    by (simp_all add: new_row_def)
  consider "(j, g) = (i, f)" | "\<forall>x. is_row i f x \<longrightarrow> \<not> is_row j g x" "(j, g) \<noteq> (i, f)"
    by (auto simp: is_row_def)
  then show ?thesis
  proof cases
    case 1
    then show ?thesis
      using find_None_list_ex [of "is_row i f" rows]
      by (cases "list_ex (is_row i f) rows")
        (simp_all add: upsert_def fld find_append find_replace_same)
  next
    case 2
    then have "\<not> is_row j g (new_row i f c t)" by auto
    then have "find (is_row j g) (map (\<lambda>x. if is_row i f x then new_row i f c t else x) rows)
        = find (is_row j g) rows" "find (is_row j g) (rows @ [new_row i f c t]) = find (is_row j g) rows"
      using find_replace_other [OF 2(1)] by (auto simp: find_append split: option.splits)
    then show ?thesis using 2(2) unfolding upsert_def fld by (auto split: if_split)
  qed
qed

lemma sqlite_Get_view:
  "sqlite_Get i f db = (x, d) \<Longrightarrow> sqlite_view d j g = sqlite_view db j g \<and> (\<forall>r. x = Inr r \<longrightarrow> r = sqlite_view db i f)"
  by (auto simp: sqlite_Get_def sqlite_view_def fail_def split: prod.splits option.splits)

lemma sqlite_Set_view:
  "sqlite_Set i f c db = (x, d) \<Longrightarrow>
     sqlite_view d j g =
       (if x = None \<and> (j, g) = (i, f) then Some (ms_norm c) else sqlite_view db j g)"
  by (auto simp: sqlite_Set_def sqlite_view_def find_upsert split: prod.splits option.splits)

lemma sqlite_Delete_view:
  assumes "sqlite_Delete i f db = (x, d)"
  shows "sqlite_view d j g = (if x = None \<and> (j, g) = (i, f) then None else sqlite_view db j g)"
proof (cases "(j, g) = (i, f)")
  case True
  then show ?thesis using assms
    by (auto simp: sqlite_Delete_def sqlite_view_def find_None_iff split: prod.splits option.splits)
next
  case False
  then have "\<forall>x. is_row j g x \<longrightarrow> \<not> is_row i f x" by (auto simp: is_row_def)
  then show ?thesis using assms False
    by (auto simp: sqlite_Delete_def sqlite_view_def find_filter_other
        split: prod.splits option.splits)
qed

interpretation sqlst: state_store sqlite_Get sqlite_Set sqlite_Delete sqlite_view ms_norm "\<lambda>_. True"
  by unfold_locales
    (auto simp: sqlite_Set_view sqlite_Delete_view dest: sqlite_Get_view)

section \<open>Garbage collection and the queue\<close>

definition rows_wf :: "sqlite_db \<Rightarrow> bool" where
  "rows_wf db = distinct (map (\<lambda>r. (rowInstance r, rowLogFile r)) (dbCheckpoints db))"

abbreviation row_key :: "ckpt_row \<Rightarrow> string \<times> string" where
  "row_key r \<equiv> (rowInstance r, rowLogFile r)"

lemma upsert_keys:
  "map row_key (upsert r rows) =
     (if row_key r \<in> set (map row_key rows) then map row_key rows
      else map row_key rows @ [row_key r])"
proof -
  have "list_ex (is_row (rowInstance r) (rowLogFile r)) rows \<longleftrightarrow> row_key r \<in> set (map row_key rows)"
    by (induction rows) (auto simp: is_row_def)
  moreover have "map row_key (map (\<lambda>x. if is_row (rowInstance r) (rowLogFile r) x then r else x) rows)
      = map row_key rows"
    by (simp add: is_row_def)
  ultimately show ?thesis unfolding upsert_def by (simp del: map_map)
qed

lemma rows_wf_Set: "rows_wf db \<Longrightarrow> rows_wf (snd (sqlite_Set i f c db))"
  by (auto simp: rows_wf_def sqlite_Set_def upsert_keys Let_def split: prod.splits option.splits)

lemma rows_wf_Delete: "rows_wf db \<Longrightarrow> rows_wf (snd (sqlite_Delete i f db))"
  by (auto simp: rows_wf_def sqlite_Delete_def distinct_map_filter split: prod.splits option.splits)

definition dlq_wf :: "sqlite_db \<Rightarrow> bool" where
  "dlq_wf db = (sorted_wrt (<) (map diID (dbDLQ db))
                \<and> (\<forall>it \<in> set (dbDLQ db). 0 < diID it \<and> diID it < dbNextID db) \<and> 0 < dbNextID db)"

lemma dlq_wf_cong:
  "dbDLQ d = dbDLQ db \<Longrightarrow> dbNextID d = dbNextID db \<Longrightarrow> dlq_wf d = dlq_wf db"
  by (simp add: dlq_wf_def)

lemma dlq_wf_filter: "dlq_wf db \<Longrightarrow> dlq_wf (db\<lparr>dbDLQ := filter p (dbDLQ db)\<rparr>)"
  by (auto simp: dlq_wf_def sorted_wrt_map sorted_wrt_filter)

lemma dlq_wf_put:
  "dlq_wf db \<Longrightarrow> diID it = dbNextID db \<Longrightarrow>
     dlq_wf (db\<lparr>dbDLQ := dbDLQ db @ [it], dbNextID := dbNextID db + 1\<rparr>)"
  by (auto simp: dlq_wf_def sorted_wrt_append dest!: bspec)

interpretation sqldlq: dead_letters sqlite_DLQPut sqlite_DLQList sqlite_DLQDelete dbDLQ dlq_wf
proof unfold_locales
  fix w s b p r w'
  assume wf: "dlq_wf w" and put: "sqlite_DLQPut s b p r w = (None, w')"
  obtain d where d: "sql w = (None, d)"
    using put by (auto simp: sqlite_DLQPut_def split: prod.splits option.splits)
  have "dlq_wf d" using wf d by (simp cong: dlq_wf_cong)
  then have "dlq_wf w'" using put d
    using dlq_wf_put [of d "\<lparr>diID = dbNextID d, diSinkName = s, diBatchID = b, diPayload = p,
        diReason = r, diCreatedAt = time_of_unix_milli (unix_milli (dbNow d))\<rparr>"]
    by (auto simp: sqlite_DLQPut_def Let_def)
  then show "dlq_wf w' \<and> (\<exists>it. dbDLQ w' = dbDLQ w @ [it] \<and> diSinkName it = s \<and> diBatchID it = b
      \<and> diPayload it = p)"
    using put d by (auto simp: sqlite_DLQPut_def Let_def)
next
  fix w n w'
  assume wf: "dlq_wf w" and del: "sqlite_DLQDelete n w = (None, w')"
  obtain d where d: "sql w = (None, d)"
    using del by (auto simp: sqlite_DLQDelete_def split: prod.splits option.splits)
  have "dlq_wf d" using wf d by (simp cong: dlq_wf_cong)
  then show "dlq_wf w' \<and> dbDLQ w' = filter (\<lambda>it. diID it \<noteq> n) (dbDLQ w)"
    using del d dlq_wf_filter [of d] by (auto simp: sqlite_DLQDelete_def)
qed (auto simp: dlq_wf_def sqlite_DLQPut_def sqlite_DLQList_def sqlite_DLQDelete_def fail_def
      Let_def split: prod.splits option.splits)

section \<open>Garbage collection\<close>

lemma find_filter_same:
  "find p xs = Some x \<Longrightarrow> q x \<Longrightarrow> find p (filter q xs) = Some x"
  by (induction xs) (auto split: if_splits)

lemma rows_wf_GC:
  assumes "rows_wf db" "GCCheckpoints t dry db = (r, db')"
  shows "rows_wf db'"
  using assms by (auto simp: GCCheckpoints_def rows_wf_def Let_def distinct_map_filter split: prod.splits option.splits if_splits)

text \<open>C31. Garbage collection never removes a live position: a checkpoint written at or after the
  cutoff is still read back; a dry run removes nothing; the dead letters are not touched; and
  the pairs of the table stay unique.\<close>

theorem gc_spares_fresh_checkpoints:
  assumes "rows_wf db" "sqlite_Set i f c db = (None, d1)" "GCCheckpoints olderThan dry d1 = (Inr n, d2)"
    and "unix_milli olderThan \<le> unix_milli (dbNow db)"
  shows "sqlite_view d2 i f = Some (ms_norm c) \<and> dbDLQ d2 = dbDLQ d1 \<and> rows_wf d2
    \<and> (dry \<longrightarrow> dbCheckpoints d2 = dbCheckpoints d1)
    \<and> n = int (length (filter (\<lambda>r. rowUpdatedAt r < unix_milli olderThan) (dbCheckpoints d1)))"
proof -
  obtain d0 where d0: "sql db = (None, d0)" "d1 = d0\<lparr>dbCheckpoints := upsert (new_row i f c (dbNow d0)) (dbCheckpoints d0)\<rparr>"
    using assms(2) by (auto simp: sqlite_Set_def split: prod.splits option.splits)
  have r: "find (is_row i f) (dbCheckpoints d1) = Some (new_row i f c (dbNow db))"
    using find_upsert [of i f i f c "dbNow d0" "dbCheckpoints d0"] d0 sql_tables(6) [OF d0(1)] by simp
  obtain d where d: "sql d1 = (None, d)" "dbCheckpoints d = dbCheckpoints d1" "dbDLQ d = dbDLQ d1"
      "d2 = (if dry then d else d\<lparr>dbCheckpoints :=
          filter (\<lambda>r. \<not> rowUpdatedAt r < unix_milli olderThan) (dbCheckpoints d)\<rparr>)"
      "n = int (length (filter (\<lambda>r. rowUpdatedAt r < unix_milli olderThan) (dbCheckpoints d)))"
    using assms(3) by (auto simp: GCCheckpoints_def fail_def Let_def split: prod.splits option.splits if_splits)
  have "\<not> rowUpdatedAt (new_row i f c (dbNow db)) < unix_milli olderThan"
    using assms(4) by (simp add: new_row_def)
  then have "find (is_row i f) (dbCheckpoints d2) = Some (new_row i f c (dbNow db))"
    using r d(2,4) find_filter_same [OF r] by simp
  moreover have "rows_wf d1" using rows_wf_Set [OF assms(1), of i f c] assms(2) by simp
  ultimately show ?thesis
    using d rows_wf_GC [OF _ assms(3)] by (auto simp: sqlite_view_def)
qed

theorem gc_spares_fresh_checkpoints_witness:
  "\<exists>d1 d2 n. sqlite_Set ''db'' ''a.log'' zero_ckpt \<lparr>dbCheckpoints = [], dbDLQ = [], dbNextID = 1, dbVersions = [2],
       dbHasSkipCol = True, dbNow = unix_epoch, dbScript = []\<rparr> = (None, d1)
     \<and> GCCheckpoints unix_epoch False d1 = (Inr n, d2) \<and> sqlite_view d2 ''db'' ''a.log'' = Some (ms_norm zero_ckpt)"
proof -
  let ?db = "\<lparr>dbCheckpoints = [], dbDLQ = [], dbNextID = 1, dbVersions = [2],
       dbHasSkipCol = True, dbNow = unix_epoch, dbScript = []\<rparr>"
  obtain d1 where d1: "sqlite_Set ''db'' ''a.log'' zero_ckpt ?db = (None, d1)"
    by (auto simp: sqlite_Set_def sql_def)
  then have "dbScript d1 = []" by (auto simp: sqlite_Set_def sql_def)
  then obtain n d2 where d2: "GCCheckpoints unix_epoch False d1 = (Inr n, d2)"
    by (auto simp: GCCheckpoints_def sql_def Let_def)
  have "rows_wf ?db" by (simp add: rows_wf_def)
  then show ?thesis using gc_spares_fresh_checkpoints [OF _ d1 d2] d1 d2 by simp
qed

end
