(* ===== verification/Delivery.thy ===== *)
theory Delivery
  imports Factory SqliteStore
begin

text \<open>
  What an acknowledged Write means, for the bare sinks and through every decorator: the
  batch was accepted by the destination or parked as a dead letter, and a refused batch left
  neither behind.  accepted is what the destination has taken so far.
\<close>

section \<open>The contract of a sink\<close>

locale sink_contract =
  fixes wr :: "logrecord list \<Rightarrow> 'w \<Rightarrow> go_err option \<times> 'w"
    and accepted :: "'w \<Rightarrow> logrecord list"
  assumes ack: "wr rs w = (None, w') \<Longrightarrow> accepted w' = accepted w @ rs"
    and nack: "wr rs w = (Some e, w') \<Longrightarrow> accepted w' = accepted w"
begin

text \<open>Writing a list of batches, stopping at the first error, accepts a prefix of them.\<close>

fun write_all :: "logrecord list list \<Rightarrow> 'w \<Rightarrow> nat \<times> 'w" where
  "write_all [] w = (0, w)"
| "write_all (b # bs) w =
     (case wr b w of
        (None, w1) \<Rightarrow> (case write_all bs w1 of (n, w2) \<Rightarrow> (Suc n, w2))
      | (Some e, w1) \<Rightarrow> (0, w1))"

lemma write_all_accepted:
  "write_all bs w = (n, w') \<Longrightarrow> accepted w' = accepted w @ concat (take n bs)"
proof (induction bs arbitrary: w n)
  case (Cons b bs)
  obtain r w1 where b: "wr b w = (r, w1)" by (cases "wr b w")
  show ?case
  proof (cases r)
    case None
    obtain m w2 where m: "write_all bs w1 = (m, w2)" by (cases "write_all bs w1")
    then show ?thesis using Cons b None ack [of b w w1] by auto
  next
    case (Some e)
    then show ?thesis using Cons.prems b nack [of b w e w1] by simp
  qed
qed simp

end

interpretation memsk: sink_contract mem_sink_Write "\<lambda>s. concat (msBatches s)"
  by unfold_locales (auto simp: mem_sink_Write_def split: option.splits)

section \<open>The decorators keep it\<close>

text \<open>An environment leaves an observation alone when its waits do.\<close>

definition sleep_keeps :: "'w env \<Rightarrow> ('w \<Rightarrow> 'a) \<Rightarrow> bool" where
  "sleep_keeps en obs = (\<forall>d w. obs (snd (enSleep en d w)) = obs w)"

definition probe_keeps :: "'w probe \<Rightarrow> ('w \<Rightarrow> 'a) \<Rightarrow> bool" where
  "probe_keeps m obs =
     (\<forall>w. (\<forall>t d n. obs (mpObserveWrite m t d n w) = obs w)
          \<and> (\<forall>i e f t n. obs (mpIncProcessed m i e f t n w) = obs w)
          \<and> (\<forall>i t r n. obs (mpIncFailed m i t r n w) = obs w))"

lemma sleep_keepsD: "sleep_keeps en obs \<Longrightarrow> enSleep en d w = (r, w') \<Longrightarrow> obs w' = obs w"
  by (metis sleep_keeps_def snd_conv)

lemma retry_loop_contract:
  assumes c: "sink_contract (skWrite s) acc" and k: "sleep_keeps en acc"
  shows "retry_loop en s cfg rs attempt left w = (r, w') \<Longrightarrow>
           acc w' = (if r = None then acc w @ rs else acc w)"
proof (induction left arbitrary: attempt w)
  case 0
  then show ?case
    using sink_contract.ack [OF c] sink_contract.nack [OF c]
    by (subst (asm) retry_loop.simps) (auto split: option.splits prod.splits if_splits)
next
  case (Suc k)
  obtain r1 w1 where w1: "skWrite s rs w = (r1, w1)" by (cases "skWrite s rs w")
  show ?case
  proof (cases "enCtx en w")
    case (Some e)
    then show ?thesis using Suc.prems by (subst (asm) retry_loop.simps) auto
  next
    case None
    note ctx = None
    show ?thesis
    proof (cases r1)
      case None
      then show ?thesis using Suc.prems w1 ctx sink_contract.ack [OF c, of rs w w1]
        by (subst (asm) retry_loop.simps) auto
    next
      case (Some e)
      have n: "acc w1 = acc w" using w1 Some sink_contract.nack [OF c, of rs w e w1] by simp
      obtain r2 w2 where w2: "enSleep en (backoff en cfg attempt w1) w1 = (r2, w2)"
        by (cases "enSleep en (backoff en cfg attempt w1) w1")
      have n2: "acc w2 = acc w" using sleep_keepsD [OF k w2] n by simp
      show ?thesis
      proof (cases "as_permanent e \<or> r2 \<noteq> None")
        case True
        then show ?thesis using Suc.prems w1 ctx Some w2 n n2
          by (subst (asm) retry_loop.simps) (auto split: if_splits)
      next
        case False
        then have "retry_loop en s cfg rs (Suc attempt) k w2 = (r, w')"
          using Suc.prems w1 ctx Some w2 by (subst (asm) retry_loop.simps) auto
        then show ?thesis using Suc.IH n2 by metis
      qed
    qed
  qed
qed

lemma retry_contract:
  assumes "sink_contract (skWrite s) acc" "sleep_keeps en acc"
  shows "sink_contract (skWrite (WithRetry en s cfg)) acc"
  using retry_loop_contract [OF assms]
  by unfold_locales (auto simp: WithRetry_def retry_Write_def)

text \<open>The number of attempts: obs counts the calls of the inner Write.\<close>

lemma retry_loop_attempts:
  assumes c: "\<And>rs w. calls (snd (skWrite s rs w)) = calls w + (1 :: nat)" and k: "sleep_keeps en calls"
  shows "calls (snd (retry_loop en s cfg rs attempt left w)) \<le> calls w + Suc left"
proof (induction left arbitrary: attempt w)
  case 0
  show ?case using c [of rs w]
    by (subst retry_loop.simps) (auto split: option.splits prod.splits)
next
  case (Suc k)
  obtain r1 w1 where w1: "skWrite s rs w = (r1, w1)" by (cases "skWrite s rs w")
  have c1: "calls w1 = calls w + 1" using c [of rs w] w1 by simp
  obtain r2 w2 where w2: "enSleep en (backoff en cfg attempt w1) w1 = (r2, w2)"
    by (cases "enSleep en (backoff en cfg attempt w1) w1")
  have c2: "calls w2 = calls w + 1" using sleep_keepsD [OF assms(2) w2] c1 by simp
  have ih: "calls (snd (retry_loop en s cfg rs (Suc attempt) k w2)) \<le> calls w + Suc (Suc k)"
    using Suc.IH [of "Suc attempt" w2] c2 by simp
  show ?case
    by (subst retry_loop.simps) (use w1 w2 c1 c2 ih in \<open>auto split: option.splits\<close>)
qed

lemma metrics_contract:
  assumes c: "sink_contract (skWrite s) acc" and m: "\<And>p. m = Some p \<Longrightarrow> probe_keeps p acc"
  shows "sink_contract (skWrite (WithMetrics en s m)) acc"
proof (cases m)
  case None
  then show ?thesis using c by (simp add: WithMetrics_def)
next
  case (Some p)
  have pk: "probe_keeps p acc" using m Some by simp
  show ?thesis
  proof
    fix rs w w'
    assume "skWrite (WithMetrics en s m) rs w = (None, w')"
    then obtain w1 where "skWrite s rs w = (None, w1)" "acc w' = acc w1"
      using pk by (auto simp: WithMetrics_def Some metrics_Write_def Let_def probe_keeps_def
          split: prod.splits option.splits if_splits)
    then show "acc w' = acc w @ rs" using sink_contract.ack [OF c] by metis
  next
    fix rs w e w'
    assume "skWrite (WithMetrics en s m) rs w = (Some e, w')"
    then obtain w1 where "skWrite s rs w = (Some e, w1)" "acc w' = acc w1"
      using pk by (auto simp: WithMetrics_def Some metrics_Write_def Let_def probe_keeps_def
          split: prod.splits option.splits if_splits)
    then show "acc w' = acc w" using sink_contract.nack [OF c] by metis
  qed
qed

text \<open>An operation that leaves an observation alone.\<close>

definition write_keeps :: "'w sink \<Rightarrow> ('w \<Rightarrow> 'a) \<Rightarrow> bool" where
  "write_keeps s obs = (\<forall>rs w. obs (snd (skWrite s rs w)) = obs w)"

lemma write_keepsD: "write_keeps s obs \<Longrightarrow> skWrite s rs w = (r, w') \<Longrightarrow> obs w' = obs w"
  by (metis write_keeps_def snd_conv)

lemma retry_loop_keeps:
  assumes "write_keeps s obs" and k: "sleep_keeps en obs"
  shows "obs (snd (retry_loop en s cfg rs attempt left w)) = obs w"
proof (induction left arbitrary: attempt w)
  case 0
  show ?case using write_keepsD [OF assms(1)]
    by (subst retry_loop.simps) (auto split: option.splits prod.splits)
next
  case (Suc k)
  obtain r1 w1 where w1: "skWrite s rs w = (r1, w1)" by (cases "skWrite s rs w")
  obtain r2 w2 where w2: "enSleep en (backoff en cfg attempt w1) w1 = (r2, w2)"
    by (cases "enSleep en (backoff en cfg attempt w1) w1")
  have o: "obs w1 = obs w" "obs w2 = obs w"
    using write_keepsD [OF assms(1) w1] sleep_keepsD [OF assms(2) w2] by simp_all
  show ?case
    by (subst retry_loop.simps)
      (use w1 w2 o Suc.IH [of "Suc attempt" w2] in \<open>auto split: option.splits\<close>)
qed

lemma retry_keeps:
  "write_keeps s obs \<Longrightarrow> sleep_keeps en obs \<Longrightarrow> write_keeps (WithRetry en s cfg) obs"
  using retry_loop_keeps [of s obs en]
  by (simp add: write_keeps_def WithRetry_def retry_Write_def)

lemma metrics_keeps:
  "write_keeps s obs \<Longrightarrow> (\<And>p. m = Some p \<Longrightarrow> probe_keeps p obs) \<Longrightarrow>
     write_keeps (WithMetrics en s m) obs"
  by (cases m) (auto simp: write_keeps_def WithMetrics_def metrics_Write_def probe_keeps_def Let_def
      split: prod.splits option.splits, (metis snd_conv)+)

section \<open>The whole stack of a configured sink\<close>

text \<open>
  What a nil Write of a configured sink means for the records its filter keeps: all accepted,
  or one dead letter that holds all of them.
\<close>

definition delivered_or_parked ::
    "('w \<Rightarrow> logrecord list) \<Rightarrow> ('w \<Rightarrow> dlq_item list) \<Rightarrow> 'w env \<Rightarrow> string \<Rightarrow> logrecord list
       \<Rightarrow> 'w \<Rightarrow> 'w \<Rightarrow> bool" where
  "delivered_or_parked acc parked en name kept w w' =
     ((acc w' = acc w @ kept \<and> parked w' = parked w)
      \<or> (acc w' = acc w
         \<and> (\<exists>it. parked w' = parked w @ [it] \<and> diSinkName it = name
               \<and> diBatchID it = lrBatchID (hd kept) \<and> enMarshal en kept = Some (diPayload it))))"

definition cfg_keep :: "sink_cfg \<Rightarrow> logrecord \<Rightarrow> bool" where
  "cfg_keep c r =
     (case csFilter c of None \<Rightarrow> True
      | Some f \<Rightarrow>
          \<not> filter_enabled \<lparr>fcMinSeverity = sfMinSeverity f, fcSeverities = sfSeverities f\<rparr>
          \<or> filter_keep \<lparr>fcMinSeverity = sfMinSeverity f, fcSeverities = sfSeverities f\<rparr> r)"

locale delivery =
  dead_letters "dlqPut q" "dlqList q" "dlqDelete q" parked valid
    for q :: "'w dlq" and parked :: "'w \<Rightarrow> dlq_item list" and valid :: "'w \<Rightarrow> bool" +
  fixes s :: "'w sink" and acc :: "'w \<Rightarrow> logrecord list" and en :: "'w env"
    and probe :: "'w probe option"
  assumes bare: "sink_contract (skWrite s) acc"
    and put_acc: "dlqPut q n b p r w = (x, w') \<Longrightarrow> acc w' = acc w"
    and bare_parked: "write_keeps s parked" and bare_valid: "write_keeps s valid"
    and probe_acc: "probe = Some m \<Longrightarrow> probe_keeps m acc"
    and probe_parked: "probe = Some m \<Longrightarrow> probe_keeps m parked"
    and probe_valid: "probe = Some m \<Longrightarrow> probe_keeps m valid"
    and sleep_acc: "sleep_keeps en acc" and sleep_parked: "sleep_keeps en parked"
    and sleep_valid: "sleep_keeps en valid"
begin

definition tried :: "sink_cfg \<Rightarrow> 'w sink" where
  "tried c = WithRetry en (WithMetrics en s probe) (retry_of (csRetry c))"

lemma tried_contract: "sink_contract (skWrite (tried c)) acc"
  unfolding tried_def by (intro retry_contract metrics_contract bare probe_acc sleep_acc)

lemma tried_parked: "write_keeps (tried c) parked"
  unfolding tried_def by (intro retry_keeps metrics_keeps bare_parked probe_parked sleep_parked)

lemma tried_valid: "write_keeps (tried c) valid"
  unfolding tried_def by (intro retry_keeps metrics_keeps bare_valid probe_valid sleep_valid)

lemma tried_name: "skName (tried c) = skName s"
  by (simp add: tried_def WithRetry_def WithMetrics_def split: option.splits)

lemma dlq_stack:
  assumes v: "valid w" and wr: "dlq_Write en (tried c) q rs w = (r, w')"
  shows "r = None \<Longrightarrow> delivered_or_parked acc parked en (skName s) rs w w'"
    and "r \<noteq> None \<Longrightarrow> acc w' = acc w \<and> parked w' = parked w" and "valid w'"
proof -
  obtain r1 w1 where w1: "skWrite (tried c) rs w = (r1, w1)" by (cases "skWrite (tried c) rs w")
  have k: "parked w1 = parked w" "valid w1"
    using write_keepsD [OF tried_parked w1] write_keepsD [OF tried_valid w1] v by simp_all
  have "(r = None \<longrightarrow> delivered_or_parked acc parked en (skName s) rs w w')
      \<and> (r \<noteq> None \<longrightarrow> acc w' = acc w \<and> parked w' = parked w) \<and> valid w'"
  proof (cases r1)
    case None
    then have "r = None" "w' = w1" using wr w1 by (simp_all add: dlq_Write_def)
    moreover have "acc w1 = acc w @ rs"
      using w1 None sink_contract.ack [OF tried_contract] by blast
    ultimately show ?thesis using k by (simp add: delivered_or_parked_def)
  next
    case (Some e)
    have a1: "acc w1 = acc w" using w1 Some sink_contract.nack [OF tried_contract] by blast
    show ?thesis
    proof (cases "err_is e Canceled \<or> err_is e DeadlineExceeded \<or> rs = [] \<or> enMarshal en rs = None")
      case True
      then have "r = Some e" "w' = w1" using wr w1 Some
        by (auto simp: dlq_Write_def split: if_splits)
      then show ?thesis using a1 k by simp
    next
      case False
      then obtain payload where p: "enMarshal en rs = Some payload" by auto
      obtain pr w2 where put: "dlqPut q (skName s) (lrBatchID (hd rs)) payload (error_text e) w1
          = (pr, w2)"
        by (cases "dlqPut q (skName s) (lrBatchID (hd rs)) payload (error_text e) w1")
      have a2: "acc w2 = acc w" using put_acc [OF put] a1 by simp
      show ?thesis
      proof (cases pr)
        case None
        then have "r = None" "w' = w2" using wr w1 Some False p put
          by (simp_all add: dlq_Write_def tried_name)
        moreover obtain it where "valid w2" "parked w2 = parked w1 @ [it]" "diSinkName it = skName s"
            "diBatchID it = lrBatchID (hd rs)" "diPayload it = payload"
          using put_ok [OF k(2)] put None by blast
        ultimately show ?thesis using a2 k p by (simp add: delivered_or_parked_def)
      next
        case (Some pe)
        then have "r = errors_join [e, pe]" "w' = w2" using wr w1 \<open>r1 = Some e\<close> False p put
          by (simp_all add: dlq_Write_def tried_name)
        then show ?thesis using put_err [OF k(2)] put Some a2 k
          by (auto simp: errors_join_def)
      qed
    qed
  qed
  then show "r = None \<Longrightarrow> delivered_or_parked acc parked en (skName s) rs w w'"
    "r \<noteq> None \<Longrightarrow> acc w' = acc w \<and> parked w' = parked w" "valid w'" by blast+
qed

lemma decorate_write:
  "skWrite (decorate en (Some q) probe c s) rs w =
     (let kept = filter (cfg_keep c) rs in
      if kept = [] \<and> (\<exists>f. csFilter c = Some f \<and>
           filter_enabled \<lparr>fcMinSeverity = sfMinSeverity f, fcSeverities = sfSeverities f\<rparr>)
      then (None, w) else dlq_Write en (tried c) q kept w)"
proof (cases "csFilter c")
  case None
  then have "cfg_keep c = (\<lambda>r. True)" by (simp add: cfg_keep_def fun_eq_iff)
  then show ?thesis using None by (simp add: decorate_def Let_def WithDLQ_def tried_def)
next
  case (Some f)
  let ?f = "\<lparr>fcMinSeverity = sfMinSeverity f, fcSeverities = sfSeverities f\<rparr>"
  have ck: "cfg_keep c = (\<lambda>r. \<not> filter_enabled ?f \<or> filter_keep ?f r)"
    using Some by (simp add: cfg_keep_def fun_eq_iff)
  show ?thesis
  proof (cases "filter_enabled ?f")
    case True
    then have "cfg_keep c = filter_keep ?f" by (simp add: ck fun_eq_iff)
    then show ?thesis using Some True
      by (simp add: decorate_def Let_def WithDLQ_def WithFilter_def keep_sink_def keep_Write_def
          tried_def)
  next
    case False
    then have "cfg_keep c = (\<lambda>r. True)" by (simp add: ck fun_eq_iff)
    then show ?thesis using Some False
      by (simp add: decorate_def Let_def WithDLQ_def WithFilter_def tried_def)
  qed
qed

lemma stack_delivers:
  assumes v: "valid w" and wr: "skWrite (decorate en (Some q) probe c s) rs w = (r, w')"
  shows "r = None \<Longrightarrow> delivered_or_parked acc parked en (skName s) (filter (cfg_keep c) rs) w w'"
    and "r \<noteq> None \<Longrightarrow> acc w' = acc w \<and> parked w' = parked w"
    and "valid w'"
  using wr dlq_stack [OF v] v unfolding decorate_write Let_def
  by (auto simp: delivered_or_parked_def split: if_splits)

end

section \<open>Fan-out\<close>

text \<open>
  Sinks with their own observations: each has a contract and leaves those of the others
  alone.
\<close>

definition indep_sinks :: "('w sink \<times> ('w \<Rightarrow> logrecord list)) list \<Rightarrow> bool" where
  "indep_sinks xs =
     ((\<forall>(s, a) \<in> set xs. sink_contract (skWrite s) a)
      \<and> (\<forall>i < length xs. \<forall>j < length xs. i \<noteq> j \<longrightarrow> write_keeps (fst (xs ! i)) (snd (xs ! j))))"

lemma indep_sinks_tl: "indep_sinks (x # xs) \<Longrightarrow> indep_sinks xs"
proof -
  assume a: "indep_sinks (x # xs)"
  then have "\<And>i j. Suc i < length (x # xs) \<Longrightarrow> Suc j < length (x # xs) \<Longrightarrow> Suc i \<noteq> Suc j \<Longrightarrow>
      write_keeps (fst ((x # xs) ! Suc i)) (snd ((x # xs) ! Suc j))"
    unfolding indep_sinks_def by blast
  then have "\<forall>i < length xs. \<forall>j < length xs. i \<noteq> j \<longrightarrow> write_keeps (fst (xs ! i)) (snd (xs ! j))"
    by simp
  then show ?thesis using a by (simp add: indep_sinks_def)
qed

lemma indep_sinks_hd:
  assumes "indep_sinks ((s, a) # xs)"
  shows "sink_contract (skWrite s) a"
    and "i < length xs \<Longrightarrow> write_keeps s (snd (xs ! i))"
    and "i < length xs \<Longrightarrow> write_keeps (fst (xs ! i)) a"
proof -
  show "sink_contract (skWrite s) a" using assms by (simp add: indep_sinks_def)
  have k: "\<And>i j. i < length ((s, a) # xs) \<Longrightarrow> j < length ((s, a) # xs) \<Longrightarrow> i \<noteq> j \<Longrightarrow>
      write_keeps (fst (((s, a) # xs) ! i)) (snd (((s, a) # xs) ! j))"
    using assms unfolding indep_sinks_def by blast
  show "i < length xs \<Longrightarrow> write_keeps s (snd (xs ! i))" using k [of 0 "Suc i"] by simp
  show "i < length xs \<Longrightarrow> write_keeps (fst (xs ! i)) a" using k [of "Suc i" 0] by simp
qed

lemma fanout_keeps:
  "(\<And>i. i < length xs \<Longrightarrow> write_keeps (fst (xs ! i)) obs) \<Longrightarrow>
     fanout_each (\<lambda>s. skWrite s rs) (map fst xs) w = (errs, w') \<Longrightarrow> obs w' = obs w"
proof (induction xs arbitrary: w w' errs)
  case (Cons x xs)
  obtain r w1 where w1: "skWrite (fst x) rs w = (r, w1)" by (cases "skWrite (fst x) rs w")
  obtain es w2 where w2: "fanout_each (\<lambda>s. skWrite s rs) (map fst xs) w1 = (es, w2)"
    by (cases "fanout_each (\<lambda>s. skWrite s rs) (map fst xs) w1")
  have "obs w1 = obs w" using write_keepsD [OF _ w1] Cons.prems(1) [of 0] by simp
  moreover have "obs w2 = obs w1"
    by (rule Cons.IH [OF _ w2]) (use Cons.prems(1) [of "Suc _"] in simp)
  ultimately show ?case using Cons.prems(2) w1 w2 by simp
qed simp

lemma fanout_each_accepts:
  "indep_sinks xs \<Longrightarrow> fanout_each (\<lambda>s. skWrite s rs) (map fst xs) w = (errs, w') \<Longrightarrow>
     \<exists>acks. length acks = length xs \<and> length (filter Not acks) = length errs
       \<and> (\<forall>i < length xs. snd (xs ! i) w' = snd (xs ! i) w @ (if acks ! i then rs else []))"
proof (induction xs arbitrary: w w' errs)
  case (Cons x xs)
  obtain s a where x: "x = (s, a)" by (cases x)
  obtain r w1 where w1: "skWrite s rs w = (r, w1)" by (cases "skWrite s rs w")
  obtain es w2 where w2: "fanout_each (\<lambda>s. skWrite s rs) (map fst xs) w1 = (es, w2)"
    by (cases "fanout_each (\<lambda>s. skWrite s rs) (map fst xs) w1")
  note h = indep_sinks_hd [OF Cons.prems(1) [unfolded x]]
  have res: "w' = w2" "errs = (case r of None \<Rightarrow> es | Some e \<Rightarrow> Wrapped (''sink '' @ skName s) e # es)"
    using Cons.prems(2) w1 w2 by (simp_all add: x)
  obtain acks where acks: "length acks = length xs" "length (filter Not acks) = length es"
    "\<And>i. i < length xs \<Longrightarrow> snd (xs ! i) w2 = snd (xs ! i) w1 @ (if acks ! i then rs else [])"
    using Cons.IH [OF indep_sinks_tl [OF Cons.prems(1)] w2] by blast
  have a1: "a w1 = a w @ (if r = None then rs else [])"
    using w1 sink_contract.ack [OF h(1)] sink_contract.nack [OF h(1)] by (cases r) auto
  have a2: "a w2 = a w1" by (rule fanout_keeps [OF h(3) w2])
  have rest: "i < length xs \<Longrightarrow> snd (xs ! i) w1 = snd (xs ! i) w" for i
    using write_keepsD [OF h(2) w1] by blast
  have "\<forall>i < length (x # xs). snd ((x # xs) ! i) w' =
      snd ((x # xs) ! i) w @ (if ((r = None) # acks) ! i then rs else [])"
  proof (intro allI impI)
    fix i assume "i < length (x # xs)"
    then show "snd ((x # xs) ! i) w' =
      snd ((x # xs) ! i) w @ (if ((r = None) # acks) ! i then rs else [])"
      using a1 a2 acks(3) rest res by (cases i) (simp_all add: x)
  qed
  moreover have "length (filter Not ((r = None) # acks)) = length errs"
    using acks(2) res(2) by (cases r) simp_all
  ultimately show ?case using acks(1) by (intro exI [of _ "(r = None) # acks"]) simp
qed simp

lemma fanout_Write_None:
  "fanout_Write f rs w = (r, w') \<Longrightarrow>
     \<exists>errs. fanout_each (\<lambda>s. skWrite s rs) (foSinks f) w = (errs, w') \<and> (r = None \<longleftrightarrow> errs = [])"
  by (auto simp: fanout_Write_def split: prod.splits)

section \<open>Backoff\<close>

definition rand_ok :: "'w env \<Rightarrow> bool" where
  "rand_ok en = (\<forall>n w. 0 < n \<longrightarrow> 0 \<le> enRand en n w \<and> enRand en n w < n)"

lemma backoff_value:
  assumes pos: "0 < rcInitialWait cfg" "0 < rcMaxWait cfg" and m: "1 \<le> rcMultiplier cfg"
    and range: "in_i64 \<lfloor>of_int (rcInitialWait cfg) * rcMultiplier cfg ^ (attempt - 1)\<rfloor>"
    and rnd: "rand_ok en"
  defines "d \<equiv> min \<lfloor>of_int (rcInitialWait cfg) * rcMultiplier cfg ^ (attempt - 1)\<rfloor> (rcMaxWait cfg)"
  shows "\<exists>t. backoff en cfg attempt w = Some t \<and> d div 2 \<le> t \<and> t \<le> d"
proof -
  let ?x = "of_int (rcInitialWait cfg) * rcMultiplier cfg ^ (attempt - 1)"
  have "(1 :: rat) \<le> of_int (rcInitialWait cfg)" using pos by simp
  moreover have "1 \<le> rcMultiplier cfg ^ (attempt - 1)" using m by (rule one_le_power)
  ultimately have x1: "1 \<le> ?x" by (metis mult_mono' mult_1 zero_le_one)
  then have t: "to_duration (enOverflow en) ?x = \<lfloor>?x\<rfloor>"
    using range by (simp add: to_duration_def Let_def)
  have d1: "1 \<le> d" using x1 pos by (simp add: d_def le_floor_iff)
  have deq: "(if \<lfloor>?x\<rfloor> > rcMaxWait cfg then rcMaxWait cfg else \<lfloor>?x\<rfloor>) = d" by (simp add: d_def)
  have h: "half d = d div 2" using d1 by (simp add: half_def)
  have b: "0 < d div 2 + 1" using d1 by simp
  have r: "0 \<le> enRand en (d div 2 + 1) w" "enRand en (d div 2 + 1) w < d div 2 + 1"
    using rnd b unfolding rand_ok_def by blast+
  have "backoff en cfg attempt w = Some (d div 2 + enRand en (d div 2 + 1) w)"
    unfolding backoff_def Let_def t deq h using b by simp
  moreover have "d div 2 + enRand en (d div 2 + 1) w \<le> d" using r d1 by linarith
  ultimately show ?thesis using r by auto
qed

end
