(* ===== verification/Rotate.thy ===== *)
theory Rotate
  imports Worker "HOL-Library.Sublist"
begin

text \<open>
  internal/pipeline/worker.go, planRotation: which files a poll drains when hourly-rotated
  files are present, and the checkpoints it seeds so that every hour is read exactly once.
  The loop over the map of bases runs in the order the argument ord gives.
\<close>

section \<open>Grouping\<close>

record rotated_file =
  rfMeta :: file_meta
  rfID :: hour_id

text \<open>The base and hour of a file that is a rotation of a listed file.\<close>

definition rotation_of :: "file_meta list \<Rightarrow> file_meta \<Rightarrow> (string \<times> hour_id) option" where
  "rotation_of files f =
     (case SplitRotated (fmName f) of
        Some (base, hid) \<Rightarrow> if base \<in> fmName ` set files then Some (base, hid) else None
      | None \<Rightarrow> None)"

definition plain_files :: "file_meta list \<Rightarrow> file_meta list" where
  "plain_files files = filter (\<lambda>f. rotation_of files f = None) files"

definition rotations :: "file_meta list \<Rightarrow> string \<Rightarrow> rotated_file list" where
  "rotations files base =
     [\<lparr>rfMeta = f, rfID = hid\<rparr>. f \<leftarrow> files, Some (b, hid) \<leftarrow> [rotation_of files f], b = base]"

definition rotated_bases :: "file_meta list \<Rightarrow> string list" where
  "rotated_bases files = remdups [b. f \<leftarrow> files, Some (b, hid) \<leftarrow> [rotation_of files f]]"

definition base_meta :: "file_meta list \<Rightarrow> string \<Rightarrow> file_meta" where
  "base_meta files base =
     (case map_of (rev (map (\<lambda>f. (fmName f, f)) (plain_files files))) base of
        Some f \<Rightarrow> f | None \<Rightarrow> \<lparr>fmName = [], fmSize = 0, fmLastWrittenMS = 0\<rparr>)"

section \<open>The plan of one base\<close>

text \<open>What the base checkpoint says: its hour, whether that hour is listed, whether it is lost.\<close>

record base_plan =
  bpCkpt :: "checkpoint option"
  bpHour :: "hour_id option"
  bpRotated :: bool
  bpGap :: bool
  bpBackfill :: bool

definition base_plan_of :: "checkpoint option \<Rightarrow> bool \<Rightarrow> rotated_file list \<Rightarrow> base_plan" where
  "base_plan_of bcp fromStart rotated =
     (let bid = (case bcp of None \<Rightarrow> None
                 | Some c \<Rightarrow> map_option fst (ParseHourMarker (ckMarker c)));
          baseRotated = (case bid of None \<Rightarrow> False | Some h \<Rightarrow> list_ex (\<lambda>r. rfID r = h) rotated)
      in \<lparr>bpCkpt = bcp, bpHour = bid, bpRotated = baseRotated,
          bpGap = (case bid of None \<Rightarrow> False
                   | Some h \<Rightarrow> \<not> baseRotated \<and> hour_Compare h (rfID (last rotated)) < 0),
          bpBackfill = (bcp = None \<and> fromStart)\<rparr>)"

text \<open>The marker an unread hour is seeded with; None skips the hour.\<close>

definition seed_for :: "base_plan \<Rightarrow> hour_id \<Rightarrow> string option" where
  "seed_for p h =
     (case bpCkpt p of
        None \<Rightarrow> if bpBackfill p then Some MarkerBeginning else None
      | Some bcp \<Rightarrow>
          (case bpHour p of
             None \<Rightarrow> None
           | Some bid \<Rightarrow>
               if h = bid then Some (ckMarker bcp)
               else if hour_Compare h bid > 0 then
                 (if \<not> bpRotated p \<and> \<not> bpGap p then None else Some MarkerBeginning)
               else None))"

definition still_unread :: "checkpoint \<Rightarrow> file_meta \<Rightarrow> bool" where
  "still_unread rcp f =
     (case ParseHourMarker (ckMarker rcp) of None \<Rightarrow> True | Some (_, off) \<Rightarrow> off < fmSize f)"

fun plan_hours ::
    "'w worker \<Rightarrow> base_plan \<Rightarrow> rotated_file list \<Rightarrow> file_meta list \<Rightarrow> wst \<Rightarrow> 'w
       \<Rightarrow> (go_err + file_meta list) \<times> wst \<times> 'w" where
  "plan_hours wk p [] out ws w = (Inr out, ws, w)"
| "plan_hours wk p (r # rs) out ws w =
     (let name = fmName (rfMeta r) in
      case ssGet (wkStore wk) (wkInstance wk) name w of
        (Inl e, w1) \<Rightarrow> (Inl (Wrapped (''state get '' @ name) e), ws, w1)
      | (Inr (Some rcp), w1) \<Rightarrow>
          plan_hours wk p rs (if still_unread rcp (rfMeta r) then out @ [rfMeta r] else out) ws w1
      | (Inr None, w1) \<Rightarrow>
          (case seed_for p (rfID r) of
             None \<Rightarrow> plan_hours wk p rs out ws w1
           | Some seed \<Rightarrow>
               (case ssSet (wkStore wk) (wkInstance wk) name (zero_ckpt\<lparr>ckMarker := seed\<rparr>) w1 of
                  (Some e, w2) \<Rightarrow>
                    (Inl (Wrapped (''state set '' @ name) e), stateOp ''set'' ''error'' ws, w2)
                | (None, w2) \<Rightarrow>
                    plan_hours wk p rs (out @ [rfMeta r]) (stateOp ''set'' ''ok'' ws) w2)))"

definition plan_base ::
    "'w worker \<Rightarrow> file_meta list \<Rightarrow> string \<Rightarrow> file_meta list \<Rightarrow> wst \<Rightarrow> 'w
       \<Rightarrow> (go_err + file_meta list) \<times> wst \<times> 'w" where
  "plan_base wk files base out ws w =
     (let rotated = sort_key rfID (rotations files base) in
      case ssGet (wkStore wk) (wkInstance wk) base w of
        (Inl e, w1) \<Rightarrow> (Inl (Wrapped (''state get '' @ base) e), ws, w1)
      | (Inr bcp, w1) \<Rightarrow>
          (let p = base_plan_of bcp
                 (startFor wk ws (base_meta files base) = StartFromBeginning) rotated;
               ws1 = (if bpGap p then anomaly ''gap'' ws else ws)
           in case plan_hours wk p rotated out ws1 w1 of
                (Inl e, ws2, w2) \<Rightarrow> (Inl e, ws2, w2)
              | (Inr out2, ws2, w2) \<Rightarrow>
                  if bpRotated p \<or> bpGap p then
                    (case ssSet (wkStore wk) (wkInstance wk) base
                            (zero_ckpt\<lparr>ckMarker := MarkerBeginning\<rparr>) w2 of
                       (Some e, w3) \<Rightarrow>
                         (Inl (Wrapped (''state set '' @ base) e), stateOp ''set'' ''error'' ws2, w3)
                     | (None, w3) \<Rightarrow> (Inr out2, stateOp ''set'' ''ok'' ws2, w3))
                  else (Inr out2, ws2, w2)))"

fun plan_bases ::
    "'w worker \<Rightarrow> file_meta list \<Rightarrow> string list \<Rightarrow> file_meta list \<Rightarrow> wst \<Rightarrow> 'w
       \<Rightarrow> (go_err + file_meta list) \<times> wst \<times> 'w" where
  "plan_bases wk files [] out ws w = (Inr out, ws, w)"
| "plan_bases wk files (b # bs) out ws w =
     (case plan_base wk files b out ws w of
        (Inl e, ws1, w1) \<Rightarrow> (Inl e, ws1, w1)
      | (Inr out1, ws1, w1) \<Rightarrow> plan_bases wk files bs out1 ws1 w1)"

definition planRotation ::
    "'w worker \<Rightarrow> (string list \<Rightarrow> string list) \<Rightarrow> file_meta list \<Rightarrow> wst \<Rightarrow> 'w
       \<Rightarrow> (go_err + file_meta list) \<times> wst \<times> 'w" where
  "planRotation wk ord files ws w =
     plan_bases wk files (ord (rotated_bases files)) (plain_files files) ws w"

section \<open>The files of a plan\<close>

text \<open>
  A plan only ever adds files of the listing, in the order of the hours, and keeps every
  plain file.
\<close>

lemma subseq_set_subset: "subseq xs ys \<Longrightarrow> set xs \<subseteq> set ys"
  by (auto dest: list_emb_set)

lemma plan_hours_files:
  "plan_hours wk p rs out ws w = (Inr out', ws', w') \<Longrightarrow>
     \<exists>ys. out' = out @ map rfMeta ys \<and> subseq ys rs"
proof (induction rs arbitrary: out ws w)
  case (Cons r rs)
  let ?P = "\<lambda>o1 ws1 w1. plan_hours wk p rs o1 ws1 w1 = (Inr out', ws', w')"
  have "(\<exists>ws1 w1. ?P out ws1 w1) \<or> (\<exists>ws1 w1. ?P (out @ [rfMeta r]) ws1 w1)"
    using Cons.prems
    by (auto simp: Let_def split: prod.splits sum.splits option.splits if_splits)
  then show ?case
  proof (elim disjE exE)
    fix ws1 w1 assume "?P out ws1 w1"
    then show ?thesis using Cons.IH by blast
  next
    fix ws1 w1 assume "?P (out @ [rfMeta r]) ws1 w1"
    then obtain ys where "out' = (out @ [rfMeta r]) @ map rfMeta ys" "subseq ys rs"
      using Cons.IH by blast
    then show ?thesis by (intro exI [of _ "r # ys"]) simp
  qed
qed simp

lemma plan_base_files:
  assumes "plan_base wk files b out ws w = (Inr out', ws', w')"
  shows "\<exists>ys. out' = out @ map rfMeta ys \<and> subseq ys (sort_key rfID (rotations files b))"
  using assms plan_hours_files
  by (fastforce simp: plan_base_def Let_def split: prod.splits sum.splits option.splits if_splits)

lemma rotations_files: "rfMeta ` set (rotations files b) \<subseteq> {f \<in> set files. rotation_of files f \<noteq> None}"
  by (auto simp: rotations_def split: option.splits) metis

lemma plan_bases_files:
  "plan_bases wk files bs out ws w = (Inr out', ws', w') \<Longrightarrow>
     \<exists>zs. out' = out @ zs \<and> set zs \<subseteq> {f \<in> set files. rotation_of files f \<noteq> None}"
proof (induction bs arbitrary: out ws w)
  case (Cons b bs)
  then obtain o1 ws1 w1 where b: "plan_base wk files b out ws w = (Inr o1, ws1, w1)"
      "plan_bases wk files bs o1 ws1 w1 = (Inr out', ws', w')"
    by (auto split: prod.splits sum.splits)
  obtain ys where ys: "o1 = out @ map rfMeta ys" "subseq ys (sort_key rfID (rotations files b))"
    using plan_base_files [OF b(1)] by blast
  have "set ys \<subseteq> set (rotations files b)" using subseq_set_subset [OF ys(2)] by simp
  then have m: "set (map rfMeta ys) \<subseteq> {f \<in> set files. rotation_of files f \<noteq> None}"
    using rotations_files [of files b] unfolding set_map by blast
  obtain zs where zs: "out' = o1 @ zs" "set zs \<subseteq> {f \<in> set files. rotation_of files f \<noteq> None}"
    using Cons.IH [OF b(2)] by blast
  show ?case by (rule exI [of _ "map rfMeta ys @ zs"]) (use zs ys(1) m in simp)
qed simp

section \<open>The handover of an hour\<close>

text \<open>The marker an hour file resumes at once its base is planned.\<close>

definition planned_marker :: "base_plan \<Rightarrow> string option \<Rightarrow> rotated_file \<Rightarrow> string option" where
  "planned_marker p found r = (case found of Some m \<Rightarrow> Some m | None \<Rightarrow> seed_for p (rfID r))"

locale rotation = state_store "ssGet (wkStore wk)" "ssSet (wkStore wk)" "ssDelete (wkStore wk)" view norm valid
  for wk :: "'w worker" and view :: "'w \<Rightarrow> string \<Rightarrow> string \<Rightarrow> checkpoint option"
    and norm :: "checkpoint \<Rightarrow> checkpoint" and valid :: "string \<Rightarrow> bool" +
  assumes inst_valid: "valid (wkInstance wk)"
begin

abbreviation ck :: "'w \<Rightarrow> string \<Rightarrow> checkpoint option" where
  "ck w f \<equiv> view w (wkInstance wk) f"

definition mk :: "'w \<Rightarrow> string \<Rightarrow> string option" where
  "mk w f = map_option ckMarker (ck w f)"

lemma get_ck:
  assumes "ssGet (wkStore wk) (wkInstance wk) f w = (x, w')"
  shows "ck w' g = ck w g" "x = Inr r \<Longrightarrow> r = ck w f"
  using assms get_view [OF inst_valid inst_valid] get_ok [OF inst_valid] by auto

lemma set_mk:
  assumes "ssSet (wkStore wk) (wkInstance wk) f c w = (x, w')"
  shows "g \<noteq> f \<Longrightarrow> ck w' g = ck w g" "x = None \<Longrightarrow> mk w' f = Some (ckMarker c)"
    "mk w' f = mk w f \<or> mk w' f = Some (ckMarker c)"
  using assms set_other [OF inst_valid inst_valid, of g f] set_ok [OF inst_valid, of f c w w']
    set_err [OF inst_valid, of f c w _ w']
  by (cases x; fastforce simp: mk_def norm_marker)+

lemma plan_hours_ck:
  "plan_hours wk p rs out ws w = (res, ws', w') \<Longrightarrow> g \<notin> (\<lambda>r. fmName (rfMeta r)) ` set rs \<Longrightarrow> ck w' g = ck w g"
proof (induction rs arbitrary: out ws w)
  case (Cons r rs)
  let ?n = "fmName (rfMeta r)"
  obtain x w1 where g: "ssGet (wkStore wk) (wkInstance wk) ?n w = (x, w1)"
    by (cases "ssGet (wkStore wk) (wkInstance wk) ?n w")
  have k: "ck w1 g = ck w g" using get_ck [OF g] by simp
  obtain y w2 where s: "ssSet (wkStore wk) (wkInstance wk) ?n
      (zero_ckpt\<lparr>ckMarker := the (seed_for p (rfID r))\<rparr>) w1 = (y, w2)"
    by (cases "ssSet (wkStore wk) (wkInstance wk) ?n
      (zero_ckpt\<lparr>ckMarker := the (seed_for p (rfID r))\<rparr>) w1")
  have k2: "ck w2 g = ck w1 g" using set_mk(1) [OF s] Cons.prems(2) by auto
  show ?case using Cons g s k k2
    by (auto simp: Let_def split: sum.splits option.splits)
qed simp

lemma plan_hours_seeds:
  "plan_hours wk p rs out ws w = (res, ws', w') \<Longrightarrow> distinct (map (\<lambda>r. fmName (rfMeta r)) rs) \<Longrightarrow>
     r \<in> set rs \<Longrightarrow>
     (mk w' (fmName (rfMeta r)) = mk w (fmName (rfMeta r))
      \<or> mk w' (fmName (rfMeta r)) = planned_marker p (mk w (fmName (rfMeta r))) r)
     \<and> ((\<exists>out'. res = Inr out') \<longrightarrow> mk w' (fmName (rfMeta r)) = planned_marker p (mk w (fmName (rfMeta r))) r)"
proof (induction rs arbitrary: out ws w)
  case (Cons a rs)
  let ?n = "fmName (rfMeta a)" and ?m = "fmName (rfMeta r)"
  obtain x w1 where g: "ssGet (wkStore wk) (wkInstance wk) ?n w = (x, w1)"
    by (cases "ssGet (wkStore wk) (wkInstance wk) ?n w")
  have k: "\<And>h. ck w1 h = ck w h" using get_ck [OF g] by simp
  then have km: "\<And>h. mk w1 h = mk w h" by (simp add: mk_def)
  let ?seed = "the (seed_for p (rfID a))"
  obtain y w2 where s: "ssSet (wkStore wk) (wkInstance wk) ?n (zero_ckpt\<lparr>ckMarker := ?seed\<rparr>) w1 = (y, w2)"
    by (cases "ssSet (wkStore wk) (wkInstance wk) ?n (zero_ckpt\<lparr>ckMarker := ?seed\<rparr>) w1")
  have d: "?n \<notin> (\<lambda>r. fmName (rfMeta r)) ` set rs" "distinct (map (\<lambda>r. fmName (rfMeta r)) rs)"
    using Cons.prems(2) by simp_all
  show ?case
  proof (cases "r = a")
    case True
    have rest: "plan_hours wk p rs o1 ws1 v = (res, ws', w') \<Longrightarrow> mk w' ?n = mk v ?n" for o1 ws1 v
      using plan_hours_ck [OF _ d(1)] by (simp add: mk_def)
    show ?thesis
    proof (cases "mk w ?n")
      case None
      then have x: "x = Inr None \<or> (\<exists>e. x = Inl e)"
        using get_ck(2) [OF g] by (cases x) (auto simp: mk_def)
      show ?thesis
      proof (cases "seed_for p (rfID a)")
        case None
        then show ?thesis using x Cons.prems(1) g rest km \<open>mk w ?n = None\<close> True
          by (auto simp: planned_marker_def)
      next
        case (Some seed)
        then have y: "y = None \<Longrightarrow> mk w2 ?n = Some seed" "mk w2 ?n = None \<or> mk w2 ?n = Some seed"
          using set_mk(2,3) [OF s] km \<open>mk w ?n = None\<close> by simp_all
        show ?thesis
          using x Cons.prems(1) g s rest [of "out @ [rfMeta a]"] km \<open>mk w ?n = None\<close> True Some y
          by (cases y) (auto simp: planned_marker_def)
      qed
    next
      case (Some m)
      then have "(\<exists>c. x = Inr (Some c)) \<or> (\<exists>e. x = Inl e)"
        using get_ck(2) [OF g] by (cases x) (auto simp: mk_def)
      then show ?thesis using Cons.prems(1) g rest km Some True
        by (auto simp: planned_marker_def)
    qed
  next
    case False
    then have r1: "r \<in> set rs" using Cons.prems(3) by simp
    then have "?m \<noteq> ?n" using d(1) by (metis image_eqI)
    note r = r1 this
    have k2: "ck w2 ?m = ck w ?m" "mk w2 ?m = mk w ?m"
      using set_mk(1) [OF s r(2)] k by (simp_all add: mk_def)
    have "(\<exists>o1 ws1 v. plan_hours wk p rs o1 ws1 v = (res, ws', w') \<and> mk v ?m = mk w ?m)
        \<or> ((\<exists>e. res = Inl e) \<and> mk w' ?m = mk w ?m)"
      using Cons.prems(1) g s km [of ?m] k2(2)
      by (auto simp: Let_def split: sum.splits option.splits)
    then show ?thesis using Cons.IH [OF _ d(2) r(1)] by fastforce
  qed
qed simp

text \<open>
  The plan of a base: whatever fails, the base keeps its marker unless every listed hour has
  been seeded from it, and no hour file that has a checkpoint loses it.
\<close>

lemma plan_base_handover:
  assumes pb: "plan_base wk files b out ws w = (res, ws', w')"
    and dist: "distinct (map (\<lambda>r. fmName (rfMeta r)) (rotations files b))"
    and nb: "b \<notin> (\<lambda>r. fmName (rfMeta r)) ` set (rotations files b)"
  defines "p \<equiv> base_plan_of (ck w b) (startFor wk ws (base_meta files b) = StartFromBeginning)
                 (sort_key rfID (rotations files b))"
  shows "(mk w' b = mk w b \<or>
          (mk w' b = Some MarkerBeginning \<and> (bpRotated p \<or> bpGap p)
           \<and> (\<forall>r \<in> set (rotations files b).
                mk w' (fmName (rfMeta r)) = planned_marker p (mk w (fmName (rfMeta r))) r)))
      \<and> (\<forall>r \<in> set (rotations files b).
           mk w' (fmName (rfMeta r)) = mk w (fmName (rfMeta r))
           \<or> mk w' (fmName (rfMeta r)) = planned_marker p (mk w (fmName (rfMeta r))) r)
      \<and> ((\<exists>out'. res = Inr out') \<longrightarrow>
           mk w' b = (if bpRotated p \<or> bpGap p then Some MarkerBeginning else mk w b)
           \<and> (\<forall>r \<in> set (rotations files b).
                mk w' (fmName (rfMeta r)) = planned_marker p (mk w (fmName (rfMeta r))) r))"
    (is "?base \<and> ?keep \<and> ?done")
proof -
  let ?rs = "sort_key rfID (rotations files b)"
  let ?name = "\<lambda>r. fmName (rfMeta r)"
  let ?ws1 = "if bpGap p then anomaly ''gap'' ws else ws"
  obtain x w1 where g: "ssGet (wkStore wk) (wkInstance wk) b w = (x, w1)"
    by (cases "ssGet (wkStore wk) (wkInstance wk) b w")
  have k: "mk w1 h = mk w h" for h using get_ck(1) [OF g] by (simp add: mk_def)
  show ?thesis
  proof (cases x)
    case (Inl e)
    then show ?thesis using pb g k by (auto simp: plan_base_def)
  next
    case (Inr bcp)
    then have bcp: "bcp = ck w b" using get_ck(2) [OF g] by simp
    obtain r2 ws2 w2 where h: "plan_hours wk p ?rs out ?ws1 w1 = (r2, ws2, w2)"
      by (cases "plan_hours wk p ?rs out ?ws1 w1")
    have d: "distinct (map ?name ?rs)"
      using dist by (metis distinct_map distinct_sort set_sort)
    have nb2: "b \<notin> ?name ` set ?rs" using nb by simp
    have b2: "mk w2 b = mk w b" using plan_hours_ck [OF h nb2] k by (simp add: mk_def)
    have seeds: "(mk w2 (?name r) = mk w (?name r) \<or> mk w2 (?name r) = planned_marker p (mk w (?name r)) r)
        \<and> ((\<exists>out'. r2 = Inr out') \<longrightarrow> mk w2 (?name r) = planned_marker p (mk w (?name r)) r)"
      if "r \<in> set (rotations files b)" for r
      using plan_hours_seeds [OF h d, of r] that k by simp
    obtain y w3 where s: "ssSet (wkStore wk) (wkInstance wk) b
        (zero_ckpt\<lparr>ckMarker := MarkerBeginning\<rparr>) w2 = (y, w3)"
      by (cases "ssSet (wkStore wk) (wkInstance wk) b (zero_ckpt\<lparr>ckMarker := MarkerBeginning\<rparr>) w2")
    have h3: "mk w3 (?name r) = mk w2 (?name r)" if "r \<in> set (rotations files b)" for r
      using set_mk(1) [OF s, of "?name r"] nb that by (fastforce simp: mk_def)
    have res: "plan_base wk files b out ws w =
        (case r2 of Inl e \<Rightarrow> (Inl e, ws2, w2)
         | Inr out2 \<Rightarrow> if bpRotated p \<or> bpGap p
             then (case y of Some e \<Rightarrow> (Inl (Wrapped (''state set '' @ b) e), stateOp ''set'' ''error'' ws2, w3)
                   | None \<Rightarrow> (Inr out2, stateOp ''set'' ''ok'' ws2, w3))
             else (Inr out2, ws2, w2))"
      using g Inr bcp h s by (simp add: plan_base_def p_def Let_def split: sum.splits option.splits)
    consider "w' = w2" "(\<exists>e. r2 = Inl e \<and> res = Inl e) \<or> \<not> (bpRotated p \<or> bpGap p)"
        "(\<exists>o2. res = Inr o2) \<Longrightarrow> \<exists>o2. r2 = Inr o2"
      | "w' = w3" "bpRotated p \<or> bpGap p" "\<exists>o2. r2 = Inr o2" "(\<exists>o2. res = Inr o2) \<Longrightarrow> y = None"
      using pb unfolding res by (cases r2; cases y) (auto split: if_splits)
    then show ?thesis
    proof cases
      case 1
      then show ?thesis using b2 seeds pb res by (auto split: sum.splits if_splits)
    next
      case 2
      then show ?thesis using b2 seeds h3 set_mk(2,3) [OF s] by auto
    qed
  qed
qed

end

section \<open>The rotations of a listing\<close>

lemma rotations_distinct:
  assumes "distinct (map fmName files)"
  shows "distinct (map (\<lambda>r. fmName (rfMeta r)) (rotations files b))"
proof -
  have "map (\<lambda>r. fmName (rfMeta r)) (rotations files b) =
      map fmName (filter (\<lambda>f. \<exists>hid. rotation_of files f = Some (b, hid)) files)"
  proof -
    have "map (\<lambda>r. fmName (rfMeta r)) [\<lparr>rfMeta = f, rfID = hid\<rparr>. f \<leftarrow> xs, Some (b', hid) \<leftarrow> [rotation_of files f], b' = b]
        = map fmName (filter (\<lambda>f. \<exists>hid. rotation_of files f = Some (b, hid)) xs)" for xs
      by (induction xs) (auto split: option.splits)
    then show ?thesis by (simp add: rotations_def)
  qed
  then show ?thesis using assms by (simp add: distinct_map_filter)
qed

lemma rotations_not_base: "b \<notin> (\<lambda>r. fmName (rfMeta r)) ` set (rotations files b)"
proof
  assume "b \<in> (\<lambda>r. fmName (rfMeta r)) ` set (rotations files b)"
  then obtain f hid where f: "rotation_of files f = Some (b, hid)" "fmName f = b"
    by (auto simp: rotations_def split: option.splits) metis
  then have "SplitRotated b = Some (b, hid)"
    by (auto simp: rotation_of_def split: option.splits if_splits)
  then obtain x d h where "rotated_parts b x d h" "b = x @ ''.log''"
    by (auto simp: SplitRotated_iff)
  then show False by (auto simp: rotated_parts_def)
qed

section \<open>What the seeds are\<close>

lemma base_plan_rotated:
  assumes "ParseHourMarker (ckMarker bcp) = Some (bid, off)" "r \<in> set rs" "rfID r = bid"
  shows "bpRotated (base_plan_of (Some bcp) s rs)" "bpHour (base_plan_of (Some bcp) s rs) = Some bid"
    "bpCkpt (base_plan_of (Some bcp) s rs) = Some bcp"
  using assms by (auto simp: base_plan_of_def Let_def list_ex_iff)

lemma seed_rotated:
  assumes "bpCkpt p = Some bcp" "bpHour p = Some bid" "bpRotated p \<or> bpGap p"
  shows "seed_for p h = (if h = bid then Some (ckMarker bcp) else if bid < h then Some MarkerBeginning else None)"
  using assms by (auto simp: seed_for_def hour_Compare_greater)

end
