(* ===== verification/Poll.thy ===== *)
theory Poll
  imports Rotate Drain "HOL-Library.Multiset"
begin

text \<open>
  internal/pipeline/worker.go: one poll of an instance (pollOnce, drainAll) and the loop of
  Run.  What the Go runtime chooses is a record of functions: the iteration order of a map,
  the order in which concurrent drains take the semaphore, and the random draws.  Concurrent
  drains of different files are taken to run one after another in that order.
\<close>

record 'w go_choice =
  goOrder :: "string list \<Rightarrow> string list"
  goSched :: "file_meta list \<Rightarrow> file_meta list"
  goRand :: "'w \<Rightarrow> rat"

section \<open>The first discovery\<close>

definition newest_known :: "time \<Rightarrow> file_checkpoint list \<Rightarrow> time" where
  "newest_known since ks =
     foldl (\<lambda>t k. if t < ckLastWritten (fcCheckpoint k) then ckLastWritten (fcCheckpoint k) else t)
       since ks"

definition first_discovery ::
    "'w worker \<Rightarrow> file_meta list \<Rightarrow> wst \<Rightarrow> 'w \<Rightarrow> go_err option \<times> wst \<times> 'w" where
  "first_discovery wk files ws w =
     (if wsInitialFiles ws \<noteq> None then (None, ws, w)
      else let ws0 = ws\<lparr>wsInitialSize := (\<lambda>_. None)\<rparr> in
        if wkStartFrom wk = StartFromBeginning then (None, ws0\<lparr>wsInitialFiles := Some []\<rparr>, w)
        else (case ssList (wkStore wk) (wkInstance wk) w of
                (Inl e, w1) \<Rightarrow> (Some (Wrapped ''state list'' e), ws0, w1)
              | (Inr kn, w1) \<Rightarrow>
                  (None,
                   ws0\<lparr>wsInitialFiles := Some (if kn = [] then map fmName files else []),
                       wsInitialSize := (if kn = []
                         then map_of (rev (map (\<lambda>f. (fmName f, fmSize f)) files)) else (\<lambda>_. None)),
                       wsHorizon := newest_known (wsHorizon ws) kn\<rparr>, w1)))"

section \<open>Draining the files of a poll\<close>

definition note_throttle :: "go_err option \<Rightarrow> wst \<Rightarrow> wst" where
  "note_throttle err ws =
     (case err of None \<Rightarrow> ws | Some e \<Rightarrow> if IsThrottle e then ws\<lparr>wsThrottled := True\<rparr> else ws)"

fun drain_serial ::
    "'w worker \<Rightarrow> file_meta list \<Rightarrow> nat \<Rightarrow> wst \<Rightarrow> 'w \<Rightarrow> ((nat \<times> go_err option) \<times> wst \<times> 'w) option" where
  "drain_serial wk [] shipped ws w = Some ((shipped, None), ws, w)"
| "drain_serial wk (f # fs) shipped ws w =
     (case enCtx (wkEnv wk) w of
        Some e \<Rightarrow> Some ((shipped, Some e), ws, w)
      | None \<Rightarrow>
          (case drainFile wk f (observeLag (enNow (wkEnv wk) w) f ws) w of
             None \<Rightarrow> None
           | Some ((n, err), ws1, w1) \<Rightarrow>
               drain_serial wk fs (shipped + n) (note_throttle err ws1) w1))"

fun drain_pool ::
    "'w worker \<Rightarrow> file_meta list \<Rightarrow> nat \<Rightarrow> wst \<Rightarrow> 'w \<Rightarrow> (nat \<times> wst \<times> 'w) option" where
  "drain_pool wk [] shipped ws w = Some (shipped, ws, w)"
| "drain_pool wk (f # fs) shipped ws w =
     (case enCtx (wkEnv wk) w of
        Some e \<Rightarrow> drain_pool wk fs shipped ws w
      | None \<Rightarrow>
          (case drainFile wk f (observeLag (enNow (wkEnv wk) w) f ws) w of
             None \<Rightarrow> None
           | Some ((n, err), ws1, w1) \<Rightarrow>
               drain_pool wk fs (shipped + n) (note_throttle err ws1) w1))"

definition drainAll ::
    "'w worker \<Rightarrow> 'w go_choice \<Rightarrow> file_meta list \<Rightarrow> wst \<Rightarrow> 'w
       \<Rightarrow> ((nat \<times> go_err option) \<times> wst \<times> 'w) option" where
  "drainAll wk go files ws w =
     (if \<not> wkDrainSem wk \<or> length files < 2 then drain_serial wk files 0 ws w
      else (case drain_pool wk (goSched go files) 0 ws w of
              None \<Rightarrow> None
            | Some (n, ws1, w1) \<Rightarrow> Some ((n, enCtx (wkEnv wk) w1), ws1, w1)))"

section \<open>A poll\<close>

text \<open>The phases of a planned poll.\<close>

definition drain_phases ::
    "'w worker \<Rightarrow> 'w go_choice \<Rightarrow> file_meta list \<Rightarrow> wst \<Rightarrow> 'w
       \<Rightarrow> ((nat \<times> go_err option) \<times> wst \<times> 'w) option" where
  "drain_phases wk go files ws w =
     (case splitErrorLogPhases files of
        (phase1, phase2) \<Rightarrow>
          (case drainAll wk go phase1 ws w of
             None \<Rightarrow> None
           | Some ((shipped, err), ws1, w1) \<Rightarrow>
               if err \<noteq> None \<or> phase2 = [] then Some ((shipped, err), ws1, w1)
               else (case drainAll wk go phase2 ws1 w1 of
                       None \<Rightarrow> None
                     | Some ((n, err2), ws2, w2) \<Rightarrow> Some ((shipped + n, err2), ws2, w2))))"

definition pollOnce ::
    "'w worker \<Rightarrow> 'w go_choice \<Rightarrow> wst \<Rightarrow> 'w \<Rightarrow> ((nat \<times> go_err option) \<times> wst \<times> 'w) option" where
  "pollOnce wk go ws w =
     (case DiscoverFiles (wkFetcher wk) w of
        None \<Rightarrow> None
      | Some (Inl e, w1) \<Rightarrow> Some ((0, Some (Wrapped ''discover'' e)), ws, w1)
      | Some (Inr found, w1) \<Rightarrow>
          (let files = eligibleFiles wk found in
           case first_discovery wk files ws w1 of
             (Some e, ws1, w2) \<Rightarrow> Some ((0, Some e), ws1, w2)
           | (None, ws1, w2) \<Rightarrow>
               (case planRotation wk (goOrder go) files ws1 w2 of
                  (Inl e, ws2, w3) \<Rightarrow> Some ((0, Some e), ws2, w3)
                | (Inr planned, ws2, w3) \<Rightarrow> drain_phases wk go planned ws2 w3)))"

section \<open>Run\<close>

definition poll_step ::
    "'w worker \<Rightarrow> 'w go_choice \<Rightarrow> duration \<Rightarrow> wst \<Rightarrow> 'w \<Rightarrow> (duration \<times> wst \<times> 'w) option" where
  "poll_step wk go interval ws w =
     (case pollOnce wk go (ws\<lparr>wsThrottled := False\<rparr>) w of
        None \<Rightarrow> None
      | Some ((shipped, err), ws1, w1) \<Rightarrow>
          (let ws2 = (if err \<noteq> None \<and> err_is (the err) Canceled then ws1 else note_throttle err ws1);
               d = nextPollDelay wk (goRand go w1) interval (shipped > 0) (wsThrottled ws2)
           in Some (d, ws2\<lparr>wsPollGauge := Some d\<rparr>, w1)))"

text \<open>The wait is enSleep: an error is the cancelled context.\<close>

partial_function (option) worker_loop ::
    "'w worker \<Rightarrow> 'w go_choice \<Rightarrow> duration \<Rightarrow> wst \<Rightarrow> 'w \<Rightarrow> (wst \<times> 'w) option" where
  "worker_loop wk go interval ws w =
     (case poll_step wk go interval ws w of
        None \<Rightarrow> None
      | Some (interval', ws1, w1) \<Rightarrow>
          if enCtx (wkEnv wk) w1 \<noteq> None then Some (ws1, w1)
          else (case enSleep (wkEnv wk) (Some interval') w1 of
                  (Some e, w2) \<Rightarrow> Some (ws1, w2)
                | (None, w2) \<Rightarrow> worker_loop wk go interval' ws1 w2))"

definition worker_Run :: "'w worker \<Rightarrow> 'w go_choice \<Rightarrow> wst \<Rightarrow> 'w \<Rightarrow> (wst \<times> 'w) option" where
  "worker_Run wk go ws w = worker_loop wk go (wkPollInterval wk) ws w"

section \<open>Pacing\<close>

lemma to_duration_floor: "0 \<le> x \<Longrightarrow> \<lfloor>x\<rfloor> \<le> i64_max \<Longrightarrow> to_duration ov x = \<lfloor>x\<rfloor>"
  by (auto simp: to_duration_def in_i64_def i64_min_def Let_def le_floor_iff intro: order_trans [of _ 0])

text \<open>The delay before jitter of a throttled poll.\<close>

definition throttled_base :: "'w worker \<Rightarrow> duration \<Rightarrow> duration" where
  "throttled_base wk current =
     min (max current (wkPollInterval wk) * 2) (max throttleMaxDelay (wkPollIntervalMax wk))"

lemma throttled_delay:
  assumes rnd: "0 \<le> rnd" "rnd < 1" and pos: "0 < wkPollInterval wk"
    and top: "wkPollIntervalMax wk \<le> 2 ^ 62"
    and "d = throttled_base wk current"
  shows "4 * d div 5 \<le> nextPollDelay wk rnd current active True"
    "5 * nextPollDelay wk rnd current active True \<le> 6 * d"
proof -
  let ?x = "of_int d * (4 / 5 + 2 / 5 * rnd)"
  have d0: "0 \<le> d" using pos by (simp add: assms(5) throttled_base_def throttleMaxDelay_def minute_def)
  have f: "4 / 5 \<le> 4 / 5 + 2 / 5 * rnd" "4 / 5 + 2 / 5 * rnd \<le> 6 / 5" using rnd by simp_all
  have lo: "of_int d * (4 / 5) \<le> ?x" and hi: "?x \<le> of_int d * (6 / 5)"
    using mult_left_mono [OF f(1), of "of_int d"] mult_left_mono [OF f(2), of "of_int d"] d0 by simp_all
  have x0: "0 \<le> ?x" using rnd d0 by simp
  have "d \<le> 2 ^ 62" using top by (simp add: assms(5) throttled_base_def throttleMaxDelay_def minute_def)
  then have "of_int d * (6 / 5 :: rat) \<le> 2 ^ 62 * (6 / 5)"
    by (intro mult_right_mono) (simp_all add: of_int_le_iff [of _ "2 ^ 62", simplified])
  then have "?x \<le> of_int i64_max" using hi by (simp add: i64_max_def)
  then have fl: "\<lfloor>?x\<rfloor> \<le> i64_max" using floor_mono [of ?x "of_int i64_max"] by simp
  have n: "nextPollDelay wk rnd current active True = \<lfloor>?x\<rfloor>"
    using to_duration_floor [OF x0 fl] by (simp add: nextPollDelay_def assms(5) throttled_base_def Let_def)
  have "(of_int (5 * (4 * d div 5)) :: rat) \<le> of_int (4 * d)" by (simp only: of_int_le_iff)
  then have "of_int (4 * d div 5) \<le> of_int d * (4 / 5 :: rat)" by simp
  then show "4 * d div 5 \<le> nextPollDelay wk rnd current active True"
    unfolding n le_floor_iff using lo by (rule order_trans)
  have "(of_int (5 * \<lfloor>?x\<rfloor>) :: rat) \<le> of_int (6 * d)"
    using hi of_int_floor_le [of ?x] unfolding of_int_mult of_int_numeral by linarith
  then show "5 * nextPollDelay wk rnd current active True \<le> 6 * d"
    unfolding n by (simp only: of_int_le_iff)
qed

lemma idle_delay:
  assumes "wkPollInterval wk \<le> current" "0 < wkPollInterval wk" "1 < wkPollMultiplier wk"
    and "wkPollIntervalMax wk = 0 \<or> wkPollInterval wk \<le> wkPollIntervalMax wk"
    and "of_int current * wkPollMultiplier wk \<le> of_int i64_max"
  shows "wkPollInterval wk \<le> nextPollDelay wk rnd current active False"
    "nextPollDelay wk rnd current active False \<le> max (wkPollInterval wk) (wkPollIntervalMax wk)"
proof -
  let ?x = "of_int current * wkPollMultiplier wk"
  have "of_int current * 1 \<le> ?x" using assms(1-3) by (intro mult_left_mono) simp_all
  then have c: "of_int current \<le> ?x" by simp
  moreover have "0 \<le> (of_int current :: rat)" using assms(1,2) by simp
  ultimately have x0: "0 \<le> ?x" by linarith
  have "\<lfloor>?x\<rfloor> \<le> i64_max" using assms(5) floor_mono [of ?x "of_int i64_max"] by simp
  then have t: "to_duration (enOverflow (wkEnv wk)) ?x = \<lfloor>?x\<rfloor>" using to_duration_floor x0 by blast
  have "current \<le> \<lfloor>?x\<rfloor>" using c by (simp add: le_floor_iff)
  then show "wkPollInterval wk \<le> nextPollDelay wk rnd current active False"
    using assms(1,4) by (auto simp: nextPollDelay_def t)
  show "nextPollDelay wk rnd current active False \<le> max (wkPollInterval wk) (wkPollIntervalMax wk)"
    by (auto simp: nextPollDelay_def)
qed

section \<open>Properties\<close>

text \<open>C21. The delay before the next poll never falls below the configured interval and never
  exceeds the larger of the throttle cap and the configured maximum by more than the jitter,
  for intervals up to 96 seconds, whatever the poll shipped and whether it was throttled.\<close>

theorem nextPollDelay_bounds:
  assumes "0 \<le> rnd" "rnd < 1" "0 < wkPollInterval wk" "wkPollInterval wk \<le> 96 * second"
    and "wkPollIntervalMax wk = 0 \<or> wkPollInterval wk \<le> wkPollIntervalMax wk"
    and "wkPollIntervalMax wk \<le> 2 ^ 62" "1 < wkPollMultiplier wk" "wkPollInterval wk \<le> current"
    and "of_int current * wkPollMultiplier wk \<le> of_int i64_max"
  shows "wkPollInterval wk \<le> nextPollDelay wk rnd current active throttled
    \<and> 5 * nextPollDelay wk rnd current active throttled
       \<le> 6 * max throttleMaxDelay (wkPollIntervalMax wk)"
proof

  note idle = idle_delay [OF assms(8,3,7,5,9), of rnd active]
  note thr = throttled_delay [OF assms(1-3,6) refl, of current active]
  have b: "min (2 * wkPollInterval wk) (120 * second) \<le> throttled_base wk current"
      "throttled_base wk current \<le> max throttleMaxDelay (wkPollIntervalMax wk)"
    using assms(8) by (auto simp: throttled_base_def throttleMaxDelay_def minute_def second_def)
  have "wkPollInterval wk \<le> 4 * min (2 * wkPollInterval wk) (120 * second) div 5"
    using assms(3,4) by (auto simp: min_def second_def)
  also have "\<dots> \<le> 4 * throttled_base wk current div 5"
    using b(1) by (intro zdiv_mono1) auto
  finally show "wkPollInterval wk \<le> nextPollDelay wk rnd current active throttled"
    using idle(1) thr(1) by (cases throttled) auto
  have "wkPollInterval wk \<le> throttleMaxDelay" "0 \<le> throttleMaxDelay"
    using assms(4) by (simp_all add: second_def minute_def throttleMaxDelay_def)
  then show "5 * nextPollDelay wk rnd current active throttled
      \<le> 6 * max throttleMaxDelay (wkPollIntervalMax wk)"
    using idle(2) thr(2) b(2) by (cases throttled) auto
qed

text \<open>A worker with a given pace, for the witnesses.\<close>

definition paced :: "duration \<Rightarrow> 'w worker \<Rightarrow> 'w worker" where
  "paced d wk = wk\<lparr>wkPollInterval := d, wkPollIntervalMax := 0, wkPollMultiplier := 2\<rparr>"

theorem nextPollDelay_bounds_witness:
  "\<forall>wk :: unit worker. 10 * second \<le> nextPollDelay (paced (10 * second) wk) (1 / 2) (20 * second) False True"
  using nextPollDelay_bounds [of "1 / 2" "paced (10 * second) wk" "20 * second" False True for wk :: "unit worker"]
  by (simp add: paced_def second_def i64_max_def)

text \<open>C22. With a configured interval above 144 seconds and fixed-interval polling, a throttled
  poll is followed sooner than an unthrottled one: the cap of two minutes applies to the base
  interval as well, so throttling speeds the worker up instead of slowing it down.\<close>

theorem throttling_speeds_up_slow_polls:
  assumes "0 \<le> rnd" "rnd < 1" "144 * second < wkPollInterval wk" "wkPollIntervalMax wk = 0"
  shows "nextPollDelay wk rnd current active True < nextPollDelay wk rnd current active False"
proof -
  have p: "0 < wkPollInterval wk" using assms(3) by (simp add: second_def)
  have "throttled_base wk current = 120 * second"
    using assms(3,4) by (simp add: throttled_base_def throttleMaxDelay_def minute_def second_def)
  then have "5 * nextPollDelay wk rnd current active True \<le> 6 * (120 * second)"
    using throttled_delay(2) [OF assms(1,2) p _ refl, of current active] assms(4) by simp
  moreover have "nextPollDelay wk rnd current active False = wkPollInterval wk"
    using assms(4) by (simp add: nextPollDelay_def)
  ultimately show ?thesis using assms(3) by simp
qed

theorem throttling_speeds_up_slow_polls_witness:
  "\<forall>wk :: unit worker. nextPollDelay (paced (600 * second) wk) 0 (600 * second) False True
     < nextPollDelay (paced (600 * second) wk) 0 (600 * second) False False"
  using throttling_speeds_up_slow_polls [of 0 "paced (600 * second) wk" "600 * second" False for wk :: "unit worker"]
  by (simp add: paced_def second_def)

text \<open>The two phases of a poll split the planned files: none is lost or drained twice, the
  running error log comes after the realtime one, and the order within a phase is kept.\<close>

lemma splitErrorLogPhases_split:
  "mset (fst (splitErrorLogPhases files)) + mset (snd (splitErrorLogPhases files)) = mset files
   \<and> subseq (fst (splitErrorLogPhases files)) files \<and> subseq (snd (splitErrorLogPhases files)) files
   \<and> (\<forall>f \<in> set (snd (splitErrorLogPhases files)). isErrorRunningLog (fmName f) \<and>
        (\<exists>g \<in> set (fst (splitErrorLogPhases files)). isErrorLog (fmName g)))"
proof (cases "list_ex (\<lambda>f. isErrorLog (fmName f)) files")
  case False
  then show ?thesis by (simp add: splitErrorLogPhases_def)
next
  case True
  then obtain g where g: "g \<in> set files" "isErrorLog (fmName g)" by (auto simp: list_ex_iff)
  have "\<not> isErrorRunningLog (fmName g)"
    using g(2) by (simp add: isErrorLog_def isErrorRunningLog_def has_prefix_def)
  moreover have "mset (filter (\<lambda>f. \<not> isErrorRunningLog (fmName f)) files)
      + mset (filter (\<lambda>f. isErrorRunningLog (fmName f)) files) = mset files"
    using multiset_partition [of "mset files" "\<lambda>f. isErrorRunningLog (fmName f)"]
    by (simp add: mset_filter add.commute)
  ultimately show ?thesis using True g by (auto simp: splitErrorLogPhases_def)
qed

lemma splitErrorLogPhases_split_witness:
  "mset (fst (splitErrorLogPhases [\<lparr>fmName = ''error/mysql-error-running.log'', fmSize = 1, fmLastWrittenMS = 1\<rparr>]))
   + mset (snd (splitErrorLogPhases [\<lparr>fmName = ''error/mysql-error-running.log'', fmSize = 1, fmLastWrittenMS = 1\<rparr>]))
   = {#\<lparr>fmName = ''error/mysql-error-running.log'', fmSize = 1, fmLastWrittenMS = 1\<rparr>#}"
  using splitErrorLogPhases_split [of "[\<lparr>fmName = ''error/mysql-error-running.log'', fmSize = 1, fmLastWrittenMS = 1\<rparr>]"]
  by simp

text \<open>start_from applies only to the files of the first discovery of an instance never seen
  before and to files no newer than its newest checkpoint; every other file is new data and is
  read from its beginning.\<close>

lemma startFor_new_data:
  assumes "wsInitialFiles ws = Some names" "fmName file \<notin> set names"
    and "is_zero_time (wsHorizon ws) \<or> is_zero_time (LastWritten file) \<or> wsHorizon ws < LastWritten file"
  shows "startFor wk ws file = StartFromBeginning"
  using assms by (auto simp: startFor_def)

lemma startFor_new_data_witness:
  "\<forall>wk :: unit worker. startFor wk ((initial_wst 0)\<lparr>wsInitialFiles := Some [''old.log'']\<rparr>)
     \<lparr>fmName = ''new.log'', fmSize = 1, fmLastWrittenMS = 1\<rparr> = StartFromBeginning"
  by (intro allI startFor_new_data [where names = "[''old.log'']"]) (simp_all add: initial_wst_def)

end
