(* ===== verification/Replay.thy ===== *)
theory Replay
  imports Delivery
begin

text \<open>
  internal/replay: Run drains the dead letters back through the sinks of the configuration.
  The builder of a bare sink is an argument, as in the code; decode is json.Unmarshal.
\<close>

section \<open>The loop\<close>

record replay_opts =
  opSinkFilter :: string
  opLimit :: int
  opDryRun :: bool
  opPageSize :: int

record replay_result =
  rsReplayed :: nat
  rsFailed :: nat
  rsSkipped :: nat

text \<open>The variables of Run: the result, the last id, the counter and the sinks built so far.\<close>

record 'w replay_vars =
  rvRes :: replay_result
  rvAfter :: int
  rvProcessed :: int
  rvSinks :: "(string \<times> 'w sink) list"

definition replay_start :: "'w replay_vars" where
  "replay_start = \<lparr>rvRes = \<lparr>rsReplayed = 0, rsFailed = 0, rsSkipped = 0\<rparr>, rvAfter = 0,
     rvProcessed = 0, rvSinks = []\<rparr>"

definition add_replayed :: "'w replay_vars \<Rightarrow> 'w replay_vars" where
  "add_replayed v = v\<lparr>rvRes := (rvRes v)\<lparr>rsReplayed := rsReplayed (rvRes v) + 1\<rparr>\<rparr>"

definition add_failed :: "'w replay_vars \<Rightarrow> 'w replay_vars" where
  "add_failed v = v\<lparr>rvRes := (rvRes v)\<lparr>rsFailed := rsFailed (rvRes v) + 1\<rparr>\<rparr>"

definition add_skipped :: "'w replay_vars \<Rightarrow> 'w replay_vars" where
  "add_skipped v = v\<lparr>rvRes := (rvRes v)\<lparr>rsSkipped := rsSkipped (rvRes v) + 1\<rparr>\<rparr>"

definition cfg_by_name :: "config \<Rightarrow> string \<Rightarrow> sink_cfg option" where
  "cfg_by_name cfg = map_of (rev (map (\<lambda>c. (csName c, c)) (cfSinks cfg)))"

text \<open>getSink: nil for a sink the configuration does not have.\<close>

definition get_sink ::
    "'w env \<Rightarrow> (sink_cfg \<Rightarrow> go_err + 'w sink) \<Rightarrow> config \<Rightarrow> string \<Rightarrow> 'w replay_vars
       \<Rightarrow> (go_err + 'w sink option) \<times> 'w replay_vars" where
  "get_sink en build cfg name v =
     (case map_of (rvSinks v) name of
        Some s \<Rightarrow> (Inr (Some s), v)
      | None \<Rightarrow>
          (case cfg_by_name cfg name of
             None \<Rightarrow> (Inr None, v)
           | Some c \<Rightarrow>
               (case build c of
                  Inl e \<Rightarrow> (Inl (Wrapped (''build sink '' @ go_quote name) e), v)
                | Inr bare \<Rightarrow>
                    (let s = WithRetry en bare (retry_of (csRetry c))
                     in (Inr (Some s), v\<lparr>rvSinks := (name, s) # rvSinks v\<rparr>)))))"

text \<open>One item: None to go on, Some r to return r.\<close>

definition replay_item ::
    "'w env \<Rightarrow> (sink_cfg \<Rightarrow> go_err + 'w sink) \<Rightarrow> (string \<Rightarrow> logrecord list option) \<Rightarrow> config
       \<Rightarrow> 'w dlq \<Rightarrow> replay_opts \<Rightarrow> dlq_item \<Rightarrow> 'w replay_vars \<Rightarrow> 'w
       \<Rightarrow> go_err option option \<times> 'w replay_vars \<times> 'w" where
  "replay_item en build decode cfg q opts it v w =
     (let v1 = v\<lparr>rvAfter := diID it\<rparr> in
      if opLimit opts > 0 \<and> rvProcessed v1 \<ge> opLimit opts then (Some None, v1, w)
      else
        (case get_sink en build cfg (diSinkName it) (v1\<lparr>rvProcessed := rvProcessed v1 + 1\<rparr>) of
           (Inl e, v2) \<Rightarrow> (Some (Some e), v2, w)
         | (Inr None, v2) \<Rightarrow> (None, add_skipped v2, w)
         | (Inr (Some s), v2) \<Rightarrow>
             (case decode (diPayload it) of
                None \<Rightarrow> (None, add_failed v2, w)
              | Some recs \<Rightarrow>
                  if opDryRun opts then (None, add_replayed v2, w)
                  else (case skWrite s recs w of
                          (Some e, w1) \<Rightarrow> (None, add_failed v2, w1)
                        | (None, w1) \<Rightarrow>
                            (case dlqDelete q (diID it) w1 of
                               (Some e, w2) \<Rightarrow>
                                 (Some (Some (Wrapped (''dlq delete id='' @ format_int (diID it)
                                    @ '' after successful write'') e)), v2, w2)
                             | (None, w2) \<Rightarrow> (None, add_replayed v2, w2))))))"

fun replay_items ::
    "'w env \<Rightarrow> (sink_cfg \<Rightarrow> go_err + 'w sink) \<Rightarrow> (string \<Rightarrow> logrecord list option) \<Rightarrow> config
       \<Rightarrow> 'w dlq \<Rightarrow> replay_opts \<Rightarrow> dlq_item list \<Rightarrow> 'w replay_vars \<Rightarrow> 'w
       \<Rightarrow> go_err option option \<times> 'w replay_vars \<times> 'w" where
  "replay_items en build decode cfg q opts [] v w = (None, v, w)"
| "replay_items en build decode cfg q opts (it # its) v w =
     (case replay_item en build decode cfg q opts it v w of
        (None, v1, w1) \<Rightarrow> replay_items en build decode cfg q opts its v1 w1
      | res \<Rightarrow> res)"

definition replay_query :: "replay_opts \<Rightarrow> int \<Rightarrow> dlq_query" where
  "replay_query opts after = \<lparr>dqSinkName = opSinkFilter opts, dqAfterID = after,
     dqLimit = (if opPageSize opts \<le> 0 then 100 else opPageSize opts)\<rparr>"

partial_function (option) replay_loop ::
    "'w env \<Rightarrow> (sink_cfg \<Rightarrow> go_err + 'w sink) \<Rightarrow> (string \<Rightarrow> logrecord list option) \<Rightarrow> config
       \<Rightarrow> 'w dlq \<Rightarrow> replay_opts \<Rightarrow> 'w replay_vars \<Rightarrow> 'w
       \<Rightarrow> (go_err option \<times> 'w replay_vars \<times> 'w) option" where
  "replay_loop en build decode cfg q opts v w =
     (case enCtx en w of
        Some e \<Rightarrow> Some (Some e, v, w)
      | None \<Rightarrow>
          (case dlqList q (replay_query opts (rvAfter v)) w of
             (Inl e, w1) \<Rightarrow> Some (Some (Wrapped ''dlq list'' e), v, w1)
           | (Inr items, w1) \<Rightarrow>
               if items = [] then Some (None, v, w1)
               else (case replay_items en build decode cfg q opts items v w1 of
                       (Some r, v1, w2) \<Rightarrow> Some (r, v1, w2)
                     | (None, v1, w2) \<Rightarrow> replay_loop en build decode cfg q opts v1 w2)))"

text \<open>Run closes the sinks it built when it returns.\<close>

definition replay_Run ::
    "'w env \<Rightarrow> (sink_cfg \<Rightarrow> go_err + 'w sink) \<Rightarrow> (string \<Rightarrow> logrecord list option) \<Rightarrow> config
       \<Rightarrow> 'w dlq \<Rightarrow> replay_opts \<Rightarrow> 'w \<Rightarrow> (replay_result \<times> go_err option \<times> 'w) option" where
  "replay_Run en build decode cfg q opts w =
     (case replay_loop en build decode cfg q opts replay_start w of
        None \<Rightarrow> None
      | Some (r, v, w1) \<Rightarrow> Some (rvRes v, r, close_all (map snd (rvSinks v)) w1))"

section \<open>What a replay delivers\<close>

text \<open>
  Sent items are accepted in order; gone are those deleted, extra the one sent whose deletion
  failed.
\<close>

definition body_of :: "(string \<Rightarrow> logrecord list option) \<Rightarrow> dlq_item \<Rightarrow> logrecord list" where
  "body_of decode it = (case decode (diPayload it) of None \<Rightarrow> [] | Some rs \<Rightarrow> rs)"

definition replayed_as ::
    "('w \<Rightarrow> dlq_item list) \<Rightarrow> ('w \<Rightarrow> logrecord list) \<Rightarrow> (string \<Rightarrow> logrecord list option)
       \<Rightarrow> dlq_item list \<Rightarrow> dlq_item list \<Rightarrow> 'w \<Rightarrow> 'w \<Rightarrow> bool" where
  "replayed_as parked acc decode gone extra w w' =
     (set (gone @ extra) \<subseteq> set (parked w) \<and> distinct (map diID (gone @ extra))
      \<and> parked w' = filter (\<lambda>it. diID it \<notin> diID ` set gone) (parked w)
      \<and> acc w' = acc w @ concat (map (body_of decode) (gone @ extra)))"

lemma replayed_as_refl: "replayed_as parked acc decode [] [] w w"
  by (simp add: replayed_as_def)

lemma replayed_as_trans:
  assumes "replayed_as parked acc decode g1 [] w w1" "replayed_as parked acc decode g2 ex w1 w2"
  shows "replayed_as parked acc decode (g1 @ g2) ex w w2"
proof -
  have p: "parked w1 = filter (\<lambda>it. diID it \<notin> diID ` set g1) (parked w)"
    using assms(1) by (simp add: replayed_as_def)
  have "set (g2 @ ex) \<subseteq> set (parked w1)" using assms(2) by (simp add: replayed_as_def)
  then have d: "diID it \<notin> diID ` set g1 \<and> it \<in> set (parked w)" if "it \<in> set (g2 @ ex)" for it
    using that unfolding p by auto
  have "x \<notin> diID ` set g1" if x: "x \<in> diID ` set (g2 @ ex)" for x
  proof -
    obtain it where "x = diID it" "it \<in> set (g2 @ ex)" using x by (rule imageE)
    then show ?thesis using d [of it] by simp
  qed
  then have "diID ` set g1 \<inter> diID ` set (g2 @ ex) = {}" by blast
  moreover have "set (g2 @ ex) \<subseteq> set (parked w)" using d by blast
  moreover have "parked w2 = filter (\<lambda>it. diID it \<notin> diID ` set (g1 @ g2)) (parked w)"
    using assms(2) by (simp add: replayed_as_def p image_Un conj_commute)
  ultimately show ?thesis
    using assms unfolding replayed_as_def by (auto simp: image_Un)
qed

definition close_keeps :: "'w sink \<Rightarrow> ('w \<Rightarrow> 'a) \<Rightarrow> bool" where
  "close_keeps s obs = (\<forall>w. obs (snd (skClose s w)) = obs w)"

lemma close_keeps_retry [simp]: "close_keeps (WithRetry en s rc) obs = close_keeps s obs"
  by (simp add: close_keeps_def WithRetry_def)

lemma close_all_keeps:
  "\<forall>s \<in> set ss. close_keeps s obs \<Longrightarrow> obs (close_all ss w) = obs w"
  by (induction ss arbitrary: w) (auto simp: close_keeps_def)

locale replaying =
  dead_letters "dlqPut q" "dlqList q" "dlqDelete q" parked valid
    for q :: "'w dlq" and parked :: "'w \<Rightarrow> dlq_item list" and valid :: "'w \<Rightarrow> bool" +
  fixes build :: "sink_cfg \<Rightarrow> go_err + 'w sink" and acc :: "'w \<Rightarrow> logrecord list" and en :: "'w env"
  assumes built: "build c = Inr s \<Longrightarrow>
      sink_contract (skWrite s) acc \<and> write_keeps s parked \<and> write_keeps s valid
      \<and> close_keeps s acc \<and> close_keeps s parked"
    and del_acc: "dlqDelete q n w = (x, w') \<Longrightarrow> acc w' = acc w"
    and lst_acc: "dlqList q qu w = (y, w') \<Longrightarrow> acc w' = acc w"
    and sleep_acc: "sleep_keeps en acc" and sleep_parked: "sleep_keeps en parked"
    and sleep_valid: "sleep_keeps en valid"
begin

definition good_sinks :: "'w replay_vars \<Rightarrow> bool" where
  "good_sinks v = (\<forall>(n, s) \<in> set (rvSinks v).
     sink_contract (skWrite s) acc \<and> write_keeps s parked \<and> write_keeps s valid
      \<and> close_keeps s acc \<and> close_keeps s parked)"

lemma get_sink_good:
  assumes "good_sinks v" "get_sink en build cfg name v = (x, v')"
  shows "good_sinks v' \<and> rvAfter v' = rvAfter v \<and> rvRes v' = rvRes v
    \<and> (\<forall>s. x = Inr (Some s) \<longrightarrow>
         sink_contract (skWrite s) acc \<and> write_keeps s parked \<and> write_keeps s valid
      \<and> close_keeps s acc \<and> close_keeps s parked)"
proof (cases "map_of (rvSinks v) name")
  case (Some s)
  then show ?thesis using assms by (auto simp: get_sink_def good_sinks_def dest: map_of_SomeD)
next
  case None
  have w: "sink_contract (skWrite (WithRetry en s rc)) acc \<and> write_keeps (WithRetry en s rc) parked
      \<and> write_keeps (WithRetry en s rc) valid \<and> close_keeps (WithRetry en s rc) acc
      \<and> close_keeps (WithRetry en s rc) parked" if "build c = Inr s" for c s rc
    using built [OF that] sleep_acc sleep_parked sleep_valid by (simp add: retry_contract retry_keeps close_keeps_retry)
  show ?thesis
    using assms None w
    by (auto simp: get_sink_def good_sinks_def Let_def split: option.splits sum.splits)
qed

text \<open>One item: what it does to the queue, to the sinks and to the counters.\<close>

definition item_ok ::
    "replay_opts \<Rightarrow> (string \<Rightarrow> logrecord list option) \<Rightarrow> go_err option option
       \<Rightarrow> 'w replay_vars \<Rightarrow> 'w replay_vars \<Rightarrow> 'w \<Rightarrow> 'w \<Rightarrow> bool" where
  "item_ok opts decode x v v' w w' =
     (valid w' \<and> good_sinks v' \<and>
      (\<exists>gone extra. replayed_as parked acc decode gone extra w w'
         \<and> length extra \<le> 1 \<and> (extra \<noteq> [] \<longrightarrow> (\<exists>e. x = Some (Some e)))
         \<and> (if opDryRun opts then gone = [] \<and> extra = []
            else rsReplayed (rvRes v') = rsReplayed (rvRes v) + length gone)))"

lemma item_ok_same:
  "valid w \<Longrightarrow> good_sinks v' \<Longrightarrow> opDryRun opts \<or> rsReplayed (rvRes v') = rsReplayed (rvRes v) \<Longrightarrow>
     item_ok opts decode x v v' w w"
  unfolding item_ok_def
  by (intro conjI exI [of _ "[]"]) (auto simp: replayed_as_refl)

lemma good_sinks_add [simp]:
  "good_sinks (add_replayed v) = good_sinks v" "good_sinks (add_failed v) = good_sinks v"
  "good_sinks (add_skipped v) = good_sinks v" "good_sinks (v\<lparr>rvAfter := a\<rparr>) = good_sinks v"
  "good_sinks (v\<lparr>rvProcessed := n\<rparr>) = good_sinks v"
  by (simp_all add: good_sinks_def add_replayed_def add_failed_def add_skipped_def)

lemma counters [simp]:
  "rsReplayed (rvRes (add_replayed v)) = rsReplayed (rvRes v) + 1"
  "rsReplayed (rvRes (add_failed v)) = rsReplayed (rvRes v)"
  "rsReplayed (rvRes (add_skipped v)) = rsReplayed (rvRes v)"
  "rvAfter (add_replayed v) = rvAfter v" "rvAfter (add_failed v) = rvAfter v"
  "rvAfter (add_skipped v) = rvAfter v"
  by (simp_all add: add_replayed_def add_failed_def add_skipped_def)

lemma item_okI:
  "valid w' \<Longrightarrow> good_sinks v' \<Longrightarrow> replayed_as parked acc decode gone extra w w' \<Longrightarrow>
     length extra \<le> 1 \<Longrightarrow> (extra \<noteq> [] \<longrightarrow> (\<exists>e. x = Some (Some e))) \<Longrightarrow> \<not> opDryRun opts \<Longrightarrow>
     rsReplayed (rvRes v') = rsReplayed (rvRes v) + length gone \<Longrightarrow>
     item_ok opts decode x v v' w w'"
  unfolding item_ok_def by auto

definition others :: "dlq_item \<Rightarrow> 'w \<Rightarrow> 'w \<Rightarrow> bool" where
  "others it w w' = (\<forall>i \<in> set (parked w). diID i \<noteq> diID it \<longrightarrow> i \<in> set (parked w'))"

lemma others_refl [simp]: "others it w w"
  by (simp add: others_def)

lemma replay_send:
  assumes v: "valid w" "it \<in> set (parked w)" and g: "good_sinks v1" "\<not> opDryRun opts"
    and s: "sink_contract (skWrite s) acc" "write_keeps s parked" "write_keeps s valid"
    and d: "decode (diPayload it) = Some recs" and c: "rsReplayed (rvRes v1) = rsReplayed (rvRes v)"
    and r: "(case skWrite s recs w of
               (Some e, w1) \<Rightarrow> (None, add_failed v1, w1)
             | (None, w1) \<Rightarrow> (case dlqDelete q (diID it) w1 of
                 (Some e, w2) \<Rightarrow> (Some (Some (Wrapped m e)), v1, w2)
               | (None, w2) \<Rightarrow> (None, add_replayed v1, w2))) = (x, v', w')"
  shows "item_ok opts decode x v v' w w' \<and> others it w w'"
proof -
  obtain r1 w1 where w1: "skWrite s recs w = (r1, w1)" by (cases "skWrite s recs w")
  have o: "parked w1 = parked w" "valid w1"
    using write_keepsD [OF s(2) w1] write_keepsD [OF s(3) w1] v by simp_all
  show ?thesis
  proof (cases r1)
    case (Some e)
    have "acc w1 = acc w" using w1 Some sink_contract.nack [OF s(1)] by blast
    then have "replayed_as parked acc decode [] [] w w1" using o by (simp add: replayed_as_def)
    then show ?thesis using r w1 Some g c o by (intro conjI item_okI) (auto simp: others_def)
  next
    case None
    have a: "acc w1 = acc w @ recs" using w1 None sink_contract.ack [OF s(1)] by blast
    obtain r2 w2 where w2: "dlqDelete q (diID it) w1 = (r2, w2)" by (cases "dlqDelete q (diID it) w1")
    have a2: "acc w2 = acc w1" using del_acc [OF w2] .
    show ?thesis
    proof (cases r2)
      case None
      have p2: "valid w2 \<and> parked w2 = filter (\<lambda>i. diID i \<noteq> diID it) (parked w1)"
        using del_ok [OF o(2)] w2 None by blast
      then have "valid w2" "replayed_as parked acc decode [it] [] w w2"
        using a a2 o v d by (simp_all add: replayed_as_def body_of_def)
      then show ?thesis using r w1 w2 None \<open>r1 = None\<close> g c o p2
        by (intro conjI item_okI [of _ _ _ "[it]" "[]"]) (auto simp: others_def)
    next
      case (Some e)
      have p2: "valid w2 \<and> parked w2 = parked w1" using del_err [OF o(2)] w2 Some by blast
      then have "valid w2" "replayed_as parked acc decode [] [it] w w2"
        using a a2 o v d by (simp_all add: replayed_as_def body_of_def)
      then show ?thesis using r w1 w2 Some \<open>r1 = None\<close> g c o p2
        by (intro conjI item_okI [of _ _ _ "[]" "[it]"]) (auto simp: others_def)
    qed
  qed
qed

lemma replay_item_ok:
  assumes v: "valid w" "it \<in> set (parked w)" and g: "good_sinks v"
    and r: "replay_item en build decode cfg q opts it v w = (x, v', w')"
  shows "item_ok opts decode x v v' w w' \<and> rvAfter v' = diID it \<and> others it w w'"
proof -
  let ?v1 = "v\<lparr>rvAfter := diID it, rvProcessed := rvProcessed v + 1\<rparr>"
  obtain y v2 where y: "get_sink en build cfg (diSinkName it) ?v1 = (y, v2)"
    by (cases "get_sink en build cfg (diSinkName it) ?v1")
  have g1: "good_sinks ?v1" using g by (simp add: good_sinks_def)
  note k = get_sink_good [OF g1 y]
  show ?thesis
  proof (cases "opLimit opts > 0 \<and> rvProcessed v \<ge> opLimit opts")
    case True
    then show ?thesis using r v g by (auto simp: replay_item_def intro!: item_ok_same)
  next
    case False
    show ?thesis
    proof (cases "\<exists>s recs. y = Inr (Some s) \<and> decode (diPayload it) = Some recs \<and> \<not> opDryRun opts")
      case True
      then obtain s recs where sr: "y = Inr (Some s)" "decode (diPayload it) = Some recs" "\<not> opDryRun opts"
        by blast
      have "item_ok opts decode x v v' w w' \<and> others it w w'"
        by (rule replay_send [where decode = decode and recs = recs and s = s, OF v(1) v(2)])
          (use r k False y sr in \<open>auto simp: replay_item_def\<close>)
      moreover have "rvAfter v' = diID it"
        using r k False y sr by (auto simp: replay_item_def split: prod.splits option.splits)
      ultimately show ?thesis by blast
    next
      case False
      then show ?thesis using r k \<open>\<not> (opLimit opts > 0 \<and> rvProcessed v \<ge> opLimit opts)\<close> y v
        by (auto simp: replay_item_def split: sum.splits option.splits if_splits intro!: item_ok_same)
    qed
  qed
qed

lemma item_ok_trans:
  assumes "item_ok opts decode None v v1 w w1" "item_ok opts decode x v1 v2 w1 w2"
  shows "item_ok opts decode x v v2 w w2"
proof -
  obtain g1 e1 where 1: "replayed_as parked acc decode g1 e1 w w1" "e1 = []"
      "if opDryRun opts then g1 = [] \<and> e1 = [] else rsReplayed (rvRes v1) = rsReplayed (rvRes v) + length g1"
    using assms(1) unfolding item_ok_def by auto
  obtain g2 e2 where 2: "replayed_as parked acc decode g2 e2 w1 w2" "length e2 \<le> 1"
      "e2 \<noteq> [] \<longrightarrow> (\<exists>e. x = Some (Some e))"
      "if opDryRun opts then g2 = [] \<and> e2 = [] else rsReplayed (rvRes v2) = rsReplayed (rvRes v1) + length g2"
    using assms(2) unfolding item_ok_def by auto
  show ?thesis
    unfolding item_ok_def
    using assms(2) replayed_as_trans [OF 1(1) [unfolded 1(2)] 2(1)] 1(3) 2(2-4)
    by (intro conjI exI [of _ "g1 @ g2"] exI [of _ e2]) (auto simp: item_ok_def split: if_splits)
qed

lemma replay_items_ok:
  "replay_items en build decode cfg q opts its v w = (x, v', w') \<Longrightarrow> valid w \<Longrightarrow> good_sinks v \<Longrightarrow>
     set its \<subseteq> set (parked w) \<Longrightarrow> distinct (map diID its) \<Longrightarrow>
     item_ok opts decode x v v' w w'
     \<and> (x = None \<longrightarrow> its \<noteq> [] \<longrightarrow> rvAfter v' = diID (last its))"
proof (induction its arbitrary: v w)
  case Nil
  then show ?case by (auto intro: item_ok_same)
next
  case (Cons it its)
  obtain y v1 w1 where y: "replay_item en build decode cfg q opts it v w = (y, v1, w1)"
    by (cases "replay_item en build decode cfg q opts it v w")
  have one: "item_ok opts decode y v v1 w w1" "rvAfter v1 = diID it" "others it w w1"
    using replay_item_ok [OF Cons.prems(2) _ Cons.prems(3) y] Cons.prems(4) by simp_all
  show ?case
  proof (cases y)
    case (Some r)
    then show ?thesis using Cons.prems(1) y one by auto
  next
    case None
    then have rest: "replay_items en build decode cfg q opts its v1 w1 = (x, v', w')"
      using Cons.prems(1) y by simp
    have w1: "valid w1" "good_sinks v1" using one(1) by (simp_all add: item_ok_def)
    have "set its \<subseteq> set (parked w1)"
      using one(3) Cons.prems(4,5) unfolding others_def by (fastforce simp: image_iff)
    then have "item_ok opts decode x v1 v' w1 w' \<and> (x = None \<longrightarrow> its \<noteq> [] \<longrightarrow> rvAfter v' = diID (last its))"
      using Cons.IH [OF rest w1] Cons.prems(5) by simp
    then show ?thesis
      using item_ok_trans [OF one(1) [unfolded None]] one(2) rest by (cases its) auto
  qed
qed

text \<open>The page the loop reads.\<close>

lemma list_page:
  assumes "valid w" "dlqList q (replay_query opts a) w = (Inr items, w1)"
  shows "valid w1" "parked w1 = parked w" "set items \<subseteq> set (parked w1)" "distinct (map diID items)"
    "acc w1 = acc w" "\<forall>it \<in> set items. a < diID it"
proof -
  have p: "valid w1" "parked w1 = parked w" "items = dlq_page (replay_query opts a) (parked w)"
    using lst_keeps [OF assms] lst_page [OF assms] by simp_all
  have "distinct (map diID (parked w))"
    using valid_sorted [OF assms(1)] strict_sorted_iff by blast
  then have "distinct (map diID items)"
    unfolding p(3) dlq_page_def by (simp add: take_map [symmetric] distinct_map_filter)
  then show "valid w1" "parked w1 = parked w" "set items \<subseteq> set (parked w1)" "distinct (map diID items)"
    "acc w1 = acc w" "\<forall>it \<in> set items. a < diID it"
    using p lst_acc [OF assms(2)]
    by (auto simp: dlq_page_def replay_query_def dest!: in_set_takeD)
qed

text \<open>How much of the queue is still ahead.\<close>

definition ahead :: "int \<Rightarrow> 'w \<Rightarrow> nat" where
  "ahead a w = length (filter (\<lambda>it. a < diID it) (parked w))"

lemma ahead_less:
  assumes "a < b" "it \<in> set (parked w)" "diID it = b" "parked w' = filter p (parked w)"
  shows "ahead b w' < ahead a w"
proof -
  have "length (filter (\<lambda>it. b < diID it \<and> p it) xs) \<le> length (filter (\<lambda>it. a < diID it) xs)" for xs
    using assms(1) by (induction xs) auto
  moreover have "length (filter (\<lambda>it. b < diID it \<and> p it) xs) < length (filter (\<lambda>it. a < diID it) xs)"
    if "it \<in> set xs" for xs
    using that calculation assms(1,3) by (induction xs) (auto simp: less_Suc_eq_le)
  ultimately show ?thesis using assms(2,4) by (simp add: ahead_def conj_commute)
qed

text \<open>The loop always returns, and what it returns is a replay.\<close>

lemma replay_loop_ok:
  "valid w \<Longrightarrow> good_sinks v \<Longrightarrow>
     \<exists>r v' w'. replay_loop en build decode cfg q opts v w = Some (r, v', w')
       \<and> item_ok opts decode (Some r) v v' w w'"
proof (induction "ahead (rvAfter v) w" arbitrary: v w rule: less_induct)
  case less
  show ?case
  proof (cases "enCtx en w")
    case (Some e)
    then show ?thesis using less.prems by (subst replay_loop.simps) (simp add: item_ok_same)
  next
    case None
    note ctx = None
    obtain l w1 where l: "dlqList q (replay_query opts (rvAfter v)) w = (l, w1)"
      by (cases "dlqList q (replay_query opts (rvAfter v)) w")
    have same: "item_ok opts decode x v v w w1" for x
    proof -
      have "valid w1" "parked w1 = parked w" "acc w1 = acc w"
        using lst_keeps [OF less.prems(1) l] lst_acc [OF l] by simp_all
      then show ?thesis using less.prems(2)
        unfolding item_ok_def by (intro conjI exI [of _ "[]"]) (simp_all add: replayed_as_def)
    qed
    show ?thesis
    proof (cases "\<exists>items. l = Inr items \<and> items \<noteq> []")
      case False
      then show ?thesis using ctx l same
        by (subst replay_loop.simps) (cases l; auto)
    next
      case True
      then obtain items where it: "l = Inr items" "items \<noteq> []" by blast
      note pg = list_page [OF less.prems(1) l [unfolded it(1)]]
      obtain x v1 w2 where x: "replay_items en build decode cfg q opts items v w1 = (x, v1, w2)"
        by (cases "replay_items en build decode cfg q opts items v w1")
      have k: "item_ok opts decode x v v1 w1 w2" "x = None \<longrightarrow> rvAfter v1 = diID (last items)"
        using replay_items_ok [OF x pg(1) less.prems(2) pg(3,4)] it(2) by blast+
      have k0: "item_ok opts decode x v v1 w w2" using item_ok_trans [OF same k(1)] .
      show ?thesis
      proof (cases x)
        case (Some r)
        then show ?thesis using ctx l it x k0 by (subst replay_loop.simps) simp
      next
        case None
        obtain g e where "replayed_as parked acc decode g e w w2"
          using k0 by (auto simp: item_ok_def)
        then have "parked w2 = filter (\<lambda>it. diID it \<notin> diID ` set g) (parked w)"
          by (simp add: replayed_as_def)
        moreover have "last items \<in> set (parked w)" "rvAfter v < diID (last items)"
          using pg(2,3,6) it(2) last_in_set by auto
        ultimately have "ahead (rvAfter v1) w2 < ahead (rvAfter v) w"
          using ahead_less k(2) None by metis
        moreover have "valid w2" "good_sinks v1" using k0 by (simp_all add: item_ok_def)
        ultimately obtain r v' w' where "replay_loop en build decode cfg q opts v1 w2 = Some (r, v', w')"
            "item_ok opts decode (Some r) v1 v' w2 w'"
          using less.hyps [of v1 w2] by blast
        moreover have "replay_loop en build decode cfg q opts v w
            = replay_loop en build decode cfg q opts v1 w2"
          using ctx l it x None by (subst replay_loop.simps) simp
        ultimately show ?thesis using item_ok_trans [OF k0 [unfolded None]] by metis
      qed
    qed
  qed
qed

lemma replay_Run_ok:
  assumes "valid w"
  shows "\<exists>res r w' gone extra. replay_Run en build decode cfg q opts w = Some (res, r, w')
    \<and> replayed_as parked acc decode gone extra w w'
    \<and> length extra \<le> 1 \<and> (extra \<noteq> [] \<longrightarrow> r \<noteq> None)
    \<and> (if opDryRun opts then gone = [] \<and> extra = [] else rsReplayed res = length gone)"
proof -
  have "good_sinks replay_start" by (simp add: good_sinks_def replay_start_def)
  then obtain r v w1 where l: "replay_loop en build decode cfg q opts replay_start w = Some (r, v, w1)"
      "item_ok opts decode (Some r) replay_start v w w1"
    using replay_loop_ok [OF assms] by blast
  obtain gone extra where g: "replayed_as parked acc decode gone extra w w1" "length extra \<le> 1"
      "extra \<noteq> [] \<longrightarrow> r \<noteq> None"
      "if opDryRun opts then gone = [] \<and> extra = [] else rsReplayed (rvRes v) = length gone"
    using l(2) unfolding item_ok_def by (auto simp: replay_start_def split: if_splits)
  have "\<forall>s \<in> set (map snd (rvSinks v)). close_keeps s acc"
      "\<forall>s \<in> set (map snd (rvSinks v)). close_keeps s parked"
    using l(2) unfolding item_ok_def good_sinks_def by auto
  then have "acc (close_all (map snd (rvSinks v)) w1) = acc w1"
      "parked (close_all (map snd (rvSinks v)) w1) = parked w1"
    by (simp_all add: close_all_keeps)
  then have "replayed_as parked acc decode gone extra w (close_all (map snd (rvSinks v)) w1)"
    using g(1) by (simp add: replayed_as_def)
  moreover have "replay_Run en build decode cfg q opts w
      = Some (rvRes v, r, close_all (map snd (rvSinks v)) w1)"
    using l(1) by (simp add: replay_Run_def)
  ultimately show ?thesis using g(2-4) by blast
qed

end

end
