(* ===== verification/Sim.thy ===== *)
theory Sim
  imports DrainLive Delivery Poll Replay
begin

text \<open>
  A concrete world made of the model's own parts: the memory store, the memory sink, the
  SQLite dead-letter queue and an RDS instance that serves fixed portions with scripted
  faults.  The locales of the pipeline are interpreted on it; the witnesses run in it.
\<close>

section \<open>The world\<close>

record sim =
  smStore :: mem_store
  smSink :: mem_sink
  smDb :: sqlite_db
  smProbe :: nat
  smFaults :: "bool list"

definition sim_init :: "bool list \<Rightarrow> sim" where
  "sim_init faults = \<lparr>smStore = mem_New, smSink = mem_sink_New ''mem'',
     smDb = \<lparr>dbCheckpoints = [], dbDLQ = [], dbNextID = 1, dbVersions = [2], dbHasSkipCol = True,
             dbNow = unix_epoch, dbScript = []\<rparr>,
     smProbe = 0, smFaults = faults\<rparr>"

text \<open>An operation of a part, on the world.\<close>

definition on_store :: "(mem_store \<Rightarrow> 'a \<times> mem_store) \<Rightarrow> sim \<Rightarrow> 'a \<times> sim" where
  "on_store op w = (case op (smStore w) of (r, s) \<Rightarrow> (r, w\<lparr>smStore := s\<rparr>))"

definition on_db :: "(sqlite_db \<Rightarrow> 'a \<times> sqlite_db) \<Rightarrow> sim \<Rightarrow> 'a \<times> sim" where
  "on_db op w = (case op (smDb w) of (r, s) \<Rightarrow> (r, w\<lparr>smDb := s\<rparr>))"

definition sim_store :: "sim state_store" where
  "sim_store = \<lparr>ssGet = (\<lambda>i f. on_store (mem_Get i f)), ssSet = (\<lambda>i f c. on_store (mem_Set i f c)),
     ssList = (\<lambda>i. on_store (mem_List i)), ssDelete = (\<lambda>i f. on_store (mem_Delete i f))\<rparr>"

definition sim_sink :: "sim sink" where
  "sim_sink = \<lparr>skName = ''mem'', skType = ''memory'',
     skWrite = (\<lambda>rs w. case mem_sink_Write rs (smSink w) of (r, s) \<Rightarrow> (r, w\<lparr>smSink := s\<rparr>)),
     skClose = (\<lambda>w. (None, w))\<rparr>"

definition sim_dlq :: "sim dlq" where
  "sim_dlq = \<lparr>dlqPut = (\<lambda>n b p r. on_db (sqlite_DLQPut n b p r)), dlqList = (\<lambda>q. on_db (sqlite_DLQList q)),
     dlqDelete = (\<lambda>i. on_db (sqlite_DLQDelete i)), dlqCount = (\<lambda>n. on_db (sqlite_DLQCount n)),
     dlqPurge = (\<lambda>n. on_db (sqlite_DLQPurge n))\<rparr>"

definition sim_env :: "sim env" where
  "sim_env = \<lparr>enCtx = (\<lambda>w. None), enNow = (\<lambda>w. unix_epoch), enSleep = (\<lambda>d w. (None, w)),
     enRand = (\<lambda>n w. 0), enOverflow = i64_min,
     enMarshal = (\<lambda>rs. Some (concat (map lrMessage rs)))\<rparr>"

definition sim_probe :: "sim probe" where
  "sim_probe = \<lparr>mpObserveWrite = (\<lambda>t d n w. w\<lparr>smProbe := smProbe w + 1\<rparr>),
     mpIncProcessed = (\<lambda>i e f t n w. w\<lparr>smProbe := smProbe w + 1\<rparr>),
     mpIncFailed = (\<lambda>i t r n w. w\<lparr>smProbe := smProbe w + 1\<rparr>)\<rparr>"

text \<open>The portions served: a truncated one is cleared, so that no recovery is needed.\<close>

definition plain_portion :: "portion_resp \<Rightarrow> portion_resp" where
  "plain_portion p = (if isTruncated (prData p) then p\<lparr>prData := []\<rparr> else p)"

definition sim_api :: "(string \<Rightarrow> portion_resp) \<Rightarrow> sim rds_api" where
  "sim_api pf = \<lparr>DescribeDBLogFiles = (\<lambda>i m fc w. (Inr \<lparr>drFiles = [], drMarker = []\<rparr>, w)),
     DownloadDBLogFilePortion = (\<lambda>i f m n w.
       (if smFaults w \<noteq> [] \<and> hd (smFaults w) then Inl (ErrMsg ''fault'')
        else Inr (plain_portion (pf m)),
        w\<lparr>smFaults := tl (smFaults w)\<rparr>))\<rparr>"

definition sim_fetcher :: "(string \<Rightarrow> portion_resp) \<Rightarrow> (string \<Rightarrow> meta) option \<Rightarrow> sim fetcher" where
  "sim_fetcher pf parser = \<lparr>ftApi = sim_api pf, ftInstanceID = ''db-1'', ftEngine = ''postgres'',
     ftClassifier = PostgresClassifier, ftParser = parser, ftClock = (\<lambda>w. unix_epoch),
     ftObserve = (\<lambda>a b w. w)\<rparr>"

definition sim_worker ::
    "(string \<Rightarrow> portion_resp) \<Rightarrow> (string \<Rightarrow> meta) option \<Rightarrow> int \<Rightarrow> sim worker" where
  "sim_worker pf parser maxBytes = \<lparr>wkFetcher = sim_fetcher pf parser, wkStore = sim_store,
     wkSink = sim_sink, wkPollInterval = 10 * second, wkPollIntervalMax = 0, wkPollMultiplier = 2,
     wkMaxBatchBytes = maxBytes, wkMaxBatchRecords = 0, wkParallelReads = 1, wkDrainSem = False,
     wkStartFrom = StartFromBeginning, wkMinFileTime = time_zero, wkEnv = sim_env\<rparr>"

definition sim_acked :: "sim \<Rightarrow> logrecord list" where
  "sim_acked w = concat (msBatches (smSink w))"

definition sim_view :: "string \<Rightarrow> sim \<Rightarrow> checkpoint option" where
  "sim_view name w = mem_view (smStore w) ''db-1'' name"

definition sim_raw :: "(string \<Rightarrow> portion_resp) \<Rightarrow> string \<Rightarrow> raw_portion" where
  "sim_raw pf m = (let p = plain_portion (pf m) in
     \<lparr>rpData = prData p, rpNext = prMarker p, rpPending = prPending p, rpTruncated = 0\<rparr>)"

section \<open>The interpretations\<close>

lemma plain_portion_untruncated: "\<not> isTruncated (prData (plain_portion p))"
  by (simp add: plain_portion_def isTruncated_def trim_right_byte_def has_suffix_def
      truncationNotice_def suffix_def)

lemma sim_pullRaw:
  "pullRaw (sim_fetcher pf parser) name m w =
     (if smFaults w \<noteq> [] \<and> hd (smFaults w)
      then Inl (Wrapped (''download portion '' @ go_quote ''db-1'' @ ''/'' @ go_quote name) (ErrMsg ''fault''))
      else Inr (sim_raw pf m), w\<lparr>smFaults := tl (smFaults w)\<rparr>)"
  using plain_portion_untruncated [of "pf m"]
  by (simp add: pullRaw_def eval_nat_numeral download_def sim_fetcher_def sim_api_def
      fetcher_record_def sim_raw_def Let_def)

lemma no_bar_db: "no_bar ''db-1''" by (simp add: no_bar_def)

lemma sim_drain_store:
  assumes "name \<noteq> []"
  shows "drain_store (sim_worker pf parser mb) name (sim_raw pf) sim_acked (sim_view name)"
proof unfold_locales
  fix m w raw w'
  assume "pullRaw (wkFetcher (sim_worker pf parser mb)) name m w = (Inr raw, w')"
  then show "raw = sim_raw pf m"
    by (simp add: sim_worker_def sim_pullRaw split: if_splits)
next
  fix m w r w'
  assume "pullRaw (wkFetcher (sim_worker pf parser mb)) name m w = (r, w')"
  then have "w' = w\<lparr>smFaults := tl (smFaults w)\<rparr>" by (simp add: sim_worker_def sim_pullRaw)
  then show "sim_acked w' = sim_acked w \<and> sim_view name w' = sim_view name w"
    by (simp add: sim_acked_def sim_view_def)
qed (use assms in \<open>auto simp: sim_worker_def sim_sink_def sim_store_def on_store_def sim_acked_def sim_view_def
      sim_fetcher_def mem_sink_Write_def mem_Set_def mem_Get_def mem_view_def update_conv'
      split: option.splits prod.splits\<close>)

interpretation simdr: drain_store "sim_worker pf parser mb" "''a.log''" "sim_raw pf" sim_acked
    "sim_view ''a.log''"
  by (rule sim_drain_store) simp

definition sim_healthy :: "sim \<Rightarrow> bool" where
  "sim_healthy w = (True \<notin> set (smFaults w) \<and> msWriteErr (smSink w) = None)"

lemma sim_healthy_world:
  assumes "name \<noteq> []" shows "healthy (sim_worker pf parser mb) name sim_healthy"
proof unfold_locales
  fix m and w :: sim
  assume ok: "sim_healthy w"
  then have "\<not> (smFaults w \<noteq> [] \<and> hd (smFaults w))"
    by (cases "smFaults w") (auto simp: sim_healthy_def)
  moreover have "True \<notin> set (tl (smFaults w))"
    using ok by (cases "smFaults w") (auto simp: sim_healthy_def)
  ultimately show "\<exists>raw w'. pullRaw (wkFetcher (sim_worker pf parser mb)) name m w = (Inr raw, w')
      \<and> sim_healthy w'"
    using ok by (simp add: sim_worker_def sim_pullRaw sim_healthy_def)
qed (use assms in \<open>auto simp: sim_worker_def sim_sink_def sim_store_def on_store_def mem_Set_def mem_Get_def
      sim_env_def mem_sink_Write_def sim_healthy_def split: option.splits prod.splits\<close>)

interpretation simhl: healthy "sim_worker pf parser mb" "''a.log''" sim_healthy
  by (rule sim_healthy_world) simp

interpretation simrot: rotation "sim_worker pf parser mb" "\<lambda>w. mem_view (smStore w)" "\<lambda>c. c" no_bar
proof unfold_locales
  fix i f r and w w' :: sim
  assume "ssGet (wkStore (sim_worker pf parser mb)) i f w = (Inr r, w')"
  then show "r = mem_view (smStore w) i f"
    by (auto simp: sim_worker_def sim_store_def on_store_def mem_Get_def mem_view_def)
qed (auto simp: sim_worker_def sim_store_def sim_fetcher_def on_store_def mem_Get_def mem_Set_def
      mem_Delete_def mem_view_def update_conv' delete_conv' store_key_eq no_bar_def split: prod.splits)

interpretation simdel: delivery sim_dlq "\<lambda>w. dbDLQ (smDb w)" "\<lambda>w. dlq_wf (smDb w)" sim_sink sim_acked
    sim_env "Some sim_probe"
proof unfold_locales
  fix w :: sim
  assume "dlq_wf (smDb w)"
  then show "sorted_wrt (<) (map diID (dbDLQ (smDb w)))" by (rule sqldlq.valid_sorted)
next
  fix w :: sim and it
  assume "dlq_wf (smDb w)" "it \<in> set (dbDLQ (smDb w))"
  then show "0 < diID it" by (rule sqldlq.valid_pos)
next
  fix w w' :: sim and s b p r
  assume "dlq_wf (smDb w)" "dlqPut sim_dlq s b p r w = (None, w')"
  then show "dlq_wf (smDb w') \<and> (\<exists>it. dbDLQ (smDb w') = dbDLQ (smDb w) @ [it] \<and> diSinkName it = s
      \<and> diBatchID it = b \<and> diPayload it = p)"
    using sqldlq.put_ok [of "smDb w" s b p r]
    by (auto simp: sim_dlq_def on_db_def split: prod.splits)
next
  fix w w' :: sim and s b p r e
  assume "dlq_wf (smDb w)" "dlqPut sim_dlq s b p r w = (Some e, w')"
  then show "dlq_wf (smDb w') \<and> dbDLQ (smDb w') = dbDLQ (smDb w)"
    using sqldlq.put_err [of "smDb w" s b p r] by (auto simp: sim_dlq_def on_db_def split: prod.splits)
next
  fix w w' :: sim and q x
  assume "dlq_wf (smDb w)" "dlqList sim_dlq q w = (x, w')"
  then show "dlq_wf (smDb w') \<and> dbDLQ (smDb w') = dbDLQ (smDb w)"
    using sqldlq.lst_keeps [of "smDb w" q] by (auto simp: sim_dlq_def on_db_def split: prod.splits)
next
  fix w w' :: sim and q xs
  assume "dlq_wf (smDb w)" "dlqList sim_dlq q w = (Inr xs, w')"
  then show "xs = dlq_page q (dbDLQ (smDb w))"
    using sqldlq.lst_page [of "smDb w" q] by (auto simp: sim_dlq_def on_db_def split: prod.splits)
next
  fix w w' :: sim and n
  assume "dlq_wf (smDb w)" "dlqDelete sim_dlq n w = (None, w')"
  then show "dlq_wf (smDb w') \<and> dbDLQ (smDb w') = filter (\<lambda>it. diID it \<noteq> n) (dbDLQ (smDb w))"
    using sqldlq.del_ok [of "smDb w" n] by (auto simp: sim_dlq_def on_db_def split: prod.splits)
next
  fix w w' :: sim and n e
  assume "dlq_wf (smDb w)" "dlqDelete sim_dlq n w = (Some e, w')"
  then show "dlq_wf (smDb w') \<and> dbDLQ (smDb w') = dbDLQ (smDb w)"
    using sqldlq.del_err [of "smDb w" n] by (auto simp: sim_dlq_def on_db_def split: prod.splits)
qed (auto simp: sim_dlq_def on_db_def sim_acked_def sim_sink_def sim_probe_def sim_env_def
      mem_sink_Write_def write_keeps_def probe_keeps_def sleep_keeps_def
      split: prod.splits option.splits)

text \<open>A replay through the memory sink, as the tests of internal/replay build it.\<close>

definition sim_build :: "sink_cfg \<Rightarrow> go_err + sim sink" where
  "sim_build c = Inr sim_sink"

interpretation simrep: replaying sim_dlq "\<lambda>w. dbDLQ (smDb w)" "\<lambda>w. dlq_wf (smDb w)" sim_build sim_acked
    sim_env
proof (unfold_locales, goal_cases)
  case (1 c s)
  then have s: "s = sim_sink" by (simp add: sim_build_def)
  have "sink_contract (skWrite sim_sink) sim_acked" by (rule simdel.bare)
  then show ?case unfolding s using simdel.bare_parked simdel.bare_valid
    by (simp add: close_keeps_def sim_sink_def)
qed (auto simp: sim_dlq_def on_db_def sim_acked_def sim_env_def sleep_keeps_def split: prod.splits)

section \<open>A file of two chunks\<close>

text \<open>Six bytes served in two portions, with the markers RDS would give them.\<close>

definition two_chunks :: "string \<Rightarrow> portion_resp" where
  "two_chunks m = (if m = ''0'' then \<lparr>prData = ''a'' @ [nl] @ ''b'' @ [nl], prMarker = ''x:4'', prPending = True\<rparr>
     else if m = ''x:4'' then \<lparr>prData = ''c'' @ [nl], prMarker = ''x:6'', prPending = False\<rparr>
     else \<lparr>prData = [], prMarker = m, prPending = False\<rparr>)"

definition log_a :: file_meta where
  "log_a = \<lparr>fmName = ''a.log'', fmSize = 6, fmLastWrittenMS = 1\<rparr>"

lemma simdr_store: "drain_store (sim_worker pf parser mb) ''a.log'' (sim_raw pf) sim_acked (sim_view ''a.log'')"
  by (rule simdr.drain_store_axioms)

lemma two_chunks_chain:
  "chain (chunk_at None (sim_raw two_chunks)) ''0''
     [chunk_at None (sim_raw two_chunks) ''0'', chunk_at None (sim_raw two_chunks) ''x:4'']"
  by (simp add: chain.simps chunk_at_def chunk_data_def sim_raw_def plain_portion_def two_chunks_def
      isTruncated_def Let_def trim_right_byte_def has_suffix_def truncationNotice_def suffix_def)

lemma two_chunks_start:
  "reads_on (sim_worker two_chunks None mb) (initial_wst unix_epoch) log_a (sim_view ''a.log'' (sim_init fs))"
  "resume_at (sim_view ''a.log'' (sim_init fs)) = (''0'', False)"
  by (simp_all add: reads_on_def sim_worker_def isErrorRunningLog_def log_a_def sim_view_def sim_init_def
      mem_view_def mem_New_def calm_def startFor_def path_base_def has_prefix_def StartFromBeginning_def StartFromEnd_def
      resume_at_def MarkerBeginning_def trim_right_byte_def)


lemma sim_parser [simp]: "ftParser (wkFetcher (sim_worker pf parser mb)) = parser"
  by (simp add: sim_worker_def sim_fetcher_def)

lemmas two_chunks_run = simdr_store two_chunks_start two_chunks_chain

abbreviation two_wk :: "sim worker" where "two_wk \<equiv> sim_worker two_chunks None 0"

abbreviation two_cs :: "cdata list" where
  "two_cs \<equiv> [chunk_at None (sim_raw two_chunks) ''0'', chunk_at None (sim_raw two_chunks) ''x:4'']"

lemma two_run_fault:
  "\<exists>e ws1 w1. drainFile two_wk log_a (initial_wst unix_epoch) (sim_init [True]) = Some ((0, Some e), ws1, w1)
     \<and> w1 = sim_init []"
proof -
  have "ftInstanceID (sim_fetcher two_chunks None) = ''db-1''" by (simp add: sim_fetcher_def)
  then show ?thesis
    by (simp add: drainFile_def log_a_def sim_worker_def sim_store_def on_store_def sim_env_def
        mem_Get_def Let_def startFor_def StartFromBeginning_def StartFromEnd_def mem_New_def
        start_drain_def drain_run_def wants_parallel_def drain_loop.simps PullPortion_def sim_pullRaw
        sim_init_def MarkerBeginning_def)
qed

lemma two_start:
  "startFor (sim_worker pf parser mb) ws file \<noteq> StartFromEnd"
  "wkParallelReads (sim_worker pf parser mb) \<le> 1"
  by (simp_all add: sim_worker_def startFor_def StartFromBeginning_def StartFromEnd_def)

lemma log_a_name [simp]: "fmName log_a = ''a.log''"
  by (simp add: log_a_def)

lemma sim_init_healthy: "True \<notin> set fs \<Longrightarrow> sim_healthy (sim_init fs)"
  by (simp add: sim_healthy_def sim_init_def mem_sink_New_def)

section \<open>A rotated hour\<close>

text \<open>A MySQL log whose fifth hour was rotated out after 40 of its 100 bytes were read.\<close>

definition live_log :: file_meta where
  "live_log = \<lparr>fmName = ''m.log'', fmSize = 10, fmLastWrittenMS = 1\<rparr>"

definition hour_log :: file_meta where
  "hour_log = \<lparr>fmName = ''m.log.2024-01-01.5'', fmSize = 100, fmLastWrittenMS = 1\<rparr>"

definition hour_five :: hour_id where "hour_five = HourID ''2024-01-01'' 5"

definition hour_ckpt :: checkpoint where
  "hour_ckpt = zero_ckpt\<lparr>ckMarker := ''2024-01-01.5:40''\<rparr>"

definition sim_hour :: sim where
  "sim_hour = (sim_init [])\<lparr>smStore := [(store_key ''db-1'' ''m.log'', hour_ckpt)]\<rparr>"

lemma hour_five_wf: "hour_id_wf hour_five" "hour_id_String hour_five = ''2024-01-01.5''"
  by (simp_all add: hour_id_wf_def hour_five_def hour_id_String_def format_int_def nat_str.simps
      digit_char_def is_digit_def char_of_def bit_0)

lemma hour_marker: "ParseHourMarker (ckMarker hour_ckpt) = Some (hour_five, 40)"
  using ParseHourMarker_print [OF hour_five_wf(1), of 40] hour_five_wf(2)
  by (simp add: hour_ckpt_def format_int_def nat_str.simps digit_char_def i64_max_def char_of_def bit_0)

lemma hour_rotation:
  "\<lparr>rfMeta = hour_log, rfID = hour_five\<rparr> \<in> set (rotations [live_log, hour_log] ''m.log'')"
proof -
  have "SplitRotated (fmName hour_log) = Some (''m.log'', hour_five)"
    using SplitRotated_print [OF hour_five_wf(1), of "''m.log''" "''m''"] hour_five_wf(2)
    by (simp add: hour_log_def)
  then have "rotation_of [live_log, hour_log] hour_log = Some (''m.log'', hour_five)"
    by (simp add: rotation_of_def live_log_def)
  then show ?thesis by (simp add: rotations_def)
qed

lemma sim_hour_view:
  "mem_view (smStore sim_hour) ''db-1'' ''m.log'' = Some hour_ckpt"
  "mem_view (smStore sim_hour) ''db-1'' ''m.log.2024-01-01.5'' = None"
  by (simp_all add: sim_hour_def mem_view_def store_key_def)

section \<open>A configured sink\<close>

definition mem_cfg :: sink_cfg where
  "mem_cfg = \<lparr>csName = ''mem'', csType = ''memory'',
     csRetry = \<lparr>rpMaxAttempts = 3, rpInitialWait = second, rpMaxWait = minute, rpMultiplier = 2\<rparr>,
     csFilter = Some \<lparr>sfMinSeverity = ''WARNING'', sfSeverities = []\<rparr>,
     csS3 = None, csKafka = None, csHTTP = None, csStdout = None\<rparr>"

definition rec_a :: logrecord where
  "rec_a = \<lparr>lrInstanceID = ''db-1'', lrEngine = ''mysql'', lrLogFile = ''a.log'', lrTimestamp = unix_epoch,
     lrSeverity = ''ERROR'', lrMessage = ''boom'', lrMarker = ''x:4'', lrBatchID = ''b1'',
     lrAudit = None, lrTruncated = False\<rparr>"

lemma sim_init_dlq: "dlq_wf (smDb (sim_init fs))"
  by (simp add: dlq_wf_def sim_init_def)

lemma sim_sink_name: "skName sim_sink = ''mem''"
  by (simp add: sim_sink_def)

section \<open>Two sinks, and a sink that counts its calls\<close>

definition mem_sink_at :: "('w \<Rightarrow> mem_sink) \<Rightarrow> (mem_sink \<Rightarrow> 'w \<Rightarrow> 'w) \<Rightarrow> 'w sink" where
  "mem_sink_at getter putter = \<lparr>skName = ''mem'', skType = ''memory'',
     skWrite = (\<lambda>rs w. case mem_sink_Write rs (getter w) of (r, s) \<Rightarrow> (r, putter s w)),
     skClose = (\<lambda>w. (None, w))\<rparr>"

lemma all_less_two: "(\<forall>i < Suc (Suc 0). P i) \<longleftrightarrow> P 0 \<and> P (Suc 0)"
  using less_Suc_eq by auto

lemma mem_pair_indep:
  "indep_sinks [(mem_sink_at fst (\<lambda>s w. (s, snd w)), \<lambda>w :: mem_sink \<times> mem_sink. concat (msBatches (fst w))),
     (mem_sink_at snd (\<lambda>s w. (fst w, s)), \<lambda>w. concat (msBatches (snd w)))]"
  by (auto simp: indep_sinks_def sink_contract_def mem_sink_at_def mem_sink_Write_def write_keeps_def
      all_less_two split: option.splits prod.splits)

definition count_env :: "(nat \<times> nat) env" where
  "count_env = \<lparr>enCtx = (\<lambda>w. None), enNow = (\<lambda>w. unix_epoch), enSleep = (\<lambda>d w. (None, w)),
     enRand = (\<lambda>n w. 0), enOverflow = i64_min, enMarshal = (\<lambda>rs. Some [])\<rparr>"

definition count_sink :: "(nat \<times> nat) sink" where
  "count_sink = \<lparr>skName = ''count'', skType = ''memory'',
     skWrite = (\<lambda>rs w. (Some (ErrMsg ''down''), (fst w, snd w + 1))), skClose = (\<lambda>w. (None, w))\<rparr>"

end
