(* ===== verification/RangeProps.thy ===== *)
theory RangeProps
  imports Sim "HOL-Library.Sublist"
begin

text \<open>
  What ReadRange returns of a file with fixed contents: the whole lines a range owns.  A range
  owns the line that begins at its start, if a line begins there, and every line that begins
  inside it; the ranges of a parallel read therefore tile the file.
\<close>

section \<open>The contents of a file\<close>

text \<open>T is served when every successful read at an offset of T is a piece of T there, is complete
  when it is the last, and does not stall before the end.\<close>

definition serves_text :: "'w fetcher \<Rightarrow> string \<Rightarrow> string \<Rightarrow> string \<Rightarrow> bool" where
  "serves_text f logFile pfx T =
     (\<forall>pos w raw w'. pullRaw f logFile (offset_marker pfx (int pos)) w = (Inr raw, w') \<longrightarrow>
        pos \<le> length T \<longrightarrow> rpTruncated raw = 0 \<longrightarrow>
        prefix (rpData raw) (drop pos T)
        \<and> (\<not> rpPending raw \<or> rpData raw = [] \<longrightarrow> rpData raw = drop pos T))"

text \<open>Where the range that ends at end really ends, in the text that begins at bufStart: behind the
  first newline at or after end - 1, else behind the last newline.\<close>

definition range_idx :: "string \<Rightarrow> int \<Rightarrow> int \<Rightarrow> nat" where
  "range_idx text bufStart end =
     (let last = (case last_index_byte text nl of None \<Rightarrow> 0 | Some i \<Rightarrow> i + 1) in
      if end < 0 then last
      else let from = nat (max (end - 1 - bufStart) 0) in
        (case index_byte (drop from text) nl of None \<Rightarrow> last | Some i \<Rightarrow> from + i + 1))"

definition range_text :: "string \<Rightarrow> nat \<Rightarrow> int \<Rightarrow> bool \<Rightarrow> string \<times> int" where
  "range_text T start end lineStart =
     (let b = (if lineStart then start else start - 1); text = drop b T
      in cutRange text (int b) lineStart (range_idx text (int b) end))"

section \<open>The loop\<close>

lemma index_byte_append_some:
  "index_byte xs c = Some i \<Longrightarrow> index_byte (xs @ ys) c = Some i"
  by (induction xs arbitrary: i) (auto split: if_splits option.splits)

lemma range_cut_prefix:
  assumes "prefix t F" "range_cut t b end ls = Some x"
  shows "x = cutRange F b ls (range_idx F b end)"
proof -
  let ?from = "nat (max (end - 1 - b) 0)"
  obtain i where i: "\<not> end < 0" "?from < length t" "index_byte (drop ?from t) nl = Some i"
      "x = cutRange t b ls (?from + i + 1)"
    using assms(2) by (auto simp: range_cut_def Let_def split: if_splits option.splits)
  obtain u where F: "F = t @ u" using assms(1) by (auto simp: prefix_def)
  have "index_byte (drop ?from F) nl = Some i"
    using i(2,3) index_byte_append_some by (simp add: F)
  then have idx: "range_idx F b end = ?from + i + 1"
    using i(1) by (simp add: range_idx_def Let_def)
  have il: "i < length (drop ?from t)" "drop ?from t ! i = nl"
    using index_byte_SomeD [OF i(3)] by auto
  then have n: "?from + i < length t" "t ! (?from + i) = nl" using i(2) by auto
  then have "nl \<in> set t" using nth_mem by metis
  then obtain k where k: "index_byte t nl = Some k" using index_byte_None_iff by fastforce
  then have k2: "index_byte F nl = Some k" by (simp add: F index_byte_append_some)
  have "take (?from + i + 1) F = take (?from + i + 1) t" using n(1) by (simp add: F)
  then show ?thesis unfolding i(4) idx using k k2 by (simp add: cutRange_def)
qed

lemma range_cut_None:
  "range_cut F b end ls = None \<Longrightarrow>
     range_idx F b end = (case last_index_byte F nl of None \<Rightarrow> 0 | Some i \<Rightarrow> i + 1)"
  by (auto simp: range_cut_def range_idx_def Let_def not_less split: if_splits option.splits)

lemma take_drop_add: "b \<le> pos \<Longrightarrow> take (pos - b) (drop b T) @ take n (drop pos T) = take (pos + n - b) (drop b T)"
proof -
  assume b: "b \<le> pos"
  then have "pos + n - b = (pos - b) + n" "drop (pos - b) (drop b T) = drop pos T" by simp_all
  then show ?thesis by (simp add: take_add)
qed

lemma range_loop_text:
  assumes T: "serves_text f logFile pfx T" and b: "b \<le> length T"
  shows "pos \<le> length T \<Longrightarrow> b \<le> pos \<Longrightarrow> buf = take (pos - b) (drop b T) \<Longrightarrow>
    \<exists>res w'. range_loop f logFile pfx (int b) end ls (int pos) buf w = Some (res, w')
      \<and> (\<forall>x. res = Inr x \<longrightarrow> x = cutRange (drop b T) (int b) ls (range_idx (drop b T) (int b) end))"
proof (induction "length T - pos" arbitrary: pos buf w rule: less_induct)
  case less
  obtain r w1 where r: "pullRaw f logFile (offset_marker pfx (int pos)) w = (r, w1)"
    by (cases "pullRaw f logFile (offset_marker pfx (int pos)) w")
  show ?case
  proof (cases r)
    case (Inl e)
    then show ?thesis using r by (subst range_loop.simps) simp
  next
    case (Inr raw)
    let ?len = "length (rpData raw)"
    let ?bad = "rpTruncated raw > 0 \<or> OffsetMarker (rpNext raw) = None
      \<or> (snd (the (OffsetMarker (rpNext raw))) \<noteq> int pos + int ?len \<and> (rpPending raw \<or> int ?len > 0))"
    show ?thesis
    proof (cases ?bad)
      case True
      then show ?thesis using r Inr by (subst range_loop.simps) (simp add: Let_def)
    next
      case False
      note ok = False
      have p: "prefix (rpData raw) (drop pos T)"
          "\<not> rpPending raw \<or> rpData raw = [] \<longrightarrow> rpData raw = drop pos T"
        using T r Inr less.prems(1) ok unfolding serves_text_def by (metis neq0_conv)+
      let ?buf = "buf @ rpData raw"
      have d: "rpData raw = take ?len (drop pos T)" using p(1) by (metis prefix_def append_eq_conv_conj)
      have len: "pos + ?len \<le> length T" using prefix_length_le [OF p(1)] less.prems(1) by simp
      have buf: "?buf = take (pos + ?len - b) (drop b T)"
        using take_drop_add [OF less.prems(2), of T ?len] less.prems(3) d by simp
      then have pre: "prefix ?buf (drop b T)" by (metis take_is_prefix)
      have loop: "range_loop f logFile pfx (int b) end ls (int pos) buf w =
          (case range_cut ?buf (int b) end ls of
             Some x \<Rightarrow> Some (Inr x, w1)
           | None \<Rightarrow>
               if \<not> rpPending raw \<or> ?len = 0 then
                 Some (Inr (cutRange ?buf (int b) ls
                        (case last_index_byte ?buf nl of None \<Rightarrow> 0 | Some i \<Rightarrow> i + 1)), w1)
               else range_loop f logFile pfx (int b) end ls (int (pos + ?len)) ?buf w1)"
        using r Inr ok by (subst range_loop.simps) (auto simp: Let_def split: option.splits)
      show ?thesis
      proof (cases "range_cut ?buf (int b) end ls")
        case (Some x)
        then show ?thesis using loop range_cut_prefix [OF pre Some] by simp
      next
        case None
        show ?thesis
        proof (cases "\<not> rpPending raw \<or> ?len = 0")
          case True
          then have "rpData raw = drop pos T" using p(2) by simp
          then have "?buf = drop b T"
            using buf len less.prems(1) by (simp add: take_all_iff)
          then show ?thesis using loop None True range_cut_None [of ?buf "int b" "end" ls] by simp
        next
          case False
          then have "length T - (pos + ?len) < length T - pos"
            using len by (cases "rpData raw") auto
          from less.hyps [OF this len _ buf] less.prems(2)
          show ?thesis using loop None False by simp
        qed
      qed
    qed
  qed
qed

lemma ReadRange_text:
  assumes "serves_text f logFile pfx T" "start \<le> length T" "\<not> ls \<Longrightarrow> 1 \<le> start"
  shows "\<exists>res w'. ReadRange f logFile pfx (int start) end ls w = Some (res, w')
    \<and> (\<forall>x. res = Inr x \<longrightarrow> x = range_text T start end ls)"
proof -
  let ?b = "if ls then start else start - 1"
  have b: "?b \<le> length T" "int ?b = (if ls then int start else int start - 1)"
    using assms(2,3) by (auto simp: of_nat_diff)
  show ?thesis
    using range_loop_text [OF assms(1) b(1) b(1) order_refl, of "[]" "end" ls w] b(2)
    by (simp add: ReadRange_def range_text_def Let_def)
qed

section \<open>Ranges tile\<close>

lemma nth_in_drop: "j < length (drop f X) \<Longrightarrow> drop f X ! j = X ! (f + j)"
  by (simp add: nth_drop)

lemma drop_shift: "drop (n + i + 1) (take (n + j) F) = drop (i + 1) (take j (drop n F))"
  by (simp add: drop_take ac_simps)

lemma index_byte_le: "index_byte xs c = Some i \<Longrightarrow> j < length xs \<Longrightarrow> xs ! j = c \<Longrightarrow> i \<le> j"
proof (induction xs arbitrary: i j)
  case (Cons x xs)
  then show ?case by (cases j) (auto split: if_splits option.splits)
qed simp

lemma last_index_byte_ge:
  assumes "i < length xs" "xs ! i = c"
  shows "\<exists>k. last_index_byte xs c = Some k \<and> i \<le> k"
proof -
  have "c \<in> set xs" using assms nth_mem by metis
  then obtain k where k: "last_index_byte xs c = Some k" using last_index_byte_None_iff by fastforce
  have "i \<le> k"
  proof (rule ccontr)
    assume "\<not> i \<le> k"
    then have "drop (Suc k) xs ! (i - Suc k) = c" "i - Suc k < length (drop (Suc k) xs)"
      using assms by simp_all
    then show False using last_index_byte_SomeD [OF k] nth_mem by metis
  qed
  then show ?thesis using k by blast
qed

lemma last_index_byte_append_left:
  "last_index_byte ys c = Some k \<Longrightarrow> last_index_byte (xs @ ys) c = Some (length xs + k)"
  by (induction xs) auto

text \<open>The end of a range, seen from an earlier start.\<close>

lemma range_idx_shift:
  assumes "A + n = B" "index_byte (drop n F) nl = Some i" "end < 0 \<or> int B < end" "n \<le> length F"
  shows "range_idx F (int A) end = n + range_idx (drop n F) (int B) end
    \<and> i + 1 \<le> range_idx (drop n F) (int B) end"
proof -
  let ?F2 = "drop n F"
  have i: "i < length ?F2" "?F2 ! i = nl" using index_byte_SomeD [OF assms(2)] by auto
  obtain k where k: "last_index_byte ?F2 nl = Some k" "i \<le> k" using last_index_byte_ge [OF i] by blast
  have "last_index_byte (take n F @ ?F2) nl = Some (n + k)"
    using last_index_byte_append_left [OF k(1), of "take n F"] assms(4) by simp
  then have kF: "last_index_byte F nl = Some (n + k)" by simp
  show ?thesis
  proof (cases "end < 0")
    case True
    then show ?thesis using k kF by (simp add: range_idx_def)
  next
    case False
    let ?f = "nat (max (end - 1 - int B) 0)"
    have fr: "nat (max (end - 1 - int A) 0) = n + ?f" using assms(1,3) False by auto
    have dr: "drop (n + ?f) F = drop ?f ?F2" by (simp add: add.commute)
    show ?thesis
    proof (cases "index_byte (drop ?f ?F2) nl")
      case None
      then show ?thesis using False k kF by (simp add: range_idx_def Let_def fr dr)
    next
      case (Some j)
      have j: "j < length (drop ?f ?F2)" "drop ?f ?F2 ! j = nl" using index_byte_SomeD [OF Some] by auto
      have "?f + j < length ?F2" using j(1) by auto
      moreover have "?F2 ! (?f + j) = nl" using nth_in_drop [OF j(1)] j(2) by (rule trans [OF sym])
      ultimately have "i \<le> ?f + j" by (rule index_byte_le [OF assms(2)])
      then show ?thesis using False Some by (simp add: range_idx_def Let_def fr dr)
    qed
  qed
qed

lemma range_idx_bound: "range_idx F b end \<le> length F"
proof -
  have l: "(case last_index_byte F nl of None \<Rightarrow> 0 | Some i \<Rightarrow> i + 1) \<le> length F"
    using last_index_byte_SomeD by (auto split: option.splits) fastforce
  have "f + j + 1 \<le> length F" if "index_byte (drop f F) nl = Some j" for f j
    using index_byte_SomeD [OF that] by auto
  then show ?thesis using l by (auto simp: range_idx_def Let_def split: option.splits)
qed

text \<open>Where no newline follows, ranges end behind the last one.\<close>

lemma range_idx_last:
  assumes "nl \<notin> set (drop n F)" "int A + int n < end \<or> end < 0"
  shows "range_idx F (int A) end = (case last_index_byte F nl of None \<Rightarrow> 0 | Some i \<Rightarrow> i + 1)"
proof -
  have "index_byte (drop (nat (max (end - 1 - int A) 0)) F) nl = None" if "\<not> end < 0"
  proof -
    have "n \<le> nat (max (end - 1 - int A) 0)" using assms(2) that by auto
    then have "set (drop (nat (max (end - 1 - int A) 0)) F) \<subseteq> set (drop n F)" by (rule set_drop_subset_set_drop)
    then show ?thesis using assms(1) by (auto simp: index_byte_None_iff)
  qed
  then show ?thesis by (simp add: range_idx_def Let_def)
qed

text \<open>A range cut at e1, and the bytes from there to e2.\<close>

lemma cutRange_split:
  assumes "e1 \<le> e2" "e2 \<le> length F" "\<And>k. \<not> ls \<Longrightarrow> index_byte F nl = Some k \<Longrightarrow> k + 1 \<le> e1"
    and "ls \<or> nl \<in> set F"
  shows "fst (cutRange F b ls e1) @ drop e1 (take e2 F) = fst (cutRange F b ls e2)
    \<and> snd (cutRange F b ls e2) = b + int e2"
proof -
  have t: "take e2 F = take e1 F @ drop e1 (take e2 F)"
    using assms(1) by (metis append_take_drop_id min.absorb1 take_take)
  show ?thesis
  proof (cases ls)
    case True
    then show ?thesis using t by (simp add: cutRange_def)
  next
    case False
    then obtain k where k: "index_byte F nl = Some k" "k + 1 \<le> e1"
      using assms(3,4) index_byte_None_iff by fastforce
    have "drop (k + 1) (take e2 F) = drop (k + 1) (take e1 F) @ drop e1 (take e2 F)"
      using t k(2) assms(1,2) by (metis drop_append diff_is_0_eq drop_0 length_take min.absorb2 order_trans)
    then show ?thesis using False k assms(1) by (simp add: cutRange_def)
  qed
qed

lemma range_text_tile:
  assumes "a < b" "b \<le> length T" "c < 0 \<or> int b < c" "\<not> ls \<Longrightarrow> 1 \<le> a"
  shows "fst (range_text T a (int b) ls) @ fst (range_text T b c False) = fst (range_text T a c ls)
    \<and> (nl \<in> set (drop (b - 1) T) \<longrightarrow> snd (range_text T b c False) = snd (range_text T a c ls))"
proof -
  define A where "A = (if ls then a else a - 1)"
  define n where "n = b - 1 - A"
  let ?F = "drop A T" and ?B = "b - 1"
  have A: "A \<le> ?B" "A + n = ?B" "n \<le> length ?F" using assms(1,2,4) by (auto simp: A_def n_def)
  have F2: "drop n ?F = drop ?B T" using A(2) by (simp add: add.commute)
  have rt: "range_text T a e ls = cutRange ?F (int A) ls (range_idx ?F (int A) e)" for e
    by (simp add: range_text_def A_def Let_def)
  have rt2: "range_text T b c False = cutRange (drop ?B T) (int ?B) False (range_idx (drop ?B T) (int ?B) c)"
    by (simp add: range_text_def Let_def)
  have cB: "c < 0 \<or> int ?B < c" using assms(3) by auto
  show ?thesis
  proof (cases "index_byte (drop ?B T) nl")
    case None
    then have nn: "nl \<notin> set (drop n ?F)" unfolding F2 by (simp add: index_byte_None_iff)
    have "range_idx ?F (int A) (int b) = range_idx ?F (int A) c"
      using range_idx_last [OF nn, of A] A(2) assms(1,3) by auto
    moreover have "fst (range_text T b c False) = []" using None by (simp add: rt2 cutRange_def)
    ultimately show ?thesis using None by (simp add: rt index_byte_None_iff)
  next
    case (Some i)
    note some = Some
    let ?e1 = "n + i + 1" and ?j = "range_idx (drop ?B T) (int ?B) c"
    have e2: "range_idx ?F (int A) c = n + ?j" "i + 1 \<le> ?j"
      using range_idx_shift [of A n ?B ?F i c] A(2,3) F2 Some cB by simp_all
    have "range_idx ?F (int A) (int b) = ?e1"
    proof -
      have "nat (max (int b - 1 - int A) 0) = n" using A(2) assms(1) by auto
      then show ?thesis using Some F2 by (simp add: range_idx_def Let_def)
    qed
    note e1 = this
    have i: "i < length (drop n ?F)" "drop n ?F ! i = nl" using index_byte_SomeD [OF Some] F2 by auto
    have atn: "n + i < length ?F" "?F ! (n + i) = nl"
      using i(1) nth_in_drop [OF i(1)] i(2) by (simp_all del: drop_drop)
    have b2: "n + ?j \<le> length ?F" using range_idx_bound [of ?F "int A" c] e2(1) by simp
    have s: "fst (cutRange ?F (int A) ls ?e1) @ drop ?e1 (take (n + ?j) ?F) = fst (cutRange ?F (int A) ls (n + ?j))
        \<and> snd (cutRange ?F (int A) ls (n + ?j)) = int A + int (n + ?j)"
    proof (rule cutRange_split)
      show "?e1 \<le> n + ?j" using e2(2) by simp
      show "n + ?j \<le> length ?F" by (rule b2)
      show "k + 1 \<le> ?e1" if "index_byte ?F nl = Some k" for k
        using index_byte_le [OF that atn] by simp
      show "ls \<or> nl \<in> set ?F" using atn nth_mem by metis
    qed
    have "drop ?e1 (take (n + ?j) ?F) = drop (i + 1) (take ?j (drop ?B T))"
      unfolding F2 [symmetric] by (rule drop_shift)
    then have "fst (range_text T b c False) = drop ?e1 (take (n + ?j) ?F)"
        "snd (range_text T b c False) = int ?B + int ?j"
      using some e2(2) by (simp_all add: rt2 cutRange_def)
    moreover have "int A + int (n + ?j) = int ?B + int ?j" using A(2) by simp
    ultimately show ?thesis using s by (simp add: rt e1 e2(1))
  qed
qed

section \<open>A served text\<close>

lemma OffsetMarker_print:
  "in_i64 off \<Longrightarrow> pfx \<noteq> [] \<Longrightarrow> OffsetMarker (offset_marker pfx off) = Some (pfx, off)"
  by (simp add: OffsetMarker_def offset_marker_def last_index_byte_append parse_int_format_int)

text \<open>The portions of a server that holds T: at most n bytes at the offset the marker names.\<close>

definition text_portion :: "string \<Rightarrow> nat \<Rightarrow> string \<Rightarrow> string \<Rightarrow> portion_resp" where
  "text_portion pfx n T m =
     (let pos = nat (case OffsetMarker m of None \<Rightarrow> 0 | Some (_, off) \<Rightarrow> off) in
      \<lparr>prData = take n (drop pos T), prMarker = offset_marker pfx (int (min (pos + n) (length T))),
       prPending = pos + n < length T\<rparr>)"

lemma short_untruncated: "length d < length truncationNotice \<Longrightarrow> \<not> isTruncated d"
proof
  assume d: "length d < length truncationNotice" and "isTruncated d"
  then have "suffix truncationNotice (trim_right_byte d nl)"
    by (simp add: isTruncated_def has_suffix_def)
  then have "length truncationNotice \<le> length (trim_right_byte d nl)" by (rule suffix_length_le)
  moreover have "length (trim_right_byte d nl) \<le> length d"
    using length_dropWhile_le [of _ "rev d"] by (simp add: trim_right_byte_def)
  ultimately show False using d by simp
qed

lemma serves_untruncated_portion:
  assumes "pfx \<noteq> []" "0 < n" "int (length T) \<le> i64_max" "\<And>pos. \<not> isTruncated (take n (drop pos T))"
  shows "serves_text (sim_fetcher (text_portion pfx n T) parser) name pfx T"
  unfolding serves_text_def
proof (intro allI impI)
  fix pos w raw w'
  assume p: "pullRaw (sim_fetcher (text_portion pfx n T) parser) name (offset_marker pfx (int pos)) w
      = (Inr raw, w')" and pos: "pos \<le> length T"
  have om: "OffsetMarker (offset_marker pfx (int pos)) = Some (pfx, int pos)"
    using assms pos by (intro OffsetMarker_print) (auto simp: in_i64_def i64_min_def)
  have tr: "\<not> isTruncated (take n (drop pos T))" by (rule assms(4))
  have "raw = sim_raw (text_portion pfx n T) (offset_marker pfx (int pos))"
    using p by (simp add: sim_pullRaw split: if_splits)
  then have "rpData raw = take n (drop pos T)" "rpPending raw = (pos + n < length T)"
    using tr by (simp_all add: sim_raw_def plain_portion_def text_portion_def om Let_def)
  then show "prefix (rpData raw) (drop pos T)
      \<and> (\<not> rpPending raw \<or> rpData raw = [] \<longrightarrow> rpData raw = drop pos T)"
    using assms(2) pos by (auto simp: take_is_prefix)
qed

lemma serves_text_portion:
  assumes "pfx \<noteq> []" "0 < n" "int (length T) \<le> i64_max" "length T < length truncationNotice"
  shows "serves_text (sim_fetcher (text_portion pfx n T) parser) name pfx T"
  using assms(4) by (intro serves_untruncated_portion assms(1-3) short_untruncated) simp

section \<open>Properties\<close>

text \<open>C26. Reads of adjacent ranges of a file tile it: ReadRange always returns, and when the reads
  of [a, b) and of [b, c) and the one read of [a, c) all succeed, with any other requests between
  them, the first two bodies one behind the other are exactly the third, so the parallel read
  neither loses a line at a boundary nor returns it twice.\<close>

theorem range_reads_tile:
  assumes "serves_text f lf pfx T" "a < b" "b \<le> length T" "c < 0 \<or> int b < c" "ls \<or> 1 \<le> a"
  shows "\<exists>r1 r2 r3. map_option fst (ReadRange f lf pfx (int a) (int b) ls w1) = Some r1
    \<and> map_option fst (ReadRange f lf pfx (int b) c False w2) = Some r2
    \<and> map_option fst (ReadRange f lf pfx (int a) c ls w3) = Some r3
    \<and> (\<forall>x1 x2 x3. r1 = Inr x1 \<longrightarrow> r2 = Inr x2 \<longrightarrow> r3 = Inr x3 \<longrightarrow> fst x1 @ fst x2 = fst x3)"
proof -
  have al: "a \<le> length T" "\<not> ls \<Longrightarrow> 1 \<le> a" "\<not> False \<Longrightarrow> 1 \<le> b" using assms(2,3,5) by auto
  obtain r1 v1 where 1: "ReadRange f lf pfx (int a) (int b) ls w1 = Some (r1, v1)"
      "\<And>x. r1 = Inr x \<Longrightarrow> x = range_text T a (int b) ls"
    using ReadRange_text [OF assms(1) al(1,2)] by blast
  obtain r2 v2 where 2: "ReadRange f lf pfx (int b) c False w2 = Some (r2, v2)"
      "\<And>x. r2 = Inr x \<Longrightarrow> x = range_text T b c False"
    using ReadRange_text [OF assms(1,3) al(3)] by blast
  obtain r3 v3 where 3: "ReadRange f lf pfx (int a) c ls w3 = Some (r3, v3)"
      "\<And>x. r3 = Inr x \<Longrightarrow> x = range_text T a c ls"
    using ReadRange_text [OF assms(1) al(1,2)] by blast
  have "fst (range_text T a (int b) ls) @ fst (range_text T b c False) = fst (range_text T a c ls)"
    using range_text_tile [OF assms(2-4), of ls] al(2) by blast
  then have "fst x1 @ fst x2 = fst x3" if "r1 = Inr x1" "r2 = Inr x2" "r3 = Inr x3" for x1 x2 x3
    using 1(2) [OF that(1)] 2(2) [OF that(2)] 3(2) [OF that(3)] by simp
  then show ?thesis using 1(1) 2(1) 3(1) by (intro exI [of _ r1] exI [of _ r2] exI [of _ r3]) simp
qed

theorem range_reads_tile_witness:
  "\<forall>w1 w2. \<exists>r1 r2.
     map_option fst (ReadRange (sim_fetcher (text_portion ''7'' 4 [CHR ''a'', nl, CHR ''b'', nl]) None)
       ''m.log'' ''7'' 0 3 True w1) = Some r1
   \<and> map_option fst (ReadRange (sim_fetcher (text_portion ''7'' 4 [CHR ''a'', nl, CHR ''b'', nl]) None)
       ''m.log'' ''7'' 3 (- 1) False w2) = Some r2"
proof (intro allI)
  fix w1 w2
  let ?T = "[CHR ''a'', nl, CHR ''b'', nl]"
  let ?f = "sim_fetcher (text_portion ''7'' 4 ?T) None"
  have "serves_text ?f ''m.log'' ''7'' ?T"
    by (rule serves_text_portion) (simp_all add: i64_max_def truncationNotice_def)
  from range_reads_tile [OF this, of 0 3 "- 1" True w1 w2 w1]
  show "\<exists>r1 r2. map_option fst (ReadRange ?f ''m.log'' ''7'' 0 3 True w1) = Some r1
      \<and> map_option fst (ReadRange ?f ''m.log'' ''7'' 3 (- 1) False w2) = Some r2"
    by auto
qed

end
