(* ===== verification/ParallelProps.thy ===== *)
theory ParallelProps
  imports RangeProps RecordProps
begin

text \<open>
  The parallel read of a large file (parallelDrain): on a file whose bytes are fixed it always
  returns, whatever fails, and the records it ships are the lines of the file from where it began
  to where its checkpoint ends.
\<close>

section \<open>Lines of a text\<close>

definition text_lines :: "string \<Rightarrow> string list" where
  "text_lines t = filter (\<lambda>l. l \<noteq> []) (split_byte nl t)"

definition sub :: "string \<Rightarrow> nat \<Rightarrow> nat \<Rightarrow> string" where
  "sub T a b = take (b - a) (drop a T)"

text \<open>Where a line may end: at the start of the text or behind a newline.\<close>

definition ends_line :: "string \<Rightarrow> bool" where
  "ends_line t = (t = [] \<or> last t = nl)"

lemma sub_empty [simp]: "sub T a a = []"
  by (simp add: sub_def)

lemma text_lines_empty [simp]: "text_lines [] = []"
  by (simp add: text_lines_def)

lemma sub_append: "a \<le> b \<Longrightarrow> b \<le> c \<Longrightarrow> sub T a b @ sub T b c = sub T a c"
proof -
  assume "a \<le> b" "b \<le> c"
  then have "c - a = (b - a) + (c - b)" "drop b T = drop (b - a) (drop a T)" by simp_all
  then show ?thesis by (simp add: sub_def take_add)
qed

lemma text_lines_append: "ends_line xs \<Longrightarrow> text_lines (xs @ ys) = text_lines xs @ text_lines ys"
proof (cases "xs = []")
  case False
  assume "ends_line xs"
  then have "xs = butlast xs @ [nl]" using False by (metis append_butlast_last_id ends_line_def)
  then obtain u where u: "xs = u @ [nl]" by blast
  show ?thesis by (simp add: u text_lines_def split_byte_append)
qed simp

text \<open>A text that goes on within its last line.\<close>

lemma split_byte_open:
  assumes "x \<noteq> nl"
  shows "\<exists>A a. a \<noteq> [] \<and> (\<forall>m b B. split_byte nl m = b # B \<longrightarrow> split_byte nl (u @ x # m) = A @ (a @ b) # B)"
proof (induction u)
  case Nil
  then show ?case using assms by (intro exI [of _ "[]"] exI [of _ "[x]"]) simp
next
  case (Cons y u)
  then obtain A a where h: "a \<noteq> []"
      "\<And>m b B. split_byte nl m = b # B \<Longrightarrow> split_byte nl (u @ x # m) = A @ (a @ b) # B"
    by blast
  show ?case
  proof (cases "y = nl")
    case True
    then show ?thesis using h by (intro exI [of _ "[] # A"] exI [of _ a]) simp
  next
    case False
    show ?thesis
    proof (cases A)
      case Nil
      then show ?thesis using h False by (intro exI [of _ "[]"] exI [of _ "y # a"]) simp
    next
      case (Cons p ps)
      then show ?thesis using h False by (intro exI [of _ "(y # p) # ps"] exI [of _ a]) simp
    qed
  qed
qed

lemma msg_nonempty_lines:
  assumes "m \<in> set (fst (foldl (msg_line p) s ls))" "\<forall>l \<in> set ls. nl \<notin> set l"
    and "\<forall>m \<in> set (fst s). [] \<notin> set (split_byte nl m)"
  shows "[] \<notin> set (split_byte nl m)"
  using assms
proof (induction ls arbitrary: s)
  case (Cons l ls)
  obtain out b where s: "s = (out, b)" by (cases s)
  have sp: "split_byte nl l = [l]" using Cons.prems(2) by (intro split_byte_notin) simp
  have "\<forall>m \<in> set (fst (msg_line p s l)). [] \<notin> set (split_byte nl m)"
    using Cons.prems(3) by (auto simp: s sp split_byte_append dest: in_set_butlastD)
  then show ?case using Cons.IH [of "msg_line p s l"] Cons.prems(1,2) by simp
qed simp

lemma parse_msgs_nonempty: "m \<in> set (fst (parse_msgs p t)) \<Longrightarrow> [] \<notin> set (split_byte nl m)"
  unfolding parse_msgs_def
  by (rule msg_nonempty_lines) (auto dest: split_byte_parts)

text \<open>The last record of a text that ends with it and a newline can be held back.\<close>

lemma held_back_lines:
  assumes ms: "fst (parse_msgs p (t @ last ms @ [nl])) = ms" "2 \<le> length ms"
  shows "msg_lines (butlast ms) = text_lines t \<and> ends_line t"
proof -
  let ?m = "last ms"
  have ne: "ms \<noteq> []" using ms(2) by auto
  obtain b B where m: "split_byte nl ?m = b # B" by (cases "split_byte nl ?m") auto
  have nb: "[] \<notin> set (b # B)"
    using parse_msgs_nonempty [of ?m p "t @ ?m @ [nl]"] ms(1) ne m by simp
  then have fb: "filter (\<lambda>l. l \<noteq> []) (b # B) = b # B" by (auto intro: filter_True)
  have snl: "split_byte nl (?m @ [nl]) = b # B @ [[]]"
    using split_byte_append [of nl ?m "[]"] m by simp
  have tm: "text_lines (?m @ [nl]) = b # B"
    unfolding text_lines_def snl append_Cons [symmetric] filter_append fb by simp
  have all: "msg_lines (butlast ms) @ (b # B) = text_lines (t @ ?m @ [nl])"
  proof -
    have "msg_lines ms = msg_lines (butlast ms) @ (b # B)"
      using msg_lines_append [of "butlast ms" "[?m]"] append_butlast_last_id [OF ne] m
      by (simp add: msg_lines_def)
    then show ?thesis using parse_msgs_lines [of p "t @ ?m @ [nl]"] ms(1) by (simp add: text_lines_def)
  qed
  show ?thesis
  proof (cases "ends_line t")
    case True
    then have "text_lines (t @ ?m @ [nl]) = text_lines t @ (b # B)"
      using text_lines_append [OF True, of "?m @ [nl]"] tm by simp
    then show ?thesis using all True by simp
  next
    case False
    then obtain u x where t: "t = u @ [x]" "x \<noteq> nl"
      by (metis append_butlast_last_id ends_line_def)
    obtain A a where a: "a \<noteq> []" "split_byte nl (u @ x # ?m @ [nl]) = A @ (a @ b) # B @ [[]]"
      using split_byte_open [OF t(2), of u] snl by blast
    have "filter (\<lambda>l. l \<noteq> []) B = B" using nb by (intro filter_True) auto
    then have "text_lines (t @ ?m @ [nl]) = filter (\<lambda>l. l \<noteq> []) A @ (a @ b) # B"
      using a by (simp add: t text_lines_def)
    then have "msg_lines (butlast ms) @ b # B = filter (\<lambda>l. l \<noteq> []) A @ (a @ b) # B" using all by simp
    then have "b = a @ b" by (simp add: append_eq_append_conv)
    then show ?thesis using a(1) by simp
  qed
qed

section \<open>Ranges of a text\<close>

text \<open>A body that ends at stop is the text there.\<close>

definition body_at :: "string \<Rightarrow> string \<times> int \<Rightarrow> bool" where
  "body_at T x = (\<exists>b. snd x = int b \<and> b \<le> length T \<and> length (fst x) \<le> b \<and> fst x = sub T (b - length (fst x)) b)"

lemma range_idx_le: "range_idx t b stop \<le> length t"
proof -
  have "Suc i \<le> length t" if "last_index_byte t nl = Some i" for i
    using last_index_byte_SomeD [OF that] by simp
  moreover have "from + i + 1 \<le> length t" if "index_byte (drop from t) nl = Some i" for "from" i
    using index_byte_SomeD [OF that] by auto
  ultimately show ?thesis by (auto simp: range_idx_def Let_def split: option.split)
qed

lemma cutRange_body:
  assumes "b \<le> length T" "idx \<le> length (drop b T)"
  shows "body_at T (cutRange (drop b T) (int b) ls idx)"
proof -
  let ?t = "drop b T"
  have empty: "body_at T ([], int b + int k)" if "k \<le> length ?t" for k
    using that assms(1) unfolding body_at_def by (intro exI [of _ "b + k"]) auto
  show ?thesis
  proof (cases ls)
    case True
    have "sub T b (b + idx) = take idx ?t" by (simp add: sub_def)
    then show ?thesis using True assms unfolding body_at_def cutRange_def
      by (intro exI [of _ "b + idx"]) auto
  next
    case False
    show ?thesis
    proof (cases "index_byte ?t nl")
      case None
      then show ?thesis using False empty [OF assms(2)] by (simp add: cutRange_def)
    next
      case (Some i)
      have i: "i < length ?t" using index_byte_SomeD [OF Some] by simp
      show ?thesis
      proof (cases "idx < i + 1")
        case True
        have c: "cutRange ?t (int b) ls idx = ([], int b + int (i + 1))"
          unfolding cutRange_def using False Some True by simp
        show ?thesis unfolding c by (rule empty) (use i in simp)
      next
        case le: False
        have "cutRange ?t (int b) ls idx = (drop (i + 1) (take idx ?t), int b + int idx)"
          using False Some le by (simp add: cutRange_def)
        moreover have "drop (i + 1) (take idx ?t) = sub T (b + idx - (idx - (i + 1))) (b + idx)"
          using le by (simp add: sub_def drop_take add.commute)
        moreover have "length (drop (i + 1) (take idx ?t)) = idx - (i + 1)" using assms(2) by simp
        moreover have "b + idx \<le> length T" "idx - (i + 1) \<le> b + idx" using assms by auto
        ultimately show ?thesis unfolding body_at_def
          by (intro exI [of _ "b + idx"]) simp
      qed
    qed
  qed
qed

lemma ReadRange_body:
  assumes "serves_text f name pfx T" "start \<le> length T" "\<not> ls \<Longrightarrow> 1 \<le> start"
  obtains res w' where "ReadRange f name pfx (int start) stop ls w = Some (res, w')"
    "\<And>x. res = Inr x \<Longrightarrow> body_at T x"
proof -
  let ?b = "if ls then start else start - 1"
  have "?b \<le> start" by simp
  then have "?b \<le> length T" using assms(2) by (rule le_trans)
  then have "body_at T (range_text T start stop ls)"
    using cutRange_body [OF _ range_idx_le] by (simp add: range_text_def Let_def)
  then show ?thesis using ReadRange_text [OF assms] that by metis
qed

text \<open>The reads of a wave return.\<close>

definition range_fits :: "string \<Rightarrow> int \<times> int \<times> bool \<Rightarrow> bool" where
  "range_fits T r = (case r of (start, stop, ls) \<Rightarrow> 0 \<le> start \<and> start \<le> int (length T) \<and> (ls \<or> 1 \<le> start))"

lemma read_ranges_body:
  assumes T: "serves_text f name pfx T"
  shows "list_all (range_fits T) rs \<Longrightarrow> \<exists>xs w'. read_ranges f name pfx rs w = Some (xs, w')
    \<and> (\<forall>x. Inr x \<in> set xs \<longrightarrow> body_at T x)"
proof (induction rs arbitrary: w)
  case (Cons r rs)
  obtain start stop ls where r: "r = (int start, stop, ls)" "start \<le> length T" "ls \<or> 1 \<le> start"
    using Cons.prems by (cases r) (auto simp: range_fits_def elim!: nonneg_int_cases)
  obtain res w1 where 1: "ReadRange f name pfx (int start) stop ls w = Some (res, w1)"
      "\<And>x. res = Inr x \<Longrightarrow> body_at T x"
    using ReadRange_body [OF T r(2)] r(3) by blast
  have "list_all (range_fits T) rs" using Cons.prems by simp
  from Cons.IH [OF this, of w1] obtain xs w2 where "read_ranges f name pfx rs w1 = Some (xs, w2)"
      "\<forall>x. Inr x \<in> set xs \<longrightarrow> body_at T x" by blast
  then show ?case using 1 r(1) by (intro exI [of _ "res # xs"] exI [of _ w2]) auto
qed simp

lemma range_plan_fits:
  "0 \<le> off \<Longrightarrow> sz \<le> int (length T) \<Longrightarrow> list_all (range_fits T) (range_plan off sz n lastWave i k)"
  by (induction k arbitrary: i)
    (auto simp: range_fits_def Let_def parallelSegment_def)

lemma tile_body:
  "tile (int a) sb rs = Tiled t stop \<Longrightarrow> sb = sub T off a \<Longrightarrow> off \<le> a \<Longrightarrow> a \<le> length T \<Longrightarrow>
     (\<forall>x. Inr x \<in> set rs \<longrightarrow> body_at T x) \<Longrightarrow>
     \<exists>b. stop = int b \<and> off \<le> b \<and> b \<le> length T \<and> t = sub T off b"
proof (induction rs arbitrary: a sb)
  case (Cons r rs)
  show ?case
  proof (cases r)
    case (Inl e)
    then show ?thesis using Cons.prems(1) by (auto split: if_splits)
  next
    case (Inr x)
    obtain s b where x: "x = (s, int b)" "b \<le> length T" "length s \<le> b" "s = sub T (b - length s) b"
      using Cons.prems(5) Inr by (cases x) (auto simp: body_at_def)
    have a: "b - length s = a" and rest: "tile (int b) (sb @ s) rs = Tiled t stop"
      using Cons.prems(1) Inr x(1,3) by (auto split: if_splits)
    have "sb @ s = sub T off b"
      using sub_append [of off a b T] Cons.prems(2,3) x(3,4) a by simp
    then show ?thesis using Cons.IH [OF rest] Cons.prems(3,5) x(2,3) a by simp
  qed
qed auto

text \<open>A read leaves alone what a request leaves alone.\<close>

lemma range_loop_frame:
  assumes frame: "\<And>m w r w'. pullRaw f name m w = (r, w') \<Longrightarrow> obs w' = obs w"
    and run: "range_loop f name pfx b stop ls pos buf w = Some y"
  shows "obs (snd y) = obs w"
proof -
  have "f = f \<longrightarrow> name = name \<longrightarrow> obs (snd y) = obs w"
  proof (rule range_loop.raw_induct [where P = "\<lambda>g n x b' e l p u w y.
        g = f \<longrightarrow> n = name \<longrightarrow> obs (snd y) = obs w", OF _ run], intro impI, goal_cases)
    case (1 rec g n x b' e l p u w y)
    obtain r w1 where r: "pullRaw f name (offset_marker x p) w = (r, w1)"
      by (cases "pullRaw f name (offset_marker x p) w")
    have w1: "obs w1 = obs w" using frame [OF r] .
    show ?case
    proof (cases r)
      case (Inl e)
      then show ?thesis using 1 r w1 by auto
    next
      case (Inr raw)
      note b = 1(2) [unfolded 1(3,4) r prod.case Inr sum.case Let_def]
      consider (out) z where "y = (z, w1)"
        | (more) p' t where "rec f name x b' e l p' t w1 = Some y"
        using b by (cases "range_cut (u @ rpData raw) b' e l") (simp_all split: if_splits, blast+)
      then show ?thesis
      proof cases
        case out
        then show ?thesis using w1 by simp
      next
        case more
        then show ?thesis using 1(1) [OF more] w1 by simp
      qed
    qed
  qed
  then show ?thesis by simp
qed

lemma ReadRange_frame:
  assumes "\<And>m w r w'. pullRaw f name m w = (r, w') \<Longrightarrow> obs w' = obs w"
    and "ReadRange f name pfx start stop ls w = Some (r, w')"
  shows "obs w' = obs w"
  using range_loop_frame [OF assms(1) assms(2) [unfolded ReadRange_def Let_def]] by simp

lemma read_ranges_frame:
  assumes "\<And>m w r w'. pullRaw f name m w = (r, w') \<Longrightarrow> obs w' = obs w"
  shows "read_ranges f name pfx rs w = Some (xs, w') \<Longrightarrow> obs w' = obs w"
proof (induction rs arbitrary: w xs)
  case (Cons r rs)
  obtain start stop ls where r: "r = (start, stop, ls)" by (cases r)
  obtain x w1 where 1: "ReadRange f name pfx start stop ls w = Some (x, w1)"
    using Cons.prems r by (cases "ReadRange f name pfx start stop ls w") auto
  obtain ys where "read_ranges f name pfx rs w1 = Some (ys, w')"
    using Cons.prems r 1 by (cases "read_ranges f name pfx rs w1") auto
  then show ?case using Cons.IH ReadRange_frame [OF assms 1] by simp
qed simp

section \<open>One wave\<close>

lemma wave_records_lines:
  assumes "wave_records f name lastWave (sub T off e0) (int e0) w = Some (recs, waveEnd)"
    and "off \<le> e0" "e0 \<le> length T"
  shows "\<exists>e. waveEnd = int e \<and> off \<le> e \<and> e \<le> length T
    \<and> msg_lines (map lrMessage recs) = text_lines (sub T off e) \<and> (\<not> lastWave \<longrightarrow> ends_line (sub T off e))"
proof -
  let ?text = "sub T off e0"
  obtain rs leading where p: "parseRecords f name ?text w = (rs, leading)"
    by (cases "parseRecords f name ?text w")
  have ms: "fst (parse_msgs (ftParser f) ?text) = map lrMessage rs"
    using parseRecords_msgs [OF p] by simp
  have len: "length ?text = e0 - off" using assms(2,3) by (simp add: sub_def)
  show ?thesis
  proof (cases lastWave)
    case True
    then have "recs = rs" "waveEnd = int e0" using assms(1) p by (simp_all add: wave_records_def Records_def Let_def)
    then show ?thesis using True ms parse_msgs_lines [of "ftParser f" ?text] assms(2,3)
      by (intro exI [of _ e0]) (simp add: text_lines_def)
  next
    case False
    let ?tail = "lrMessage (last rs) @ [nl]"
    have h: "2 \<le> length rs" "has_suffix ?text ?tail" "recs = butlast rs" "waveEnd = int e0 - int (length ?tail)"
      using assms(1) p False by (auto simp: wave_records_def Records_def Let_def split: if_splits)
    obtain t where t: "?text = t @ ?tail" using h(2) by (auto simp: has_suffix_def suffix_def)
    have l: "length t + length ?tail = e0 - off" using arg_cong [OF t, of length] len by simp
    then have e: "e0 - length ?tail = off + length t" using assms(2) by auto
    have "t = sub T off (off + length t)"
    proof -
      have "t = take (length t) ?text" by (simp add: t)
      also have "\<dots> = sub T off (off + length t)" using l by (simp add: sub_def min_def)
      finally show ?thesis .
    qed
    moreover have "msg_lines (butlast (map lrMessage rs)) = text_lines t \<and> ends_line t"
    proof (rule held_back_lines)
      have "last (map lrMessage rs) = lrMessage (last rs)" using h(1) by (cases rs) (auto simp: last_map)
      then show "fst (parse_msgs (ftParser f) (t @ last (map lrMessage rs) @ [nl])) = map lrMessage rs"
        using ms t by simp
    qed (use h(1) in simp)
    moreover have "waveEnd = int (off + length t)" "off + length t \<le> length T"
      using h(4) e l assms(2,3) by auto
    ultimately show ?thesis using h(3) by (intro exI [of _ "off + length t"]) (simp add: map_butlast)
  qed
qed

text \<open>The durable checkpoint covers nothing that was not acknowledged.\<close>

definition durable_at ::
    "('w \<Rightarrow> checkpoint option) \<Rightarrow> string \<Rightarrow> string \<Rightarrow> nat \<Rightarrow> 'w \<Rightarrow> 'w \<Rightarrow> logrecord list \<Rightarrow> bool" where
  "durable_at view T pfx off w w' sent =
     (\<exists>d. off \<le> d \<and> d \<le> length T \<and> prefix (text_lines (sub T off d)) (msg_lines (map lrMessage sent))
        \<and> (view w' = view w \<and> d = off
           \<or> (\<exists>c. view w' = Some c \<and> ckMarker c = offset_marker pfx (int d) \<and> \<not> ckSkip c)))"

lemma durable_same: "view w' = view w \<Longrightarrow> off \<le> length T \<Longrightarrow> durable_at view T pfx off w w' sent"
  unfolding durable_at_def by (intro exI [of _ off]) simp

lemma durable_new:
  assumes "view w' = Some c" "ckMarker c = offset_marker pfx (int e)" "\<not> ckSkip c" "off \<le> e" "e \<le> length T"
    and "msg_lines (map lrMessage sent) = text_lines (sub T off e)"
  shows "durable_at view T pfx off w w' sent"
  unfolding durable_at_def using assms by (intro exI [of _ e]) auto

text \<open>What a wave has done: it ended the drain, or went on from e.\<close>

definition wave_did ::
    "('w \<Rightarrow> logrecord list) \<Rightarrow> ('w \<Rightarrow> checkpoint option) \<Rightarrow> string \<Rightarrow> string \<Rightarrow> nat \<Rightarrow> bool \<Rightarrow> nat \<Rightarrow> 'w
       \<Rightarrow> ((nat \<times> go_err option) + (checkpoint \<times> int \<times> nat)) \<Rightarrow> 'w \<Rightarrow> bool" where
  "wave_did acked view T pfx off lastWave shipped w r w' =
     (case r of
        Inl (n, err) \<Rightarrow> (\<exists>extra. acked w' = acked w @ extra \<and> n = shipped + length extra
          \<and> (extra \<noteq> [] \<longrightarrow> err \<noteq> None) \<and> durable_at view T pfx off w w' extra)
      | Inr (c, stop, n) \<Rightarrow> (\<exists>recs e c'. stop = int e \<and> off < e \<and> e \<le> length T \<and> acked w' = acked w @ recs
          \<and> n = shipped + length recs \<and> msg_lines (map lrMessage recs) = text_lines (sub T off e)
          \<and> ckMarker c = offset_marker pfx (int e) \<and> \<not> ckSkip c
          \<and> view w' = Some c' \<and> ckMarker c' = ckMarker c \<and> \<not> ckSkip c'
          \<and> (\<not> lastWave \<longrightarrow> ends_line (sub T off e))))"

context drain_world
begin

lemma set_ckpt_did:
  assumes "set_ckpt wk name c ws w = (r, ws', w')"
  shows "acked w' = acked w" "r = None \<Longrightarrow> \<exists>c'. view w' = Some c' \<and> ckMarker c' = ckMarker c \<and> ckSkip c' = ckSkip c"
    "r \<noteq> None \<Longrightarrow> view w' = view w
      \<or> (\<exists>c'. view w' = Some c' \<and> ckMarker c' = ckMarker c \<and> ckSkip c' = ckSkip c)"
proof -
  obtain x w1 where x: "ssSet (wkStore wk) (wkInstance wk) name c w = (x, w1)"
    by (cases "ssSet (wkStore wk) (wkInstance wk) name c w")
  then have w1: "w' = w1" "r = x" using assms by (auto simp: set_ckpt_def split: option.splits)
  show "acked w' = acked w" using store_ok [of c w w1] store_err [of c w _ w1] x w1(1) by (cases x) auto
  show "r = None \<Longrightarrow> \<exists>c'. view w' = Some c' \<and> ckMarker c' = ckMarker c \<and> ckSkip c' = ckSkip c"
    using store_ok [of c w w1] x w1 by auto
  show "r \<noteq> None \<Longrightarrow> view w' = view w
      \<or> (\<exists>c'. view w' = Some c' \<and> ckMarker c' = ckMarker c \<and> ckSkip c' = ckSkip c)"
    using store_err [of c w _ w1] x w1 by (cases x) auto
qed

lemma wave_stops:
  assumes "acked w' = acked w" "view w' = view w" "off \<le> length T"
  shows "wave_did acked view T pfx off lastWave shipped w (Inl (shipped, err)) w'"
  using assms durable_same [of view w' w off T pfx "[]"] by (simp add: wave_did_def)

lemma parallel_wave_did:
  assumes name: "fmName file = name" and off: "off \<le> length T"
    and results: "\<forall>x. Inr x \<in> set results \<longrightarrow> body_at T x"
    and run: "parallel_wave wk file pfx (int off) lastWave prev shipped results ws w = (r, ws', w')"
  shows "wave_did acked view T pfx off lastWave shipped w r w'"
proof (cases "tile (int off) [] results")
  case (TileErr e)
  then show ?thesis using run wave_stops off by (auto simp: parallel_wave_def)
next
  case NoTile
  then show ?thesis using run wave_stops off by (auto simp: parallel_wave_def)
next
  case (Tiled body stop)
  obtain e0 where e0: "stop = int e0" "off \<le> e0" "e0 \<le> length T" "body = sub T off e0"
    using tile_body [OF Tiled, of T off] off results by auto
  show ?thesis
  proof (cases "wave_records (wkFetcher wk) name lastWave body stop w")
    case None
    then show ?thesis using run wave_stops off Tiled name by (auto simp: parallel_wave_def)
  next
    case (Some p)
    obtain recs0 waveEnd where p: "p = (recs0, waveEnd)" by (cases p)
    obtain e where e: "waveEnd = int e" "off \<le> e" "e \<le> length T"
        "msg_lines (map lrMessage recs0) = text_lines (sub T off e)" "\<not> lastWave \<longrightarrow> ends_line (sub T off e)"
      using wave_records_lines [OF Some [unfolded e0 p] e0(2,3)] by blast
    show ?thesis
    proof (cases "waveEnd \<le> int off")
      case True
      then show ?thesis using run wave_stops off Tiled name Some p by (auto simp: parallel_wave_def)
    next
      case False
      then have lt: "off < e" using e(1) by simp
      define next' where "next' = offset_marker pfx waveEnd"
      define recs where "recs = stamp next' (BatchID (wkInstance wk) name (ckMarker prev) next') recs0"
      define ckpt where "ckpt = \<lparr>ckMarker = next', ckBytesWritten = ckBytesWritten prev + (waveEnd - int off),
          ckFileSize = fmSize file, ckLastWritten = LastWritten file, ckSkip = False\<rparr>"
      have m: "msg_lines (map lrMessage recs) = text_lines (sub T off e)"
        using e(4) by (simp add: recs_def stamp_def comp_def)
      have mk: "ckMarker ckpt = offset_marker pfx (int e)" "\<not> ckSkip ckpt"
        by (simp_all add: ckpt_def next'_def e(1))
      obtain x w1 where x: "(if recs = [] then (None, w) else skWrite (wkSink wk) recs w) = (x, w1)"
        by fastforce
      define ws2 where "ws2 = (if recs = [] then noteServerStart recs ws
          else rememberShipped name recs (noteServerStart recs ws))"
      have go: "(case (x, w1) of
          (Some er, v) \<Rightarrow> (Inl (shipped, Some (Wrapped ''sink write'' er)), noteServerStart recs ws, v)
        | (None, v) \<Rightarrow>
            (case set_ckpt wk name ckpt ws2 v of
               (Some er, ws3, v2) \<Rightarrow> (Inl (shipped + length recs, Some (Wrapped ''state set'' er)), ws3, v2)
             | (None, ws3, v2) \<Rightarrow>
                 (Inr (ckpt, waveEnd, shipped + length recs),
                  recordMark (enNow (wkEnv wk) v2) name next' ws3, v2))) = (r, ws', w')"
        using run unfolding parallel_wave_def name Tiled tiling.case Some p option.case prod.case Let_def
          next'_def [symmetric] recs_def [symmetric] ckpt_def [symmetric] ws2_def [symmetric] x
        by (simp only: False if_False)
      show ?thesis
      proof (cases x)
        case (Some er)
        then have "acked w1 = acked w" "view w1 = view w" using x write_err [of recs w er w1] by (auto split: if_splits)
        moreover have "r = Inl (shipped, Some (Wrapped ''sink write'' er))" "w' = w1" using go Some by simp_all
        ultimately show ?thesis using wave_stops off by blast
      next
        case None
        then have a1: "acked w1 = acked w @ recs" "view w1 = view w"
          using x write_ok [of recs w w1] by (auto split: if_splits)
        obtain y ws3 w2 where y: "set_ckpt wk name ckpt ws2 w1 = (y, ws3, w2)"
          by (cases "set_ckpt wk name ckpt ws2 w1")
        have r: "r = (case y of Some er \<Rightarrow> Inl (shipped + length recs, Some (Wrapped ''state set'' er))
            | None \<Rightarrow> Inr (ckpt, waveEnd, shipped + length recs))" "w' = w2"
          using go None y by (auto split: option.splits)
        have a2: "acked w2 = acked w @ recs" using set_ckpt_did(1) [OF y] a1 by simp
        show ?thesis
        proof (cases y)
          case yn: None
          then obtain c' where "view w2 = Some c'" "ckMarker c' = ckMarker ckpt" "\<not> ckSkip c'"
            using set_ckpt_did(2) [OF y] mk by auto
          then show ?thesis unfolding wave_did_def r yn using lt e mk a2 m
            by auto
        next
          case ys: (Some er)
          have "durable_at view T pfx off w w2 recs"
            using set_ckpt_did(3) [OF y] ys a1(2) durable_same [of view w2 w off T pfx recs] off
              durable_new [of view w2 _ pfx e off T recs w] mk m e(2,3) by fastforce
          then show ?thesis unfolding wave_did_def r ys using a2 by auto
        qed
      qed
    qed
  qed
qed

end

section \<open>The loop\<close>

text \<open>What a parallel drain from off has done: it shipped the lines up to b, where the drain goes on,
  and perhaps records whose checkpoint it could not store.\<close>

definition par_did ::
    "('w \<Rightarrow> logrecord list) \<Rightarrow> ('w \<Rightarrow> checkpoint option) \<Rightarrow> string \<Rightarrow> string \<Rightarrow> nat \<Rightarrow> checkpoint \<Rightarrow> nat \<Rightarrow> 'w
       \<Rightarrow> (nat \<times> go_err option) \<times> checkpoint \<times> wst \<times> 'w \<Rightarrow> bool" where
  "par_did acked view T pfx off prev shipped w res =
     (case res of ((n, err), c, ws', w') \<Rightarrow>
        \<exists>sent extra b. acked w' = acked w @ sent @ extra \<and> n = shipped + length (sent @ extra)
          \<and> off \<le> b \<and> b \<le> length T \<and> msg_lines (map lrMessage sent) = text_lines (sub T off b)
          \<and> (extra \<noteq> [] \<longrightarrow> err \<noteq> None)
          \<and> (if b = off then c = prev else ckMarker c = offset_marker pfx (int b) \<and> \<not> ckSkip c)
          \<and> durable_at view T pfx off w w' (sent @ extra))"

lemma par_did_stop:
  assumes "acked w' = acked w @ extra" "n = shipped + length extra" "extra \<noteq> [] \<longrightarrow> err \<noteq> None" "off \<le> length T"
    "durable_at view T pfx off w w' extra"
  shows "par_did acked view T pfx off prev shipped w ((n, err), prev, ws', w')"
  unfolding par_did_def prod.case
  by (rule exI [of _ "[]"], rule exI [of _ extra], rule exI [of _ off]) (use assms in \<open>simp add: msg_lines_def\<close>)

lemma par_did_quiet:
  "acked w' = acked w \<Longrightarrow> view w' = view w \<Longrightarrow> off \<le> length T \<Longrightarrow>
     par_did acked view T pfx off prev shipped w ((shipped, err), prev, ws', w')"
  by (rule par_did_stop [where extra = "[]"]) (simp_all add: durable_same)

lemma par_did_wave:
  assumes wave: "wave_did acked view T pfx off lastWave shipped w (Inr (c, int e, n)) w1"
  shows "par_did acked view T pfx off prev shipped w ((n, None), c, ws', w1)"
    and "\<not> lastWave \<Longrightarrow> par_did acked view T pfx e c n w1 res \<Longrightarrow> par_did acked view T pfx off prev shipped w res"
proof -
  have "off < e \<and> e \<le> length T \<and> (\<exists>recs c'. acked w1 = acked w @ recs \<and> n = shipped + length recs
      \<and> msg_lines (map lrMessage recs) = text_lines (sub T off e) \<and> ckMarker c = offset_marker pfx (int e)
      \<and> \<not> ckSkip c \<and> view w1 = Some c' \<and> ckMarker c' = ckMarker c \<and> \<not> ckSkip c'
      \<and> (\<not> lastWave \<longrightarrow> ends_line (sub T off e)))"
    using wave by (simp add: wave_did_def)
  then obtain recs c' where h: "off < e" "e \<le> length T" "acked w1 = acked w @ recs" "n = shipped + length recs"
      "msg_lines (map lrMessage recs) = text_lines (sub T off e)" "ckMarker c = offset_marker pfx (int e)"
      "\<not> ckSkip c" "view w1 = Some c'" "ckMarker c' = ckMarker c" "\<not> ckSkip c'"
      "\<not> lastWave \<longrightarrow> ends_line (sub T off e)"
    by blast
  have d: "durable_at view T pfx off w w1 recs"
    by (rule durable_new [of view w1 c' pfx e off T recs w]) (use h in auto)
  show "par_did acked view T pfx off prev shipped w ((n, None), c, ws', w1)"
    unfolding par_did_def prod.case
    by (rule exI [of _ recs], rule exI [of _ "[]"], rule exI [of _ e]) (use h d in auto)
  show "par_did acked view T pfx off prev shipped w res"
    if nl: "\<not> lastWave" and rest: "par_did acked view T pfx e c n w1 res"
  proof -
    obtain m err k ws2 w2 where res: "res = ((m, err), k, ws2, w2)" by (cases res) auto
    obtain sent extra b where r: "acked w2 = acked w1 @ sent @ extra" "m = n + length (sent @ extra)" "e \<le> b"
        "b \<le> length T" "msg_lines (map lrMessage sent) = text_lines (sub T e b)" "extra \<noteq> [] \<longrightarrow> err \<noteq> None"
        "if b = e then k = c else ckMarker k = offset_marker pfx (int b) \<and> \<not> ckSkip k"
        "durable_at view T pfx e w1 w2 (sent @ extra)"
      using rest by (auto simp: par_did_def res)
    have join: "text_lines (sub T off x) = text_lines (sub T off e) @ text_lines (sub T e x)" if "e \<le> x" for x
      using sub_append [of off e x T] text_lines_append [of "sub T off e" "sub T e x"] h(1,11) nl that by simp
    obtain d where dd: "e \<le> d" "d \<le> length T"
        "prefix (text_lines (sub T e d)) (msg_lines (map lrMessage (sent @ extra)))"
        "\<exists>c. view w2 = Some c \<and> ckMarker c = offset_marker pfx (int d) \<and> \<not> ckSkip c"
    proof -
      obtain d where d: "e \<le> d" "d \<le> length T"
          "prefix (text_lines (sub T e d)) (msg_lines (map lrMessage (sent @ extra)))"
          "view w2 = view w1 \<and> d = e
            \<or> (\<exists>c. view w2 = Some c \<and> ckMarker c = offset_marker pfx (int d) \<and> \<not> ckSkip c)"
        using r(8) unfolding durable_at_def by blast
      from d(4) have "\<exists>c. view w2 = Some c \<and> ckMarker c = offset_marker pfx (int d) \<and> \<not> ckSkip c"
        using h(6,8,9,10) by auto
      then show thesis using that d(1-3) by blast
    qed
    have "prefix (text_lines (sub T off d)) (msg_lines (map lrMessage (recs @ sent @ extra)))"
      using dd(3) by (simp add: join [OF dd(1)] h(5) msg_lines_append)
    then have "durable_at view T pfx off w w2 (recs @ sent @ extra)"
      unfolding durable_at_def using dd h(1) by (intro exI [of _ d]) auto
    then show ?thesis unfolding par_did_def res prod.case using r h(1,3-7) join [OF r(3)]
      by (intro exI [of _ "recs @ sent"] exI [of _ extra] exI [of _ b]) (auto simp: msg_lines_append split: if_splits)
  qed
qed

context drain_world
begin

lemma parallel_loop_did:
  assumes name: "fmName file = name" and T: "serves_text (wkFetcher wk) name pfx T"
    and size: "fmSize file \<le> int (length T)" and par: "1 \<le> wkParallelReads wk"
  shows "off \<le> length T \<Longrightarrow> \<exists>res. parallel_loop wk file pfx (int off) prev shipped ws w = Some res
    \<and> par_did acked view T pfx off prev shipped w res"
proof (induction "length T - off" arbitrary: off prev shipped ws w rule: less_induct)
  case less
  let ?n = "wkParallelReads wk"
  let ?last = "int off + ?n * parallelSegment \<ge> fmSize file"
  have quiet: "par_did acked view T pfx off prev shipped w ((shipped, err), prev, ws, w)" for err ws
    by (rule par_did_quiet) (use less.prems in auto)
  show ?case
  proof (cases "fmSize file - int off < ?n * parallelSegment div 2 \<or> enCtx (wkEnv wk) w \<noteq> None")
    case True
    then show ?thesis using quiet by (subst parallel_loop.simps) (auto simp: Let_def)
  next
    case go: False
    have "list_all (range_fits T) (range_plan (int off) (fmSize file) ?n ?last 0 (nat ?n))"
      by (rule range_plan_fits) (use size in auto)
    then obtain xs w1 where xs: "read_ranges (wkFetcher wk) name pfx
          (range_plan (int off) (fmSize file) ?n ?last 0 (nat ?n)) w = Some (xs, w1)"
        "\<forall>x. Inr x \<in> set xs \<longrightarrow> body_at T x"
      using read_ranges_body [OF T] by blast
    have f: "acked w1 = acked w" "view w1 = view w"
      using read_ranges_frame [of "wkFetcher wk" name acked, OF _ xs(1)]
        read_ranges_frame [of "wkFetcher wk" name view, OF _ xs(1)] pull_frame by blast+
    obtain r ws2 w2 where r: "parallel_wave wk file pfx (int off) ?last prev shipped xs ws w1 = (r, ws2, w2)"
      by (cases "parallel_wave wk file pfx (int off) ?last prev shipped xs ws w1")
    have "wave_did acked view T pfx off ?last shipped w1 r w2"
      by (rule parallel_wave_did [OF name less.prems xs(2) r])
    then have did: "wave_did acked view T pfx off ?last shipped w r w2"
      using f by (simp add: wave_did_def durable_at_def split: sum.splits prod.splits)
    have loop: "parallel_loop wk file pfx (int off) prev shipped ws w =
        (case r of Inl z \<Rightarrow> Some (z, prev, ws2, w2)
         | Inr (c, off', n') \<Rightarrow> if ?last then Some ((n', None), c, ws2, w2)
             else parallel_loop wk file pfx off' c n' ws2 w2)"
      using go xs(1) r name by (subst parallel_loop.simps) (auto simp: Let_def split: sum.splits)
    show ?thesis
    proof (cases r)
      case (Inl z)
      obtain m err where z: "z = (m, err)" by (cases z)
      have "par_did acked view T pfx off prev shipped w ((m, err), prev, ws2, w2)"
        using did Inl z less.prems by (auto simp: wave_did_def intro: par_did_stop)
      then show ?thesis using loop Inl z by simp
    next
      case (Inr p)
      obtain c e m where p: "p = (c, int e, m)" "off < e" "e \<le> length T"
        using did Inr by (cases p) (auto simp: wave_did_def)
      note w = did [unfolded Inr p(1)]
      show ?thesis
      proof (cases ?last)
        case True
        then show ?thesis using loop Inr p(1) par_did_wave(1) [OF w] by simp
      next
        case False
        have "length T - e < length T - off" using p(2,3) by simp
        from less.hyps [OF this p(3), of c m ws2 w2] obtain res
          where "parallel_loop wk file pfx (int e) c m ws2 w2 = Some res" "par_did acked view T pfx e c m w2 res"
          by blast
        then show ?thesis using loop Inr p(1) False par_did_wave(2) [OF w False] by simp
      qed
    qed
  qed
qed

end

section \<open>Properties\<close>

text \<open>C7. A parallel drain of a file whose bytes are T always returns, whatever fails.  What the sink
  acknowledged are first the records of T from the checkpoint to b, line by line and in order,
  where the drain goes on with the checkpoint it returns; then, only if it returns an error,
  the records of one wave whose checkpoint could not be stored.  The durable checkpoint never
  stands behind a line that was not acknowledged.\<close>

theorem parallel_drain_ships_lines:
  assumes "drain_world wk name R acked view" "fmName file = name" "serves_text (wkFetcher wk) name pfx T"
    and "OffsetMarker (ckMarker prev) = Some (pfx, int off)" "off \<le> length T"
    and "fmSize file \<le> int (length T)" "1 \<le> wkParallelReads wk"
  shows "\<exists>n err c ws' w' sent extra b. parallelDrain wk file prev ws w = Some ((n, err), c, ws', w')
    \<and> acked w' = acked w @ sent @ extra \<and> n = length (sent @ extra)
    \<and> off \<le> b \<and> b \<le> length T \<and> msg_lines (map lrMessage sent) = text_lines (sub T off b)
    \<and> (if b = off then c = prev else ckMarker c = offset_marker pfx (int b) \<and> \<not> ckSkip c)
    \<and> (extra \<noteq> [] \<longrightarrow> err \<noteq> None) \<and> durable_at view T pfx off w w' (sent @ extra)"
proof -
  obtain n err c ws' w' where "parallelDrain wk file prev ws w = Some ((n, err), c, ws', w')"
      "par_did acked view T pfx off prev 0 w ((n, err), c, ws', w')"
    using drain_world.parallel_loop_did [OF assms(1,2,3,6,7,5), of prev 0 ws w] assms(4)
    by (auto simp: parallelDrain_def)
  then show ?thesis unfolding par_did_def prod.case add_0 by blast
qed

text \<open>A file of one million empty lines, read in one wave of portions of a megabyte.\<close>

definition blank_text :: string where
  "blank_text = replicate 1048576 nl"

lemma blank_served: "serves_text (sim_fetcher (text_portion ''7'' 1048576 blank_text) parser) name ''7'' blank_text"
proof (rule serves_untruncated_portion)
  fix pos
  have "\<forall>c \<in> set (take 1048576 (drop pos blank_text)). c = nl"
    by (auto simp: blank_text_def dest!: in_set_takeD in_set_dropD)
  then have "trim_right_byte (take 1048576 (drop pos blank_text)) nl = []"
    by (simp add: trim_right_byte_def)
  then show "\<not> isTruncated (take 1048576 (drop pos blank_text))"
    by (simp add: isTruncated_def has_suffix_def truncationNotice_def)
qed (simp_all add: blank_text_def i64_max_def)

definition blank_log :: file_meta where
  "blank_log = log_a\<lparr>fmSize := 1048576\<rparr>"

definition blank_start :: checkpoint where
  "blank_start = zero_ckpt\<lparr>ckMarker := offset_marker ''7'' 0\<rparr>"

theorem parallel_drain_ships_lines_witness:
  "\<exists>n err c ws' w' sent extra b.
     parallelDrain (sim_worker (text_portion ''7'' 1048576 blank_text) None 0) blank_log blank_start
       (initial_wst unix_epoch) (sim_init []) = Some ((n, err), c, ws', w')
     \<and> sim_acked w' = sent @ extra \<and> b \<le> 1048576 \<and> msg_lines (map lrMessage sent) = text_lines (sub blank_text 0 b)"
proof -
  let ?wk = "sim_worker (text_portion ''7'' 1048576 blank_text) None 0"
  have wk: "wkFetcher ?wk = sim_fetcher (text_portion ''7'' 1048576 blank_text) None" "wkParallelReads ?wk = 1"
    by (simp_all add: sim_worker_def)
  have s: "serves_text (wkFetcher ?wk) ''a.log'' ''7'' blank_text" unfolding wk by (rule blank_served)
  have m: "OffsetMarker (ckMarker blank_start) = Some (''7'', int 0)"
    by (simp add: blank_start_def OffsetMarker_print in_i64_def i64_min_def i64_max_def)
  have l: "length blank_text = 1048576" by (simp add: blank_text_def)
  have a: "sim_acked (sim_init []) = []" by (simp add: sim_acked_def sim_init_def mem_sink_New_def)
  have f: "fmName blank_log = ''a.log''" "fmSize blank_log = 1048576" by (simp_all add: blank_log_def)
  have g: "0 \<le> length blank_text" "fmSize blank_log \<le> int (length blank_text)" "1 \<le> wkParallelReads ?wk"
    by (simp_all add: f(2) l wk(2))
  obtain n err c ws' w' sent extra b where
    "parallelDrain ?wk blank_log blank_start (initial_wst unix_epoch) (sim_init []) = Some ((n, err), c, ws', w')"
    "sim_acked w' = sim_acked (sim_init []) @ sent @ extra" "b \<le> length blank_text"
    "msg_lines (map lrMessage sent) = text_lines (sub blank_text 0 b)"
    using parallel_drain_ships_lines [OF simdr.drain_world_axioms f(1) s m g, of "initial_wst unix_epoch" "sim_init []"]
    by blast
  then show ?thesis unfolding a l by fastforce
qed

end
