(* ===== verification/PollProps.thy ===== *)
theory PollProps
  imports Sim
begin

text \<open>
  One whole poll of an instance (internal/pipeline/worker.go, pollOnce and drainAll) over
  many files: the drains of the files of a poll do not disturb one another, so the contract
  of drainFile holds for each of them, in the order the poll takes them.
\<close>

section \<open>A plan without rotated files\<close>

lemma planRotation_plain:
  assumes "\<forall>f \<in> set files. rotation_of files f = None" "ord [] = []"
  shows "planRotation wk ord files ws w = (Inr files, ws, w)"
proof -
  have "rotated_bases files = []" "plain_files files = files"
    using assms(1) by (simp_all add: rotated_bases_def plain_files_def filter_id_conv)
  then show ?thesis using assms(2) by (simp add: planRotation_def)
qed

section \<open>The world of a poll\<close>

text \<open>
  Every file is a drain_store; a call on one file leaves the checkpoints of the others alone.
\<close>

locale poll_world =
  fixes wk :: "'w worker" and names :: "string set" and R :: "string \<Rightarrow> string \<Rightarrow> raw_portion"
    and acked :: "'w \<Rightarrow> logrecord list" and view :: "string \<Rightarrow> 'w \<Rightarrow> checkpoint option"
  assumes each: "nm \<in> names \<Longrightarrow> drain_store wk nm (R nm) acked (view nm)"
    and pull_others: "nm \<in> names \<Longrightarrow> pullRaw (wkFetcher wk) nm m w = (r, w') \<Longrightarrow> g \<in> names \<Longrightarrow>
          view g w' = view g w"
    and get_others: "nm \<in> names \<Longrightarrow> ssGet (wkStore wk) (wkInstance wk) nm w = (x, w') \<Longrightarrow> g \<in> names \<Longrightarrow>
          view g w' = view g w"
    and set_others: "nm \<in> names \<Longrightarrow> ssSet (wkStore wk) (wkInstance wk) nm c w = (e, w') \<Longrightarrow> g \<in> names \<Longrightarrow>
          g \<noteq> nm \<Longrightarrow> view g w' = view g w"

text \<open>No message of a log reports a server start.\<close>

definition quiet_log :: "(string \<Rightarrow> cdata) \<Rightarrow> bool" where
  "quiet_log P = (\<forall>m. \<forall>msg \<in> set (cdMsgs (P m)). \<not> serverReady msg)"

text \<open>What decides whether a file is read on when its turn comes.\<close>

definition turn :: "string \<Rightarrow> wst \<Rightarrow> string list option \<times> time \<times> int \<times> restart_note list \<times> int" where
  "turn g ws = (wsInitialFiles ws, wsHorizon ws, wsRestartGen ws, wsRestarts ws, wsHandledGen ws g)"

lemma reads_on_turn:
  "turn (fmName file) ws = turn (fmName file) ws' \<Longrightarrow> reads_on wk ws file c = reads_on wk ws' file c"
  by (simp add: reads_on_def turn_def calm_def startFor_def restart_check_def pendingRestart_def Let_def
      split: option.splits prod.splits)

section \<open>What a drain leaves alone\<close>

lemma turn_steps [simp]:
  "turn g (stateOp a b ws) = turn g ws" "turn g (anomaly kd ws) = turn g ws"
  "turn g (rememberErrors now rs ws) = turn g ws" "turn g (rememberShipped f rs ws) = turn g ws"
  "turn g (recordMark now f m ws) = turn g ws" "turn g (noteProgress file c1 c2 k ws) = turn g ws"
  "turn g (snd (dropShippedErrors now rs ws)) = turn g ws"
  "turn g (note_throttle err ws) = turn g ws" "turn g (observeLag now file ws) = turn g ws"
  by (simp_all add: turn_def stateOp_def anomaly_def rememberErrors_def rememberShipped_def recordMark_def
      noteProgress_def dropShippedErrors_def note_throttle_def observeLag_def Let_def split: option.splits)

lemma turn_running: "running_recs now nm rs l ws = (x, ws') \<Longrightarrow> turn g ws' = turn g ws"
  using turn_steps(7) [of g now rs ws]
  by (cases "dropShippedErrors now rs ws") (auto simp: running_recs_def split: if_splits prod.splits)

lemma turn_handled [simp]: "g \<noteq> f \<Longrightarrow> turn g (markRestartHandled f gen ws) = turn g ws"
  by (simp add: turn_def markRestartHandled_def)

lemma first_banner_quiet: "\<forall>r \<in> set rs. \<not> serverReady (lrMessage r) \<Longrightarrow> first_banner since rs = None"
  by (induction rs) auto

lemma noteServerStart_quiet [simp]:
  "\<forall>r \<in> set rs. \<not> serverReady (lrMessage r) \<Longrightarrow> noteServerStart rs ws = ws"
  by (simp add: noteServerStart_def first_banner_quiet Let_def)

lemma drop_loop_subset: "set (fst (drop_loop s rs c)) \<subseteq> set rs"
  by (induction rs arbitrary: c) (auto simp: Let_def case_prod_beta)

lemma dedupe_recs_subset: "dedupe_recs ws nm d c rs l = (rs', x) \<Longrightarrow> set rs' \<subseteq> set rs"
  using drop_loop_subset [of _ rs c]
  by (fastforce simp: dedupe_recs_def dropAlreadyShipped_def case_prod_beta split: if_splits option.splits)

lemma running_recs_subset: "running_recs now nm rs l ws = ((rs', l'), ws') \<Longrightarrow> set rs' \<subseteq> set rs"
  by (auto simp: running_recs_def dropShippedErrors_def Let_def split: if_splits prod.splits)

lemma join_leading_subset: "join_leading l s p rs = (p', rs', a) \<Longrightarrow> set rs' \<subseteq> set rs"
  by (auto simp: join_leading_def split: if_splits prod.splits dest: list.set_sel(2))

lemma drop_first_subset: "drop_first d rs l = (rs', x) \<Longrightarrow> set rs' \<subseteq> set rs"
  by (auto simp: drop_first_def split: if_splits dest: list.set_sel(2))

lemma absorb_turn:
  assumes quiet: "\<forall>r \<in> set (chRecords ch). \<not> serverReady (lrMessage r)"
    and ab: "absorb now file ch dn ws = (dn', ws')"
  shows "turn g ws' = turn g ws"
proof -
  let ?ws0 = "if chTruncatedLines ch > 0 then anomaly ''truncated_line'' ws else ws"
  let ?st = "stamp (chNextMarker ch) (chBatchID ch) (chRecords ch)"
  obtain r1 l1 d1 where 1: "drop_first (dnDropFirst dn) ?st (chLeading ch) = (r1, l1, d1)"
    by (cases "drop_first (dnDropFirst dn) ?st (chLeading ch)")
  obtain r2 l2 c2 where 2: "dedupe_recs ?ws0 (fmName file) (dnDedupe dn) (dnConsumed dn) r1 l1 = (r2, l2, c2)"
    by (cases "dedupe_recs ?ws0 (fmName file) (dnDedupe dn) (dnConsumed dn) r1 l1")
  obtain r3 l3 ws1 where 3: "running_recs now (fmName file) r2 l2 ?ws0 = ((r3, l3), ws1)"
    by (cases "running_recs now (fmName file) r2 l2 ?ws0") auto
  obtain p4 r4 a4 where 4: "join_leading l3 (dnSkipLeading dn) (dnPending dn) r3 = (p4, r4, a4)"
    by (cases "join_leading l3 (dnSkipLeading dn) (dnPending dn) r3")
  have "set r4 \<subseteq> set ?st"
    using drop_first_subset [OF 1] dedupe_recs_subset [OF 2] running_recs_subset [OF 3]
      join_leading_subset [OF 4] by blast
  moreover have "\<forall>r \<in> set ?st. \<not> serverReady (lrMessage r)" using quiet by (auto simp: stamp_def)
  ultimately have q: "noteServerStart r4 ws1 = ws1" by (intro noteServerStart_quiet) blast
  have "ws' = noteServerStart r4 ws1"
    using ab 1 2 3 4 unfolding absorb_def Let_def by (simp only: prod.case prod.inject)
  then show ?thesis using q turn_running [OF 3] by simp
qed

context poll_world
begin

lemma write_keeps_view: "skWrite (wkSink wk) rs w = (x, w') \<Longrightarrow> g \<in> names \<Longrightarrow> view g w' = view g w"
  using drain_world.write_ok [OF drain_store.axioms(1) [OF each], of g rs w w']
    drain_world.write_err [OF drain_store.axioms(1) [OF each], of g rs w _ w'] by (cases x) auto

lemma PullPortion_keeps:
  assumes "PullPortion (wkFetcher wk) nm m w = (x, w')" "nm \<in> names" "g \<in> names"
  shows "view g w' = view g w"
  using assms(1) pull_others [OF assms(2) _ assms(3)]
  by (auto simp: PullPortion_def split: if_splits prod.splits sum.splits)

lemma PullPortion_quiet:
  assumes "PullPortion (wkFetcher wk) nm m w = (Inr ch, w')" "nm \<in> names"
    and q: "quiet_log (chunk_at (ftParser (wkFetcher wk)) (R nm))"
  shows "\<forall>r \<in> set (chRecords ch). \<not> serverReady (lrMessage r)"
proof -
  let ?m = "if m = [] then MarkerBeginning else m"
  obtain raw where raw: "pullRaw (wkFetcher wk) nm ?m w = (Inr raw, w')"
      "map lrMessage (chRecords ch) = cdMsgs (chunk_data (ftParser (wkFetcher wk)) raw)"
    using assms(1) by (rule PullPortion_chunk)
  have "raw = R nm ?m" using drain_world.pull_serves [OF drain_store.axioms(1) [OF each [OF assms(2)]] raw(1)] .
  then have "map lrMessage (chRecords ch) = cdMsgs (chunk_at (ftParser (wkFetcher wk)) (R nm) m)"
    using raw(2) by (simp add: chunk_at_def)
  then have "\<forall>msg \<in> set (map lrMessage (chRecords ch)). \<not> serverReady msg"
    using q by (simp add: quiet_log_def)
  then show ?thesis by simp
qed

lemma set_ckpt_keeps:
  assumes "set_ckpt wk nm c ws w = (err, ws', w')" "nm \<in> names" "g \<in> names" "g \<noteq> nm"
  shows "turn g ws' = turn g ws \<and> view g w' = view g w"
  using assms(1) set_others [OF assms(2) _ assms(3,4)]
  by (auto simp: set_ckpt_def split: prod.splits option.splits)

lemma flush_keeps:
  assumes fl: "flush wk file c hold dn ws w = (err, dn', ws', w')"
    and n: "fmName file \<in> names" "g \<in> names" "g \<noteq> fmName file"
  shows "turn g ws' = turn g ws \<and> view g w' = view g w"
proof -
  obtain ckpt batch carry where p: "flush_plan dn c hold = (ckpt, batch, carry)"
    by (cases "flush_plan dn c hold")
  obtain e1 dn1 ws1 w1 where f: "flush_write wk file batch carry dn ws w = (e1, dn1, ws1, w1)"
    by (cases "flush_write wk file batch carry dn ws w")
  have 1: "turn g ws1 = turn g ws \<and> view g w1 = view g w"
    using f write_keeps_view [OF _ n(2)]
    by (auto simp: flush_write_def split: if_splits prod.splits option.splits)
  obtain e2 ws2 w2 where st: "set_ckpt wk (fmName file) ckpt ws1 w1 = (e2, ws2, w2)"
    by (cases "set_ckpt wk (fmName file) ckpt ws1 w1")
  have 2: "turn g ws2 = turn g ws1 \<and> view g w2 = view g w1" using set_ckpt_keeps [OF st n] .
  show ?thesis using fl p f st 1 2 n(3)
    by (auto simp: flush_def commitRestart_def split: option.splits if_splits prod.splits)
qed

lemma drain_loop_keeps_raw:
  "drain_loop wk' file dn ws w = Some r \<Longrightarrow>
     wk' = wk \<longrightarrow> fmName file \<in> names \<longrightarrow> g \<in> names \<longrightarrow> g \<noteq> fmName file \<longrightarrow>
     quiet_log (chunk_at (ftParser (wkFetcher wk)) (R (fmName file))) \<longrightarrow>
     turn g (fst (snd r)) = turn g ws \<and> view g (snd (snd r)) = view g w"
proof (erule drain_loop.raw_induct
    [where P = "\<lambda>wk' file dn ws w r. wk' = wk \<longrightarrow> fmName file \<in> names \<longrightarrow> g \<in> names \<longrightarrow>
       g \<noteq> fmName file \<longrightarrow> quiet_log (chunk_at (ftParser (wkFetcher wk)) (R (fmName file))) \<longrightarrow>
       turn g (fst (snd r)) = turn g ws \<and> view g (snd (snd r)) = view g w", rotated], intro impI, goal_cases)
  case (1 loop wk' fl dn ws w r)
  note IH = 1(1) and run = 1(2) and a = 1(3-7)
  show ?case
  proof (cases "enCtx (wkEnv wk) w")
    case (Some e)
    then show ?thesis using run a by auto
  next
    case None
    obtain x w1 where p: "PullPortion (wkFetcher wk) (fmName fl) (dnMarker dn) w = (x, w1)"
      by (cases "PullPortion (wkFetcher wk) (fmName fl) (dnMarker dn) w")
    have v1: "view g w1 = view g w" using PullPortion_keeps [OF p a(2,3)] .
    show ?thesis
    proof (cases x)
      case (Inl e)
      then show ?thesis using run a None p v1 by auto
    next
      case (Inr ch)
      obtain dn1 ws1 where ab: "absorb (enNow (wkEnv wk) w1) fl ch dn ws = (dn1, ws1)"
        by (cases "absorb (enNow (wkEnv wk) w1) fl ch dn ws")
      have t1: "turn g ws1 = turn g ws"
        using absorb_turn [OF PullPortion_quiet [OF p [unfolded Inr] a(2,5)] ab] .
      show ?thesis
      proof (cases "chPending ch")
        case False
        obtain e2 dn2 ws2 w2 where f: "flush wk fl (chunk_ckpt fl ch dn1) False dn1 ws1 w1 = (e2, dn2, ws2, w2)"
          by (cases "flush wk fl (chunk_ckpt fl ch dn1) False dn1 ws1 w1")
        show ?thesis using run a None p Inr ab f False t1 v1 flush_keeps [OF f a(2-4)] by auto
      next
        case True
        obtain e2 dn2 ws2 w2 where f: "flush wk fl (chunk_ckpt fl ch dn1) (GroupsMultiline (wkFetcher wk))
            dn1 ws1 w1 = (e2, dn2, ws2, w2)"
          by (cases "flush wk fl (chunk_ckpt fl ch dn1) (GroupsMultiline (wkFetcher wk)) dn1 ws1 w1")
        note k = flush_keeps [OF f a(2-4)]
        consider (more) "\<not> batch_full wk dn1" | (err) e where "batch_full wk dn1" "e2 = Some e"
          | (on) "batch_full wk dn1" "e2 = None" by (cases e2) auto
        then show ?thesis
        proof cases
          case more
          then have "loop wk fl dn1 ws1 w1 = Some r" using run a None p Inr ab True by simp
          then show ?thesis using IH a t1 v1 by fastforce
        next
          case err
          then show ?thesis using run a None p Inr ab f True t1 v1 k by auto
        next
          case on
          then have "loop wk fl dn2 ws2 w2 = Some r" using run a None p Inr ab f True by simp
          then show ?thesis using IH a t1 v1 k by fastforce
        qed
      qed
    qed
  qed
qed

lemma drain_loop_keeps:
  assumes "drain_loop wk file dn ws w = Some (r, ws', w')"
    and "fmName file \<in> names" "g \<in> names" "g \<noteq> fmName file"
    and "quiet_log (chunk_at (ftParser (wkFetcher wk)) (R (fmName file)))"
  shows "turn g ws' = turn g ws \<and> view g w' = view g w"
  using drain_loop_keeps_raw [OF assms(1)] assms(2-5) by auto

lemma drain_found_turn:
  "drain_found file prev ws = (dn, ws') \<Longrightarrow> g \<noteq> fmName file \<Longrightarrow> turn g ws' = turn g ws"
  by (auto simp: drain_found_def restart_check_def split: prod.splits if_splits)

lemma drainFile_keeps:
  assumes d: "drainFile wk file ws w = Some (r, ws', w')"
    and n: "fmName file \<in> names" "g \<in> names" "g \<noteq> fmName file"
    and q: "quiet_log (chunk_at (ftParser (wkFetcher wk)) (R (fmName file)))"
    and go: "reads_on wk ws file (view (fmName file) w)"
  shows "turn g ws' = turn g ws \<and> view g w' = view g w"
proof -
  obtain x w1 where gt: "ssGet (wkStore wk) (wkInstance wk) (fmName file) w = (x, w1)"
    by (cases "ssGet (wkStore wk) (wkInstance wk) (fmName file) w")
  have v1: "view g w1 = view g w" using get_others [OF n(1) gt n(2)] .
  have fnd: "found = view (fmName file) w" if "x = Inr found" for found
    using drain_store.get_ok [OF each [OF n(1)]] gt that by blast
  have np: "drain_run wk file dn ws2 w1 = drain_loop wk file dn ws2 w1" for dn ws2
    using go by (simp add: drain_run_def wants_parallel_def reads_on_def)
  note k = drain_loop_keeps [OF _ n q]
  show ?thesis
  proof (cases x)
    case (Inl e)
    then show ?thesis using d gt v1 by (auto simp: drainFile_def)
  next
    case (Inr found)
    show ?thesis
    proof (cases found)
      case None
      then have "startFor wk (stateOp ''get'' ''ok'' ws) file \<noteq> StartFromEnd"
        using go fnd [OF Inr] by (simp add: reads_on_def)
      then show ?thesis using d gt Inr None k v1 by (auto simp: drainFile_def np Let_def)
    next
      case (Some prev)
      obtain dn ws2 where df: "drain_found file prev (stateOp ''get'' ''ok'' ws) = (dn, ws2)"
        by (cases "drain_found file prev (stateOp ''get'' ''ok'' ws)")
      then show ?thesis using d gt Inr Some k v1 drain_found_turn [OF df n(3)]
        by (auto simp: drainFile_def np Let_def)
    qed
  qed
qed

section \<open>The drains of a poll\<close>

text \<open>A file that its next drain reads on, whose portions are the chunks cs.\<close>

definition ready :: "(file_meta \<Rightarrow> cdata list) \<Rightarrow> wst \<Rightarrow> 'w \<Rightarrow> file_meta \<Rightarrow> bool" where
  "ready cs ws w f =
     (fmName f \<in> names \<and> quiet_log (chunk_at (ftParser (wkFetcher wk)) (R (fmName f)))
      \<and> reads_on wk ws f (view (fmName f) w)
      \<and> chain (chunk_at (ftParser (wkFetcher wk)) (R (fmName f))) (fst (resume_at (view (fmName f) w))) (cs f))"

text \<open>What the drain of f did from the world w on, with the records sent; fin: to the end.\<close>

definition did ::
    "(file_meta \<Rightarrow> cdata list) \<Rightarrow> bool \<Rightarrow> 'w \<Rightarrow> 'w \<Rightarrow> file_meta \<Rightarrow> logrecord list \<Rightarrow> bool" where
  "did cs fin w w' f sent =
     (let full = stream (snd (resume_at (view (fmName f) w))) [] (cs f) in
      prefix (map lrMessage sent) full
      \<and> covers_at (chunk_at (ftParser (wkFetcher wk)) (R (fmName f))) full (cdNext (last (cs f)))
          (view (fmName f) w') (map lrMessage sent)
      \<and> (fin \<longrightarrow> map lrMessage sent = full
           \<and> resume_at (view (fmName f) w') = (cdNext (last (cs f)), False)))"

definition others_kept :: "string set \<Rightarrow> wst \<Rightarrow> 'w \<Rightarrow> wst \<Rightarrow> 'w \<Rightarrow> bool" where
  "others_kept ns ws w ws' w' =
     (\<forall>g \<in> names - ns. turn g ws' = turn g ws \<and> view g w' = view g w)"

definition all_did ::
    "(file_meta \<Rightarrow> cdata list) \<Rightarrow> bool \<Rightarrow> file_meta list \<Rightarrow> wst \<Rightarrow> 'w \<Rightarrow> wst \<Rightarrow> 'w
       \<Rightarrow> (file_meta \<Rightarrow> logrecord list) \<Rightarrow> bool" where
  "all_did cs fin fs ws w ws' w' sent =
     (acked w' = acked w @ concat (map sent fs) \<and> (\<forall>f \<in> set fs. did cs fin w w' f (sent f))
      \<and> others_kept (fmName ` set fs) ws w ws' w')"

lemma ready_later:
  assumes "ready cs ws w f" "others_kept ns ws w ws' w'" "fmName f \<notin> ns"
  shows "ready cs ws' w' f"
proof -
  have "turn (fmName f) ws' = turn (fmName f) ws" "view (fmName f) w' = view (fmName f) w"
    using assms by (auto simp: others_kept_def ready_def)
  then show ?thesis using assms(1) reads_on_turn [of f ws' ws wk] by (simp add: ready_def)
qed

lemma did_other:
  assumes "view (fmName f) v = view (fmName f) w" "view (fmName f) v' = view (fmName f) w'"
  shows "did cs fin v v' f sent = did cs fin w w' f sent"
  using assms by (simp add: did_def Let_def)

lemma did_nothing: "ready cs ws w f \<Longrightarrow> did cs False w w f []"
  using drain_store.start_covers [OF each] drain_world.P_def [OF drain_store.axioms(1) [OF each]]
  by (auto simp: did_def ready_def Let_def covers_def owed_def)

text \<open>One drain.\<close>

lemma drain_step:
  assumes r: "ready cs ws w f" and fin: "fin \<Longrightarrow> healthy wk (fmName f) ok \<and> ok w"
  obtains n err ws' w' sent where "drainFile wk f ws w = Some ((n, err), ws', w')"
    "n = length sent" "acked w' = acked w @ sent" "did cs fin w w' f sent"
    "others_kept {fmName f} ws w ws' w'" "fin \<Longrightarrow> ok w'"
proof -
  have f: "fmName f \<in> names" "quiet_log (chunk_at (ftParser (wkFetcher wk)) (R (fmName f)))"
      "reads_on wk ws f (view (fmName f) w)" "cs f \<noteq> []"
    "chain (chunk_at (ftParser (wkFetcher wk)) (R (fmName f))) (fst (resume_at (view (fmName f) w))) (cs f)"
    using r by (auto simp: ready_def)
  obtain n err ws' w' sent where d: "drainFile wk f ws w = Some ((n, err), ws', w')"
      "acked w' = acked w @ sent" "n = length sent"
      "prefix (map lrMessage sent) (stream (snd (resume_at (view (fmName f) w))) [] (cs f))"
      "covers_at (chunk_at (ftParser (wkFetcher wk)) (R (fmName f)))
         (stream (snd (resume_at (view (fmName f) w))) [] (cs f)) (cdNext (last (cs f)))
         (view (fmName f) w') (map lrMessage sent)"
      "err = None \<Longrightarrow> map lrMessage sent = stream (snd (resume_at (view (fmName f) w))) [] (cs f)
         \<and> resume_at (view (fmName f) w') = (cdNext (last (cs f)), False)"
    using drainFile_ships [OF each [OF f(1)] refl f(3,5,4)] by blast
  have e: "err = None \<and> ok w'" if fin
    using drainFile_reads_on_ok [OF each [OF f(1)] _ _ refl f(3) d(1)] fin that by blast
  have "others_kept {fmName f} ws w ws' w'"
    using drainFile_keeps [OF d(1) f(1) _ _ f(2,3)] by (simp add: others_kept_def)
  moreover have "did cs fin w w' f sent" using d(4-6) e by (auto simp: did_def Let_def)
  ultimately show thesis using that d(1-3) e by blast
qed

text \<open>A drain, or none, before the drains of the other files.\<close>

lemma all_did_cons:
  assumes d: "did cs fin w w1 f s" "acked w1 = acked w @ s" "others_kept {fmName f} ws w ws1 w1"
    and a: "all_did cs fin fs (note_throttle err ws1) w1 ws' w' sent"
    and n: "fmName f \<notin> fmName ` set fs" "fmName ` set (f # fs) \<subseteq> names"
  shows "all_did cs fin (f # fs) ws w ws' w' (sent(f := s))"
proof -
  have nf: "f \<notin> set fs" using n(1) by blast
  then have m: "map (sent(f := s)) fs = map sent fs" by simp
  have ok1: "view (fmName g) w1 = view (fmName g) w" if "g \<in> set fs" for g
  proof -
    have "fmName g \<in> names - {fmName f}" using n that by (auto simp: image_iff)
    then show ?thesis using d(3) unfolding others_kept_def by blast
  qed
  have "view (fmName f) w' = view (fmName f) w1"
    using a n by (auto simp: all_did_def others_kept_def)
  then have "did cs fin w w' f s" using d(1) by (simp add: did_def)
  moreover have "did cs fin w w' g (sent g)" if "g \<in> set fs" for g
    using a that did_other [of g w1 w w' w' cs fin "sent g"] ok1 [OF that] by (simp add: all_did_def)
  moreover have "others_kept (fmName ` set (f # fs)) ws w ws' w'"
    using a d(3) by (auto simp: all_did_def others_kept_def)
  ultimately show ?thesis using a d(2) nf by (auto simp: all_did_def m simp del: map_fun_upd map_eq_conv)
qed

lemma all_did_cons_skip:
  assumes "ready cs ws w f" "all_did cs False fs ws w ws' w' sent"
    and "fmName f \<notin> fmName ` set fs" "fmName ` set (f # fs) \<subseteq> names"
  shows "all_did cs False (f # fs) ws w ws' w' (sent(f := []))"
proof (rule all_did_cons [OF did_nothing [OF assms(1)], where err = None])
  show "all_did cs False fs (note_throttle None ws) w ws' w' sent"
    using assms(2) by (simp add: note_throttle_def)
qed (use assms(3,4) in \<open>simp_all add: others_kept_def\<close>)

lemma all_did_none:
  "\<forall>f \<in> set fs. ready cs ws w f \<Longrightarrow> all_did cs False fs ws w ws w (\<lambda>_. [])"
  using did_nothing by (auto simp: all_did_def others_kept_def)

lemma sum_sent: "f \<notin> set fs \<Longrightarrow>
    (\<Sum>g \<leftarrow> f # fs. length ((sent(f := s)) g)) = length s + (\<Sum>g \<leftarrow> fs. length (sent g))"
  by (auto intro!: arg_cong [where f = sum_list] map_cong)

text \<open>The first drain of a list, and what it leaves to the others.\<close>

lemma drain_head:
  assumes n: "distinct (map fmName (f # fs))" "fmName ` set (f # fs) \<subseteq> names"
    and rd: "\<forall>g \<in> set (f # fs). ready cs ws w g"
    and fin: "fin \<Longrightarrow> (\<forall>nm \<in> names. healthy wk nm ok) \<and> ok w"
  obtains err ws1 w1 s where
    "drainFile wk f (observeLag now f ws) w = Some ((length s, err), ws1, w1)"
    "\<forall>g \<in> set fs. ready cs (note_throttle err ws1) w1 g" "fin \<Longrightarrow> ok w1"
    "\<And>ws2 w2 sent. all_did cs fin fs (note_throttle err ws1) w1 ws2 w2 sent \<Longrightarrow>
       all_did cs fin (f # fs) ws w ws2 w2 (sent(f := s))
       \<and> (\<Sum>g \<leftarrow> f # fs. length ((sent(f := s)) g)) = length s + (\<Sum>g \<leftarrow> fs. length (sent g))"
proof -
  let ?ws0 = "observeLag now f ws"
  have nf: "f \<notin> set fs" "fmName f \<notin> fmName ` set fs" using n(1) by auto
  have r: "ready cs ?ws0 w g" if "g \<in> set (f # fs)" for g
  proof (rule ready_later [where ws = ws and w = w and ns = "{}"])
    show "ready cs ws w g" using rd that by blast
  qed (simp_all add: others_kept_def)
  have fin': "fin \<Longrightarrow> healthy wk (fmName f) ok \<and> ok w" using fin n(2) by simp
  obtain n' err ws1 w1 s where d: "drainFile wk f ?ws0 w = Some ((n', err), ws1, w1)"
    "n' = length s" "acked w1 = acked w @ s" "did cs fin w w1 f s"
    "others_kept {fmName f} ?ws0 w ws1 w1" "fin \<Longrightarrow> ok w1"
    using r [of f] fin' by (rule drain_step [where f = f]) auto
  have k: "others_kept {fmName f} ws w ws1 w1" "others_kept {fmName f} ?ws0 w (note_throttle err ws1) w1"
    using d(5) by (simp_all add: others_kept_def)
  have "\<forall>g \<in> set fs. ready cs (note_throttle err ws1) w1 g"
  proof
    fix g assume g: "g \<in> set fs"
    then have "fmName g \<notin> {fmName f}" using nf(2) by (metis image_eqI singletonD)
    then show "ready cs (note_throttle err ws1) w1 g" using r [of g] g ready_later [OF _ k(2)] by simp
  qed
  then show thesis
    using that [of s err ws1 w1] d(1,2,6) all_did_cons [OF d(4,3) k(1) _ nf(2) n(2)] sum_sent [OF nf(1)]
    by blast
qed

text \<open>The drains of drainAll, one after another.\<close>

lemma drain_serial_did:
  "distinct (map fmName fs) \<Longrightarrow> fmName ` set fs \<subseteq> names \<Longrightarrow> \<forall>f \<in> set fs. ready cs ws w f \<Longrightarrow>
     (fin \<Longrightarrow> (\<forall>nm \<in> names. healthy wk nm ok) \<and> ok w) \<Longrightarrow>
     \<exists>n err ws' w' sent. drain_serial wk fs shipped ws w = Some ((n, err), ws', w')
       \<and> n = shipped + (\<Sum>f \<leftarrow> fs. length (sent f)) \<and> (fin \<longrightarrow> err = None)
       \<and> all_did cs fin fs ws w ws' w' sent"
proof (induction fs arbitrary: shipped ws w)
  case Nil
  then show ?case by (simp add: all_did_def others_kept_def)
next
  case (Cons f fs)
  show ?case
  proof (cases "enCtx (wkEnv wk) w")
    case (Some e)
    have nfin: "\<not> fin"
      using Cons.prems(2,4) Some healthy.not_cancelled [of wk "fmName f" ok w] by auto
    have "all_did cs False (f # fs) ws w ws w (\<lambda>_. [])" using Cons.prems(3) by (rule all_did_none)
    then show ?thesis using Some nfin
      by (intro exI [of _ shipped] exI [of _ "Some e"] exI [of _ ws] exI [of _ w] exI [of _ "\<lambda>_. []"]) simp
  next
    case None
    obtain err ws1 w1 s where d:
        "drainFile wk f (observeLag (enNow (wkEnv wk) w) f ws) w = Some ((length s, err), ws1, w1)"
        "\<forall>g \<in> set fs. ready cs (note_throttle err ws1) w1 g" "fin \<Longrightarrow> ok w1"
        "\<And>ws2 w2 sent. all_did cs fin fs (note_throttle err ws1) w1 ws2 w2 sent \<Longrightarrow>
          all_did cs fin (f # fs) ws w ws2 w2 (sent(f := s))
          \<and> (\<Sum>g \<leftarrow> f # fs. length ((sent(f := s)) g)) = length s + (\<Sum>g \<leftarrow> fs. length (sent g))"
      by (rule drain_head [OF Cons.prems, where now = "enNow (wkEnv wk) w"]) blast+
    obtain n2 err2 ws2 w2 sent where i:
        "drain_serial wk fs (shipped + length s) (note_throttle err ws1) w1 = Some ((n2, err2), ws2, w2)"
        "n2 = shipped + length s + (\<Sum>f \<leftarrow> fs. length (sent f))" "fin \<longrightarrow> err2 = None"
        "all_did cs fin fs (note_throttle err ws1) w1 ws2 w2 sent"
      using Cons.IH [of "note_throttle err ws1" w1 "shipped + length s"] Cons.prems d(2,3) by auto
    have "drain_serial wk (f # fs) shipped ws w = Some ((n2, err2), ws2, w2)" using None d(1) i(1) by simp
    then show ?thesis using i(2,3) d(4) [OF i(4)] by (metis add.assoc)
  qed
qed

lemma drain_pool_did:
  "distinct (map fmName fs) \<Longrightarrow> fmName ` set fs \<subseteq> names \<Longrightarrow> \<forall>f \<in> set fs. ready cs ws w f \<Longrightarrow>
     (fin \<Longrightarrow> (\<forall>nm \<in> names. healthy wk nm ok) \<and> ok w) \<Longrightarrow>
     \<exists>n ws' w' sent. drain_pool wk fs shipped ws w = Some (n, ws', w')
       \<and> n = shipped + (\<Sum>f \<leftarrow> fs. length (sent f)) \<and> (fin \<longrightarrow> ok w')
       \<and> all_did cs fin fs ws w ws' w' sent"
proof (induction fs arbitrary: shipped ws w)
  case Nil
  then show ?case by (simp add: all_did_def others_kept_def)
next
  case (Cons f fs)
  have nf: "f \<notin> set fs" "fmName f \<notin> fmName ` set fs" using Cons.prems(1) by auto
  show ?case
  proof (cases "enCtx (wkEnv wk) w")
    case (Some e)
    have nfin: "\<not> fin"
      using Cons.prems(2,4) Some healthy.not_cancelled [of wk "fmName f" ok w] by auto
    then obtain n2 ws2 w2 sent where i: "drain_pool wk fs shipped ws w = Some (n2, ws2, w2)"
        "n2 = shipped + (\<Sum>f \<leftarrow> fs. length (sent f))" "all_did cs False fs ws w ws2 w2 sent"
      using Cons.IH [of ws w shipped] Cons.prems by auto
    have "ready cs ws w f" using Cons.prems(3) by simp
    then have a: "all_did cs False (f # fs) ws w ws2 w2 (sent(f := []))"
      using i(3) nf(2) Cons.prems(2) by (rule all_did_cons_skip)
    have "drain_pool wk (f # fs) shipped ws w = Some (n2, ws2, w2)" using Some i(1) by simp
    moreover have "n2 = shipped + (\<Sum>g \<leftarrow> f # fs. length ((sent(f := [])) g))"
      unfolding sum_sent [OF nf(1)] using i(2) by simp
    ultimately show ?thesis using nfin a by metis
  next
    case None
    obtain err ws1 w1 s where d:
        "drainFile wk f (observeLag (enNow (wkEnv wk) w) f ws) w = Some ((length s, err), ws1, w1)"
        "\<forall>g \<in> set fs. ready cs (note_throttle err ws1) w1 g" "fin \<Longrightarrow> ok w1"
        "\<And>ws2 w2 sent. all_did cs fin fs (note_throttle err ws1) w1 ws2 w2 sent \<Longrightarrow>
          all_did cs fin (f # fs) ws w ws2 w2 (sent(f := s))
          \<and> (\<Sum>g \<leftarrow> f # fs. length ((sent(f := s)) g)) = length s + (\<Sum>g \<leftarrow> fs. length (sent g))"
      by (rule drain_head [OF Cons.prems, where now = "enNow (wkEnv wk) w"]) blast+
    obtain n2 ws2 w2 sent where i:
        "drain_pool wk fs (shipped + length s) (note_throttle err ws1) w1 = Some (n2, ws2, w2)"
        "n2 = shipped + length s + (\<Sum>f \<leftarrow> fs. length (sent f))" "fin \<longrightarrow> ok w2"
        "all_did cs fin fs (note_throttle err ws1) w1 ws2 w2 sent"
      using Cons.IH [of "note_throttle err ws1" w1 "shipped + length s"] Cons.prems d(2,3) by auto
    have "drain_pool wk (f # fs) shipped ws w = Some (n2, ws2, w2)" using None d(1) i(1) by simp
    then show ?thesis using i(2,3) d(4) [OF i(4)] by (metis add.assoc)
  qed
qed

lemma drainAll_did:
  assumes d: "distinct (map fmName fs)" "fmName ` set fs \<subseteq> names" "\<forall>f \<in> set fs. ready cs ws w f"
    and fin: "fin \<Longrightarrow> (\<forall>nm \<in> names. healthy wk nm ok) \<and> ok w"
    and sched: "mset (goSched go fs) = mset fs"
  shows "\<exists>n err ws' w' order sent. drainAll wk go fs ws w = Some ((n, err), ws', w') \<and> mset order = mset fs
       \<and> n = (\<Sum>f \<leftarrow> order. length (sent f)) \<and> (fin \<longrightarrow> err = None) \<and> all_did cs fin order ws w ws' w' sent"
proof (cases "\<not> wkDrainSem wk \<or> length fs < 2")
  case True
  obtain n err ws' w' sent where s: "drain_serial wk fs 0 ws w = Some ((n, err), ws', w')"
      "n = 0 + (\<Sum>f \<leftarrow> fs. length (sent f))" "fin \<longrightarrow> err = None" "all_did cs fin fs ws w ws' w' sent"
    using drain_serial_did [OF d fin] by blast
  moreover have "drainAll wk go fs ws w = Some ((n, err), ws', w')" using True s(1) by (simp add: drainAll_def)
  ultimately show ?thesis by (metis add_0)
next
  case False
  let ?fs = "goSched go fs"
  have "set ?fs = set fs" using sched by (metis set_mset_mset)
  moreover have "mset (map fmName ?fs) = mset (map fmName fs)" using sched by simp
  then have "distinct (map fmName ?fs)" using d(1) by (metis mset_eq_imp_distinct_iff)
  ultimately have d': "distinct (map fmName ?fs)" "fmName ` set ?fs \<subseteq> names" "\<forall>f \<in> set ?fs. ready cs ws w f"
    using d by simp_all
  obtain n ws' w' sent where s: "drain_pool wk ?fs 0 ws w = Some (n, ws', w')"
      "n = 0 + (\<Sum>f \<leftarrow> ?fs. length (sent f))" "fin \<longrightarrow> ok w'" "all_did cs fin ?fs ws w ws' w' sent"
    using drain_pool_did [OF d' fin] by blast
  have "fs \<noteq> []" using False by auto
  then have "fmName (hd fs) \<in> names" using d(2) by auto
  then have "fin \<longrightarrow> enCtx (wkEnv wk) w' = None"
    using fin s(3) healthy.not_cancelled [of wk "fmName (hd fs)" ok w'] by blast
  moreover have "drainAll wk go fs ws w = Some ((n, enCtx (wkEnv wk) w'), ws', w')"
    using False s(1) by (simp add: drainAll_def)
  ultimately show ?thesis using s(2,4) sched by (metis add_0)
qed

text \<open>One poll of an instance whose files are not rotated, after its first discovery.\<close>

lemma pollOnce_did:
  assumes choice: "\<forall>xs. mset (goOrder go xs) = mset xs" "\<forall>xs. mset (goSched go xs) = mset xs"
    and disc: "DiscoverFiles (wkFetcher wk) w0 = Some (Inr found, w)" "wsInitialFiles ws \<noteq> None"
    and files: "files = eligibleFiles wk found" "\<forall>f \<in> set files. rotation_of files f = None"
    and d: "distinct (map fmName files)" "fmName ` set files \<subseteq> names" "\<forall>f \<in> set files. ready cs ws w f"
    and fin: "fin \<Longrightarrow> (\<forall>nm \<in> names. healthy wk nm ok) \<and> ok w"
  shows "\<exists>n err ws' w' order sent. pollOnce wk go ws w0 = Some ((n, err), ws', w') \<and> mset order = mset files
       \<and> n = (\<Sum>f \<leftarrow> order. length (sent f)) \<and> (fin \<longrightarrow> err = None)
       \<and> all_did cs fin order ws w ws' w' sent"
proof -
  have plan: "planRotation wk (goOrder go) files ws w = (Inr files, ws, w)"
    using files(2) choice(1) by (intro planRotation_plain) (blast, metis mset_zero_iff)
  have "\<forall>f \<in> set files. \<not> isErrorRunningLog (fmName f)"
    using d(3) by (simp add: ready_def reads_on_def)
  then have ph: "splitErrorLogPhases files = (files, [])"
    by (simp add: splitErrorLogPhases_def filter_id_conv filter_empty_conv)
  obtain n err ws' w' order sent where a: "drainAll wk go files ws w = Some ((n, err), ws', w')"
      "mset order = mset files" "n = (\<Sum>f \<leftarrow> order. length (sent f))" "fin \<longrightarrow> err = None"
      "all_did cs fin order ws w ws' w' sent"
    using drainAll_did [OF d fin] choice(2) by blast
  have "drain_phases wk go files ws w = Some ((n, err), ws', w')"
    using ph a(1) by (simp add: drain_phases_def)
  then have "pollOnce wk go ws w0 = Some ((n, err), ws', w')"
    using disc plan files(1) by (simp add: pollOnce_def first_discovery_def)
  then show ?thesis using a(2-5) by blast
qed

end

text \<open>The choices of the Go runtime are permutations.\<close>

definition fair_choice :: "'w go_choice \<Rightarrow> bool" where
  "fair_choice go = ((\<forall>xs. mset (goOrder go xs) = mset xs) \<and> (\<forall>xs. mset (goSched go xs) = mset xs))"

text \<open>
  A poll in the world w0 whose listing leads to the files in the world w: not the first of the
  worker, no file rotated, no log with a restart banner, every file read on, its portions cs.
\<close>

definition pollable ::
    "'w worker \<Rightarrow> string set \<Rightarrow> (string \<Rightarrow> string \<Rightarrow> raw_portion) \<Rightarrow> (string \<Rightarrow> 'w \<Rightarrow> checkpoint option)
       \<Rightarrow> wst \<Rightarrow> 'w \<Rightarrow> 'w \<Rightarrow> file_meta list \<Rightarrow> (file_meta \<Rightarrow> cdata list) \<Rightarrow> bool" where
  "pollable wk names R view ws w0 w files cs =
     (wsInitialFiles ws \<noteq> None
      \<and> (\<exists>found. DiscoverFiles (wkFetcher wk) w0 = Some (Inr found, w) \<and> files = eligibleFiles wk found)
      \<and> distinct (map fmName files)
      \<and> (\<forall>f \<in> set files. fmName f \<in> names \<and> rotation_of files f = None
           \<and> quiet_log (chunk_at (ftParser (wkFetcher wk)) (R (fmName f)))
           \<and> reads_on wk ws f (view (fmName f) w)
           \<and> chain (chunk_at (ftParser (wkFetcher wk)) (R (fmName f)))
                (fst (resume_at (view (fmName f) w))) (cs f)))"

text \<open>What file f owes at the start of the poll.\<close>

definition owes :: "(string \<Rightarrow> 'w \<Rightarrow> checkpoint option) \<Rightarrow> (file_meta \<Rightarrow> cdata list) \<Rightarrow> 'w \<Rightarrow> file_meta \<Rightarrow> string list"
where
  "owes view cs w f = stream (snd (resume_at (view (fmName f) w))) [] (cs f)"

lemma pollable_did:
  assumes "poll_world wk names R acked view" "fair_choice go" "pollable wk names R view ws w0 w files cs"
    and fin: "fin \<Longrightarrow> (\<forall>nm \<in> names. healthy wk nm ok) \<and> ok w"
  shows "\<exists>n err ws' w' order sent. pollOnce wk go ws w0 = Some ((n, err), ws', w')
    \<and> mset order = mset files \<and> acked w' = acked w @ concat (map sent order)
    \<and> n = (\<Sum>f \<leftarrow> order. length (sent f)) \<and> (fin \<longrightarrow> err = None)
    \<and> (\<forall>f \<in> set files. prefix (map lrMessage (sent f)) (owes view cs w f)
         \<and> covers_at (chunk_at (ftParser (wkFetcher wk)) (R (fmName f))) (owes view cs w f)
             (cdNext (last (cs f))) (view (fmName f) w') (map lrMessage (sent f)))
    \<and> (fin \<longrightarrow> (\<forall>f \<in> set files. map lrMessage (sent f) = owes view cs w f
         \<and> resume_at (view (fmName f) w') = (cdNext (last (cs f)), False)))"
proof -
  obtain found where f: "wsInitialFiles ws \<noteq> None" "DiscoverFiles (wkFetcher wk) w0 = Some (Inr found, w)"
      "files = eligibleFiles wk found" "distinct (map fmName files)" "fmName ` set files \<subseteq> names"
      "\<forall>f \<in> set files. rotation_of files f = None"
    using assms(3) unfolding pollable_def by blast
  have rd: "\<forall>f \<in> set files. poll_world.ready wk names R view cs ws w f"
    using assms(3) unfolding pollable_def poll_world.ready_def [OF assms(1)] by blast
  obtain n err ws' w' order sent where p: "pollOnce wk go ws w0 = Some ((n, err), ws', w')"
      "mset order = mset files" "n = (\<Sum>f \<leftarrow> order. length (sent f))" "fin \<longrightarrow> err = None"
      "poll_world.all_did wk names R acked view cs fin order ws w ws' w' sent"
    using poll_world.pollOnce_did [OF assms(1) _ _ f(2,1,3,6,4,5) rd fin] assms(2)
    unfolding fair_choice_def by blast
  have s: "set order = set files" using p(2) by (rule mset_eq_setD)
  have d: "acked w' = acked w @ concat (map sent order)"
      "\<forall>f \<in> set files. poll_world.did wk R view cs fin w w' f (sent f)"
    using p(5) unfolding poll_world.all_did_def [OF assms(1)] s by blast+
  note e = d(2) [unfolded poll_world.did_def [OF assms(1)] Let_def, folded owes_def]
  show ?thesis
    by (intro exI [of _ n] exI [of _ err] exI [of _ ws'] exI [of _ w'] exI [of _ order] exI [of _ sent])
      (use p(1-4) d(1) e in simp)
qed

lemma pollable_did_all:
  assumes "poll_world wk names R acked view" "fair_choice go" "pollable wk names R view ws w0 w files cs"
    and "\<forall>nm \<in> names. healthy wk nm ok" "ok w"
  obtains n ws' w' order sent where "pollOnce wk go ws w0 = Some ((n, None), ws', w')"
    "mset order = mset files" "acked w' = acked w @ concat (map sent order)"
    "n = (\<Sum>f \<leftarrow> order. length (sent f))"
    "\<forall>f \<in> set files. map lrMessage (sent f) = owes view cs w f
         \<and> resume_at (view (fmName f) w') = (cdNext (last (cs f)), False)"
proof -
  have h: "(\<forall>nm \<in> names. healthy wk nm ok) \<and> ok w" using assms(4,5) by blast
  show thesis using pollable_did [OF assms(1-3) h, of True] that by (elim exE conjE) simp
qed

section \<open>A fleet of logs in memory\<close>

text \<open>The worker of Sim over a listing of files, with concurrent drains.\<close>

definition listed :: "log_file_details list \<Rightarrow> 'w worker \<Rightarrow> 'w worker" where
  "listed ls wk = wk\<lparr>wkDrainSem := True, wkFetcher := (wkFetcher wk)\<lparr>ftApi := (ftApi (wkFetcher wk))
     \<lparr>DescribeDBLogFiles := (\<lambda>i m fc w. (Inr \<lparr>drFiles = ls, drMarker = []\<rparr>, w))\<rparr>\<rparr>\<rparr>"

lemma listed_simps [simp]:
  "wkStore (listed ls wk) = wkStore wk" "wkSink (listed ls wk) = wkSink wk" "wkEnv (listed ls wk) = wkEnv wk"
  "wkInstance (listed ls wk) = wkInstance wk" "ftParser (wkFetcher (listed ls wk)) = ftParser (wkFetcher wk)"
  by (simp_all add: listed_def)

lemma download_listed: "download (wkFetcher (listed ls wk)) = download (wkFetcher wk)"
  by (intro ext) (simp add: download_def fetcher_record_def listed_def)

lemma pullRaw_listed [simp]: "pullRaw (wkFetcher (listed ls wk)) = pullRaw (wkFetcher wk)"
proof -
  have "pull_attempts (wkFetcher (listed ls wk)) f m k l w = pull_attempts (wkFetcher wk) f m k l w" for f m k l w
    by (induction k arbitrary: l w) (simp_all add: download_listed split: prod.split sum.split)
  then show ?thesis by (intro ext) (simp add: pullRaw_def split: prod.split sum.split)
qed

lemma drain_store_listed: "drain_store wk nm R a v \<Longrightarrow> drain_store (listed ls wk) nm R a v"
  by (simp add: drain_store_def drain_world_def drain_store_axioms_def)

lemma healthy_listed: "healthy wk nm ok \<Longrightarrow> healthy (listed ls wk) nm ok"
  by (simp add: healthy_def)

interpretation simpoll: poll_world "listed ls (sim_worker pf parser mb)" "{nm. nm \<noteq> []}" "\<lambda>_. sim_raw pf"
    sim_acked sim_view
proof (rule poll_world.intro)
  fix nm m w r w' g
  assume "pullRaw (wkFetcher (listed ls (sim_worker pf parser mb))) nm m w = (r, w')"
  then have "w' = w\<lparr>smFaults := tl (smFaults w)\<rparr>" by (simp add: sim_worker_def sim_pullRaw)
  then show "sim_view g w' = sim_view g w" by (simp add: sim_view_def)
next
  fix nm :: string
  assume "nm \<in> {nm. nm \<noteq> []}"
  then show "drain_store (listed ls (sim_worker pf parser mb)) nm (sim_raw pf) sim_acked (sim_view nm)"
    by (intro drain_store_listed sim_drain_store) simp
qed (auto simp: sim_worker_def sim_store_def on_store_def sim_view_def sim_fetcher_def mem_Set_def mem_Get_def
      mem_view_def update_conv' store_key_eq no_bar_db split: option.splits prod.splits)

text \<open>Two such files in one listing.\<close>

definition pg_listing :: "log_file_details list" where
  "pg_listing = [\<lparr>ldName = ''postgres.log'', ldSize = 6, ldLastWritten = 1\<rparr>,
     \<lparr>ldName = ''postgresql.log'', ldSize = 6, ldLastWritten = 1\<rparr>]"

definition pg_files :: "file_meta list" where
  "pg_files = [\<lparr>fmName = ''postgres.log'', fmSize = 6, fmLastWrittenMS = 1\<rparr>,
     \<lparr>fmName = ''postgresql.log'', fmSize = 6, fmLastWrittenMS = 1\<rparr>]"

definition rev_go :: "'w go_choice" where
  "rev_go = \<lparr>goOrder = id, goSched = rev, goRand = (\<lambda>_. 0)\<rparr>"

abbreviation pg_wst :: wst where
  "pg_wst \<equiv> (initial_wst unix_epoch)\<lparr>wsInitialFiles := Some []\<rparr>"

lemma str_contains_length: "str_contains s t \<Longrightarrow> length t \<le> length s"
  by (auto simp: str_contains_def list_ex_iff dest!: prefix_length_le suffix_length_le)

lemma short_not_ready: "length msg < 21 \<Longrightarrow> \<not> serverReady msg"
  by (auto simp: serverReady_def dest: str_contains_length)

lemma two_chunks_quiet: "quiet_log (chunk_at None (sim_raw two_chunks))"
proof -
  have "length msg < 21" if "msg \<in> set (cdMsgs (chunk_at None (sim_raw two_chunks) m))" for m msg
    using that by (auto simp: chunk_at_def chunk_data_def sim_raw_def plain_portion_def two_chunks_def
        isTruncated_def Let_def trim_right_byte_def has_suffix_def truncationNotice_def suffix_def
        parse_msgs_def starts_record_def split: if_splits)
  then show ?thesis using short_not_ready by (simp add: quiet_log_def)
qed

lemma pg_discovered:
  "DiscoverFiles (wkFetcher (listed pg_listing two_wk)) w = Some (Inr pg_files, w)"
  by (simp add: DiscoverFiles_def discover_loop.simps listed_def sim_worker_def sim_fetcher_def
      fetcher_record_def accepted_files_def pg_listing_def pg_files_def postgres_Accepts_def path_base_def
      to_lower_def to_lower_char_def has_prefix_def trim_right_byte_def Let_def)

lemma rotated_parts_length: "rotated_parts s b d h \<Longrightarrow> 17 \<le> length s"
  by (cases b) (auto simp: rotated_parts_def hour_ok_def dest!: date_ok_length)

lemma pg_not_rotated: "f \<in> set pg_files \<Longrightarrow> rotation_of pg_files f = None"
proof -
  assume "f \<in> set pg_files"
  then have "length (fmName f) < 17" by (auto simp: pg_files_def)
  then have "SplitRotated (fmName f) = None"
    using SplitRotated_iff [of "fmName f"] rotated_parts_length [of "fmName f"]
    by (metis not_le option.exhaust surj_pair)
  then show ?thesis by (simp add: rotation_of_def)
qed

lemma pg_starts:
  assumes "f \<in> set pg_files"
  shows "reads_on (listed pg_listing two_wk) pg_wst f (sim_view (fmName f) (sim_init fs))"
    "resume_at (sim_view (fmName f) (sim_init fs)) = (''0'', False)"
proof -
  have v: "sim_view (fmName f) (sim_init fs) = None" by (simp add: sim_view_def sim_init_def mem_view_def mem_New_def)
  have "\<not> isErrorRunningLog (fmName f)"
    using assms by (auto simp: pg_files_def isErrorRunningLog_def path_base_def has_prefix_def trim_right_byte_def)
  then show "reads_on (listed pg_listing two_wk) pg_wst f (sim_view (fmName f) (sim_init fs))"
    unfolding v by (simp add: reads_on_def calm_def startFor_def listed_def sim_worker_def
        StartFromBeginning_def StartFromEnd_def)
  show "resume_at (sim_view (fmName f) (sim_init fs)) = (''0'', False)"
    unfolding v by (simp add: resume_at_def MarkerBeginning_def)
qed

lemma pg_pollable:
  "pollable (listed pg_listing two_wk) {nm. nm \<noteq> []} (\<lambda>_. sim_raw two_chunks) sim_view pg_wst
     (sim_init fs) (sim_init fs) pg_files (\<lambda>_. two_cs)"
proof -
  have "pg_files = eligibleFiles (listed pg_listing two_wk) pg_files"
    by (simp add: eligibleFiles_def listed_def sim_worker_def)
  moreover have "distinct (map fmName pg_files)" "\<forall>f \<in> set pg_files. fmName f \<noteq> []"
    by (simp_all add: pg_files_def)
  ultimately show ?thesis
    unfolding pollable_def using pg_discovered pg_not_rotated two_chunks_quiet pg_starts two_chunks_chain by auto
qed

lemma rev_fair: "fair_choice rev_go"
  by (simp add: fair_choice_def rev_go_def)

lemma pg_healthy: "\<forall>nm \<in> {nm. nm \<noteq> []}. healthy (listed pg_listing two_wk) nm sim_healthy"
  using healthy_listed [OF sim_healthy_world] by simp

lemmas pg_poll = simpoll.poll_world_axioms [of pg_listing two_chunks None 0] rev_fair pg_pollable

section \<open>Properties\<close>






text \<open>A first poll whose only two reads fail.\<close>

lemma pg_fault:
  assumes "f \<in> set pg_files"
  shows "\<exists>e ws1. drainFile (listed pg_listing two_wk) f ws (sim_init (True # fs)) = Some ((0, Some e), ws1, sim_init fs)"
proof -
  have st: "startFor (listed pg_listing two_wk) w0 f \<noteq> StartFromEnd" "wkParallelReads (listed pg_listing two_wk) = 1" for w0
    by (simp_all add: startFor_def listed_def sim_worker_def StartFromBeginning_def StartFromEnd_def)
  have i: "ftInstanceID (sim_fetcher two_chunks None) = ''db-1''" by (simp add: sim_fetcher_def)
  have f: "wkFetcher two_wk = sim_fetcher two_chunks None" "wkStore two_wk = sim_store" "wkEnv two_wk = sim_env"
    by (simp_all add: sim_worker_def)
  have n: "fmName f \<noteq> []" using assms by (auto simp: pg_files_def)
  show ?thesis
    using st n by (simp add: drainFile_def f i sim_store_def on_store_def sim_env_def mem_Get_def Let_def mem_New_def
        start_drain_def drain_run_def wants_parallel_def drain_loop.simps PullPortion_def sim_pullRaw
        sim_init_def MarkerBeginning_def)
qed

lemma pg_poll_fails:
  "\<exists>ws1. pollOnce (listed pg_listing two_wk) rev_go pg_wst (sim_init [True, True]) = Some ((0, None), ws1, sim_init [])"
proof -
  let ?wk = "listed pg_listing two_wk"
  have f: "pg_files = [pg_files ! 0, pg_files ! 1]" "pg_files ! 0 \<in> set pg_files" "pg_files ! 1 \<in> set pg_files"
    by (simp_all add: pg_files_def)
  have c: "enCtx (wkEnv ?wk) w = None" "wkDrainSem ?wk" for w
    by (simp_all add: sim_worker_def sim_env_def) (simp add: listed_def)
  obtain e1 ws1 where 1: "drainFile ?wk (pg_files ! 1) (observeLag (enNow (wkEnv ?wk) (sim_init [True, True])) (pg_files ! 1) pg_wst)
      (sim_init [True, True]) = Some ((0, Some e1), ws1, sim_init [True])"
    using pg_fault [OF f(3)] by blast
  obtain e2 ws2 where 2: "drainFile ?wk (pg_files ! 0) (observeLag (enNow (wkEnv ?wk) (sim_init [True])) (pg_files ! 0)
      (note_throttle (Some e1) ws1)) (sim_init [True]) = Some ((0, Some e2), ws2, sim_init [])"
    using pg_fault [OF f(2)] by blast
  have dp: "drain_pool ?wk [pg_files ! 1, pg_files ! 0] 0 pg_wst (sim_init [True, True])
      = Some (0, note_throttle (Some e2) ws2, sim_init [])"
    using 1 2 c(1) by simp
  have go: "goSched rev_go pg_files = [pg_files ! 1, pg_files ! 0]" "\<not> length pg_files < 2"
    by (simp_all add: rev_go_def pg_files_def)
  have "drainAll ?wk rev_go pg_files pg_wst (sim_init [True, True])
      = Some ((0, None), note_throttle (Some e2) ws2, sim_init [])"
    unfolding drainAll_def go(1) dp using c go(2) by simp
  then have ph: "drain_phases ?wk rev_go pg_files pg_wst (sim_init [True, True])
      = Some ((0, None), note_throttle (Some e2) ws2, sim_init [])"
    by (simp add: drain_phases_def splitErrorLogPhases_def pg_files_def isErrorLog_def path_base_def trim_right_byte_def)
  have pl: "planRotation ?wk (goOrder rev_go) pg_files pg_wst (sim_init [True, True])
      = (Inr pg_files, pg_wst, sim_init [True, True])"
    by (rule planRotation_plain) (simp_all add: pg_not_rotated rev_go_def)
  have el: "eligibleFiles ?wk pg_files = pg_files" by (simp add: eligibleFiles_def listed_def sim_worker_def)
  show ?thesis
    by (simp add: pollOnce_def pg_discovered first_discovery_def el pl ph)
qed


end
