(* ===== verification/Discovery.thy ===== *)
theory Discovery
  imports Fetcher "HOL-Library.Char_ord" "HOL-Library.List_Lexorder" "HOL-Library.Multiset"
begin

text \<open>
  internal/source/rds/discovery.go and events.go: the instances of an account and the restart
  events of its fleet, both read page by page.  The RDS client is a parameter.
\<close>

section \<open>Instances\<close>

text \<open>What DescribeDBInstances answers.\<close>

record db_instance =
  dbiID :: string
  dbiEngine :: string
  dbiStatus :: string
  dbiTags :: "(string \<times> string) list"

type_synonym 'w discovery_api =
  "string option \<Rightarrow> 'w \<Rightarrow> (go_err + db_instance list \<times> string) \<times> 'w"

record discover_filter =
  dfTags :: "(string \<times> string) list"
  dfExcludeTags :: "(string \<times> string) list"
  dfAll :: bool
  dfEngine :: string

record discovered =
  dvID :: string
  dvEngine :: string
  dvStatus :: string

definition NormalizeEngine :: "string \<Rightarrow> string" where
  "NormalizeEngine e =
     (let l = to_lower e in
      if l = ''postgres'' \<or> l = ''aurora-postgresql'' then ''postgres''
      else if l = ''mysql'' \<or> l = ''aurora-mysql'' \<or> l = ''aurora'' then ''mysql''
      else if l = ''mariadb'' then ''mariadb'' else [])"

text \<open>The tag map of an instance; a key that is absent reads as the empty string.\<close>

definition tag_map :: "(string \<times> string) list \<Rightarrow> string \<Rightarrow> string option" where
  "tag_map tags = map_of (rev tags)"

definition tagsMatch :: "(string \<times> string) list \<Rightarrow> (string \<Rightarrow> string option) \<Rightarrow> bool" where
  "tagsMatch want got = list_all (\<lambda>(k, v). (case got k of None \<Rightarrow> [] | Some g \<Rightarrow> g) = v) want"

definition excluded :: "(string \<times> string) list \<Rightarrow> (string \<Rightarrow> string option) \<Rightarrow> bool" where
  "excluded ex got =
     list_ex (\<lambda>(k, v). case got k of None \<Rightarrow> False | Some g \<Rightarrow> v = ''*'' \<or> g = v) ex"

definition keep_instance ::
    "string \<Rightarrow> (string \<times> string) list \<Rightarrow> (string \<times> string) list \<Rightarrow> db_instance \<Rightarrow> bool" where
  "keep_instance engineFilter tagFilter ex db =
     (let engine = NormalizeEngine (dbiEngine db); tags = tag_map (dbiTags db) in
      engine \<noteq> [] \<and> (engineFilter = [] \<or> engine = engineFilter)
      \<and> (tagFilter = [] \<or> tagsMatch tagFilter tags) \<and> \<not> excluded ex tags)"

definition found_of :: "db_instance \<Rightarrow> discovered" where
  "found_of db = \<lparr>dvID = dbiID db, dvEngine = NormalizeEngine (dbiEngine db), dvStatus = dbiStatus db\<rparr>"

partial_function (option) list_loop ::
    "'w discovery_api \<Rightarrow> (db_instance \<Rightarrow> bool) \<Rightarrow> string option \<Rightarrow> discovered list \<Rightarrow> 'w
       \<Rightarrow> ((go_err + discovered list) \<times> 'w) option" where
  "list_loop api keep marker out w =
     (case api marker w of
        (Inl e, w1) \<Rightarrow> Some (Inl (Wrapped ''describe db instances'' e), w1)
      | (Inr (dbs, next), w1) \<Rightarrow>
          (let out1 = out @ map found_of (filter keep dbs) in
           if next = [] then Some (Inr (sort_key dvID out1), w1)
           else list_loop api keep (Some next) out1 w1))"

definition listInstances ::
    "'w discovery_api \<Rightarrow> string \<Rightarrow> (string \<times> string) list \<Rightarrow> (string \<times> string) list \<Rightarrow> 'w
       \<Rightarrow> ((go_err + discovered list) \<times> 'w) option" where
  "listInstances api engineFilter tagFilter ex w =
     list_loop api (keep_instance engineFilter tagFilter ex) None [] w"

definition DiscoverInstances ::
    "'w discovery_api \<Rightarrow> discover_filter \<Rightarrow> 'w \<Rightarrow> ((go_err + discovered list) \<times> 'w) option" where
  "DiscoverInstances api flt w =
     (if dfTags flt = [] \<and> \<not> dfAll flt
      then Some (Inl (ErrMsg ''rds discover: set at least one tag, or all''), w)
      else listInstances api (dfEngine flt) (dfTags flt) (dfExcludeTags flt) w)"

definition ListInstances ::
    "'w discovery_api \<Rightarrow> string \<Rightarrow> 'w \<Rightarrow> ((go_err + discovered list) \<times> 'w) option" where
  "ListInstances api engineFilter w = listInstances api engineFilter [] [] w"

section \<open>Restart events\<close>

record rds_event =
  evSource :: string
  evDate :: time
  evMessage :: string
  evCategories :: "string list"

type_synonym 'w events_api =
  "time \<Rightarrow> time \<Rightarrow> string option \<Rightarrow> 'w \<Rightarrow> (go_err + rds_event list \<times> string) \<times> 'w"

record restart_event =
  reInstanceID :: string
  reAt :: time
  reMessage :: string

definition IsRestartEvent :: "rds_event \<Rightarrow> bool" where
  "IsRestartEvent e =
     (let msg = to_lower (evMessage e) in
      list_ex (\<lambda>c. to_lower c = ''failover''
          \<or> (to_lower c = ''availability''
             \<and> (str_contains msg ''restart'' \<or> str_contains msg ''reboot''
                 \<or> str_contains msg ''shutdown''))) (evCategories e))"

definition restart_of :: "rds_event \<Rightarrow> restart_event" where
  "restart_of e = \<lparr>reInstanceID = evSource e, reAt = evDate e, reMessage = evMessage e\<rparr>"

partial_function (option) events_loop ::
    "'w events_api \<Rightarrow> time \<Rightarrow> time \<Rightarrow> string option \<Rightarrow> restart_event list \<Rightarrow> 'w
       \<Rightarrow> ((go_err + restart_event list) \<times> 'w) option" where
  "events_loop api since until marker out w =
     (case api since until marker w of
        (Inl e, w1) \<Rightarrow> Some (Inl e, w1)
      | (Inr (es, next), w1) \<Rightarrow>
          (let out1 = out @ map restart_of (filter IsRestartEvent es) in
           if next = [] then Some (Inr out1, w1)
           else events_loop api since until (Some next) out1 w1))"

definition PollRestartEvents ::
    "'w events_api \<Rightarrow> time \<Rightarrow> time \<Rightarrow> 'w \<Rightarrow> ((go_err + restart_event list) \<times> 'w) option" where
  "PollRestartEvents api since until w = events_loop api since until None [] w"

section \<open>Pagination\<close>

text \<open>
  The pages of a listing: P answers a marker with its items and the next marker, the empty
  one on the last page.
\<close>

fun page_chain :: "(string option \<Rightarrow> 'a list \<times> string) \<Rightarrow> string option \<Rightarrow> 'a list list \<Rightarrow> bool" where
  "page_chain P m [] = False"
| "page_chain P m (xs # rest) =
     (xs = fst (P m) \<and> (if rest = [] then snd (P m) = []
                        else snd (P m) \<noteq> [] \<and> page_chain P (Some (snd (P m))) rest))"

text \<open>Where the service answers, it answers with the pages P; it may also fail.\<close>

definition serves ::
    "(string option \<Rightarrow> 'w \<Rightarrow> (go_err + 'a list \<times> string) \<times> 'w) \<Rightarrow> (string option \<Rightarrow> 'a list \<times> string) \<Rightarrow> bool" where
  "serves api P = (\<forall>m w r w'. api m w = (Inr r, w') \<longrightarrow> r = P m)"

lemma servesD: "serves api P \<Longrightarrow> api m w = (Inr r, w') \<Longrightarrow> r = P m"
  unfolding serves_def by blast

lemma list_loop_pages:
  assumes "serves api P"
  shows "page_chain P m pages \<Longrightarrow>
    \<exists>res w'. list_loop api keep m out w = Some (res, w')
      \<and> (\<forall>found. res = Inr found \<longrightarrow>
           found = sort_key dvID (out @ map found_of (filter keep (concat pages))))"
proof (induction pages arbitrary: m out w)
  case (Cons xs rest)
  obtain r w1 where a: "api m w = (r, w1)" by (cases "api m w")
  show ?case
  proof (cases r)
    case (Inl e)
    then show ?thesis using a by (simp add: list_loop.simps)
  next
    case (Inr p)
    then have p: "p = P m" using servesD [OF assms] a by simp
    then have p2: "p = (xs, snd (P m))" using Cons.prems by (cases "P m") (simp split: if_splits)
    show ?thesis
    proof (cases "rest = []")
      case True
      then show ?thesis using a Inr p2 Cons.prems by (simp add: list_loop.simps)
    next
      case False
      then have "page_chain P (Some (snd (P m))) rest" "snd (P m) \<noteq> []" using Cons.prems by simp_all
      then show ?thesis
        using Cons.IH [of "Some (snd (P m))" "out @ map found_of (filter keep xs)" w1] a Inr p2
        by (subst list_loop.simps) simp
    qed
  qed
qed simp

lemma events_loop_pages:
  assumes "serves (api since until) P"
  shows "page_chain P m pages \<Longrightarrow>
    \<exists>res w'. events_loop api since until m out w = Some (res, w')
      \<and> (\<forall>found. res = Inr found \<longrightarrow>
           found = out @ map restart_of (filter IsRestartEvent (concat pages)))"
proof (induction pages arbitrary: m out w)
  case (Cons xs rest)
  obtain r w1 where a: "api since until m w = (r, w1)" by (cases "api since until m w")
  show ?case
  proof (cases r)
    case (Inl e)
    then show ?thesis using a by (simp add: events_loop.simps)
  next
    case (Inr p)
    then have p: "p = P m" using servesD [OF assms] a by simp
    then have p2: "p = (xs, snd (P m))" using Cons.prems by (cases "P m") (simp split: if_splits)
    show ?thesis
    proof (cases "rest = []")
      case True
      then show ?thesis using a Inr p2 Cons.prems by (simp add: events_loop.simps)
    next
      case False
      then have "page_chain P (Some (snd (P m))) rest" "snd (P m) \<noteq> []" using Cons.prems by simp_all
      then show ?thesis
        using Cons.IH [of "Some (snd (P m))" "out @ map restart_of (filter IsRestartEvent xs)" w1] a Inr p2
        by (subst events_loop.simps) simp
    qed
  qed
qed simp

section \<open>Properties\<close>


text \<open>Two pages with one PostgreSQL, one Oracle and one Aurora instance.\<close>

definition db_of :: "string \<Rightarrow> string \<Rightarrow> db_instance" where
  "db_of name engine = \<lparr>dbiID = name, dbiEngine = engine, dbiStatus = ''available'',
     dbiTags = [(''team'', ''data'')]\<rparr>"

definition two_pages :: "string option \<Rightarrow> db_instance list \<times> string" where
  "two_pages m = (case m of None \<Rightarrow> ([db_of ''z'' ''postgres'', db_of ''o'' ''oracle-ee''], ''p2'')
     | Some _ \<Rightarrow> ([db_of ''a'' ''aurora-mysql''], []))"

definition two_pages_api :: "unit discovery_api" where
  "two_pages_api m w = (Inr (two_pages m), w)"


end
