(* ===== verification/Resolver.thy ===== *)
theory Resolver
  imports Discovery Config
begin

text \<open>
  internal/app/app.go: the instances a process tails.  Resolve turns the sources of the
  configuration into instance specs, explicit and discovered, without duplicates and within
  the shard of the process; AWS clients are cached by region and role.
\<close>

section \<open>State\<close>

text \<open>internal/pipeline/scheduler.go: a spec; the client stands for its API.\<close>

type_synonym client_key = "string \<times> string"

record instance_spec =
  isInstanceID :: string
  isEngine :: string
  isRegion :: string
  isIncludeAudit :: bool
  isClient :: client_key

definition specKey :: "instance_spec \<Rightarrow> string" where
  "specKey s = isRegion s @ ''|'' @ isInstanceID s"

record spec_resolver =
  srClients :: "client_key list"
  srKnown :: "string list"

definition newSpecResolver :: spec_resolver where
  "newSpecResolver = \<lparr>srClients = [], srKnown = []\<rparr>"

text \<open>What Resolve needs of AWS: the configuration of a client and the calls on it.\<close>

record 'w aws =
  awConfig :: "client_key \<Rightarrow> 'w \<Rightarrow> go_err option \<times> 'w"
  awDiscovery :: "client_key \<Rightarrow> 'w discovery_api"

definition maxInstances :: nat where "maxInstances = 500"

definition resolver_client ::
    "'w aws \<Rightarrow> string \<Rightarrow> string \<Rightarrow> spec_resolver \<Rightarrow> 'w \<Rightarrow> (go_err + client_key) \<times> spec_resolver \<times> 'w" where
  "resolver_client aws region role r w =
     (let key = (region, role) in
      if key \<in> set (srClients r) then (Inr key, r, w)
      else (case awConfig aws key w of
              (Some e, w1) \<Rightarrow> (Inl (Wrapped (''aws config for '' @ region) e), r, w1)
            | (None, w1) \<Rightarrow> (Inr key, r\<lparr>srClients := key # srClients r\<rparr>, w1)))"

section \<open>Adding specs\<close>

definition add_spec :: "shard \<Rightarrow> instance_spec list \<Rightarrow> instance_spec \<Rightarrow> instance_spec list" where
  "add_spec sh out s =
     (if specKey s \<in> set (map specKey out) \<or> \<not> shard_Owns sh (specKey s) then out else out @ [s])"

definition source_spec :: "source \<Rightarrow> client_key \<Rightarrow> string \<Rightarrow> string \<Rightarrow> instance_spec" where
  "source_spec src c inst engine =
     \<lparr>isInstanceID = inst, isEngine = engine, isRegion = soRegion src,
      isIncludeAudit = soIncludeAudit src, isClient = c\<rparr>"

text \<open>The specs of the explicit instances; engines are those of the listing.\<close>

fun explicit_specs ::
    "source \<Rightarrow> client_key \<Rightarrow> (string \<Rightarrow> string option) \<Rightarrow> string list \<Rightarrow> go_err + instance_spec list" where
  "explicit_specs src c engines [] = Inr []"
| "explicit_specs src c engines (inst # insts) =
     (let engine = (if soEngine src \<noteq> [] then soEngine src
                    else (case engines inst of None \<Rightarrow> [] | Some e \<Rightarrow> e)) in
      if engine = []
      then Inl (ErrMsg (''instance '' @ go_quote inst @ '' not found in '' @ soRegion src
             @ '' (or its engine isn't supported); set engine: explicitly if it is''))
      else (case explicit_specs src c engines insts of
              Inl e \<Rightarrow> Inl e | Inr ss \<Rightarrow> Inr (source_spec src c inst engine # ss)))"

text \<open>The engines of a region, listed when some explicit instance needs its own.\<close>

definition detect_engines ::
    "'w aws \<Rightarrow> source \<Rightarrow> client_key \<Rightarrow> 'w \<Rightarrow> ((go_err + (string \<Rightarrow> string option)) \<times> 'w) option" where
  "detect_engines aws src c w =
     (if soEngine src = [] \<and> soInstances src \<noteq> [] then
        (case ListInstances (awDiscovery aws c) [] w of
           None \<Rightarrow> None
         | Some (Inl e, w1) \<Rightarrow> Some (Inl (Wrapped (''detect engines in '' @ soRegion src) e), w1)
         | Some (Inr ds, w1) \<Rightarrow> Some (Inr (map_of (rev (map (\<lambda>d. (dvID d, dvEngine d)) ds))), w1))
      else Some (Inr (\<lambda>_. None), w))"

definition discover_specs ::
    "'w aws \<Rightarrow> source \<Rightarrow> client_key \<Rightarrow> spec_resolver \<Rightarrow> 'w
       \<Rightarrow> ((go_err + instance_spec list) \<times> spec_resolver \<times> 'w) option" where
  "discover_specs aws src c r w =
     (case soDiscover src of
        None \<Rightarrow> Some (Inr [], r, w)
      | Some d \<Rightarrow>
          (case DiscoverInstances (awDiscovery aws c)
                  \<lparr>dfTags = dcTags d, dfExcludeTags = dcExcludeTags d, dfAll = dcAll d,
                   dfEngine = soEngine src\<rparr> w of
             None \<Rightarrow> None
           | Some (Inl e, w1) \<Rightarrow>
               Some (Inl (Wrapped (''discover instances in '' @ soRegion src) e), r, w1)
           | Some (Inr found, w1) \<Rightarrow>
               Some (Inr (map (\<lambda>x. source_spec src c (dvID x) (dvEngine x)) found),
                     r\<lparr>srKnown := map (\<lambda>x. soRegion src @ ''|'' @ dvID x) found @ srKnown r\<rparr>, w1)))"

section \<open>Resolve\<close>

definition resolve_source ::
    "'w aws \<Rightarrow> source \<Rightarrow> spec_resolver \<Rightarrow> 'w
       \<Rightarrow> ((go_err + instance_spec list) \<times> spec_resolver \<times> 'w) option" where
  "resolve_source aws src r w =
     (if soType src \<noteq> ''rds'' then Some (Inl (ErrMsg (''unsupported source type '' @ go_quote (soType src))), r, w)
      else (case resolver_client aws (soRegion src) (soAssumeRole src) r w of
        (Inl e, r1, w1) \<Rightarrow> Some (Inl e, r1, w1)
      | (Inr c, r1, w1) \<Rightarrow>
          (case detect_engines aws src c w1 of
             None \<Rightarrow> None
           | Some (Inl e, w2) \<Rightarrow> Some (Inl e, r1, w2)
           | Some (Inr engines, w2) \<Rightarrow>
               (case explicit_specs src c engines (soInstances src) of
                  Inl e \<Rightarrow> Some (Inl e, r1, w2)
                | Inr explicit \<Rightarrow>
                    (case discover_specs aws src c r1 w2 of
                       None \<Rightarrow> None
                     | Some (Inl e, r2, w3) \<Rightarrow> Some (Inl e, r2, w3)
                     | Some (Inr dsc, r2, w3) \<Rightarrow> Some (Inr (explicit @ dsc), r2, w3))))))"

fun resolve_sources ::
    "'w aws \<Rightarrow> shard \<Rightarrow> source list \<Rightarrow> instance_spec list \<Rightarrow> spec_resolver \<Rightarrow> 'w
       \<Rightarrow> ((go_err + instance_spec list) \<times> spec_resolver \<times> 'w) option" where
  "resolve_sources aws sh [] out r w = Some (Inr out, r, w)"
| "resolve_sources aws sh (src # srcs) out r w =
     (case resolve_source aws src r w of
        None \<Rightarrow> None
      | Some (Inl e, r1, w1) \<Rightarrow> Some (Inl e, r1, w1)
      | Some (Inr specs, r1, w1) \<Rightarrow> resolve_sources aws sh srcs (foldl (add_spec sh) out specs) r1 w1)"

definition resolve_cap :: "instance_spec list \<Rightarrow> go_err + instance_spec list" where
  "resolve_cap out =
     (if length out > maxInstances
      then Inl (ErrMsg (nat_str (length out) @ '' instances after discovery exceeds the ''
             @ nat_str maxInstances @ ''-instance cap (split into multiple rdstail deployments)''))
      else Inr out)"

definition Resolve ::
    "'w aws \<Rightarrow> config \<Rightarrow> spec_resolver \<Rightarrow> 'w
       \<Rightarrow> ((go_err + instance_spec list) \<times> spec_resolver \<times> 'w) option" where
  "Resolve aws cfg r w =
     (case shard_Parse (rtShard (cfRuntime cfg)) of
        Inl e \<Rightarrow> Some (Inl e, r, w)
      | Inr sh \<Rightarrow>
          (case resolve_sources aws sh (cfSources cfg) [] r w of
             None \<Rightarrow> None
           | Some (Inl e, r1, w1) \<Rightarrow> Some (Inl e, r1, w1)
           | Some (Inr out, r1, w1) \<Rightarrow> Some (resolve_cap out, r1, w1)))"

text \<open>The cadence of re-discovery: the least positive refresh interval, 0 for none.\<close>

definition refresh_interval :: "config \<Rightarrow> duration" where
  "refresh_interval cfg =
     foldl (\<lambda>t src. case soDiscover src of
                None \<Rightarrow> t
              | Some d \<Rightarrow> if dcRefreshInterval d \<le> 0 then t
                          else if t = 0 \<or> dcRefreshInterval d < t then dcRefreshInterval d else t)
       0 (cfSources cfg)"

section \<open>Lemmas\<close>

lemma add_specs_keys:
  "distinct (map specKey out) \<Longrightarrow> distinct (map specKey (foldl (add_spec sh) out specs))"
  by (induction specs arbitrary: out) (auto simp: add_spec_def)

lemma add_spec_owned:
  "\<forall>s \<in> set out. shard_Owns sh (specKey s) \<Longrightarrow>
     \<forall>s \<in> set (add_spec sh out x). shard_Owns sh (specKey s)"
  by (simp add: add_spec_def)

lemma add_specs_owned:
  "\<forall>s \<in> set out. shard_Owns sh (specKey s) \<Longrightarrow>
     \<forall>s \<in> set (foldl (add_spec sh) out specs). shard_Owns sh (specKey s)"
proof (induction specs arbitrary: out)
  case (Cons x specs)
  show ?case using Cons.IH [OF add_spec_owned [OF Cons.prems]] by simp
qed simp

lemma Owns_All [simp]: "shard_Owns shard_All k"
  by (simp add: shard_Owns_def shard_All_def)

text \<open>A shard keeps what the whole fleet keeps, filtered.\<close>

lemma add_spec_filter:
  "add_spec sh (filter (\<lambda>s. shard_Owns sh (specKey s)) out) x =
     filter (\<lambda>s. shard_Owns sh (specKey s)) (add_spec shard_All out x)"
  by (auto simp: add_spec_def)

lemma add_specs_filter:
  "foldl (add_spec sh) (filter (\<lambda>s. shard_Owns sh (specKey s)) out) specs =
     filter (\<lambda>s. shard_Owns sh (specKey s)) (foldl (add_spec shard_All) out specs)"
  by (induction specs arbitrary: out) (simp_all add: add_spec_filter)

lemma resolve_sources_filter:
  "resolve_sources aws sh srcs (filter (\<lambda>s. shard_Owns sh (specKey s)) out) r w =
     map_option (apfst (map_sum id (filter (\<lambda>s. shard_Owns sh (specKey s)))))
       (resolve_sources aws shard_All srcs out r w)"
proof (induction srcs arbitrary: out r w)
  case (Cons src srcs)
  show ?case
    using Cons.IH by (auto simp: add_specs_filter split: option.splits sum.splits)
qed simp

lemma resolve_sources_inv:
  "resolve_sources aws sh srcs out r w = Some (Inr out', r', w') \<Longrightarrow>
     distinct (map specKey out) \<Longrightarrow> \<forall>s \<in> set out. shard_Owns sh (specKey s) \<Longrightarrow>
     distinct (map specKey out') \<and> (\<forall>s \<in> set out'. shard_Owns sh (specKey s))"
proof (induction srcs arbitrary: out r w)
  case (Cons src srcs)
  then obtain specs r1 w1 where "resolve_source aws src r w = Some (Inr specs, r1, w1)"
      "resolve_sources aws sh srcs (foldl (add_spec sh) out specs) r1 w1 = Some (Inr out', r', w')"
    by (auto split: option.splits sum.splits)
  then show ?case using Cons.IH add_specs_keys add_specs_owned Cons.prems(2,3) by metis
qed simp

section \<open>Properties\<close>

definition with_shard :: "config \<Rightarrow> string \<Rightarrow> config" where
  "with_shard cfg s = cfg\<lparr>cfRuntime := (cfRuntime cfg)\<lparr>rtShard := s\<rparr>\<rparr>"

text \<open>C29. Sharding splits the fleet: n processes that differ only in runtime.shard = i/n resolve
  the instances one unsharded process resolves, each instance in exactly one of them, in the
  same order.\<close>

theorem shards_partition_fleet:
  assumes "Resolve aws (with_shard cfg []) r w = Some (Inr fleet, r', w')" "1 \<le> n" "n \<le> 1024"
  defines "own i \<equiv> filter (\<lambda>s. shard_Owns \<lparr>shIndex = i, shCount = n\<rparr> (specKey s)) fleet"
  shows "(\<forall>i. 1 \<le> i \<and> i \<le> n \<longrightarrow>
      Resolve aws (with_shard cfg (shard_String \<lparr>shIndex = i, shCount = n\<rparr>)) r w = Some (Inr (own i), r', w'))
    \<and> (\<forall>s \<in> set fleet. \<exists>!i. 1 \<le> i \<and> i \<le> n \<and> s \<in> set (own i))"
proof (intro conjI allI impI ballI)
  fix i assume i: "1 \<le> i \<and> i \<le> n"
  let ?sh = "\<lparr>shIndex = i, shCount = n\<rparr>"
  have p: "shard_Parse (shard_String ?sh) = Inr ?sh" using i assms(3) by (intro shard_Parse_String) simp_all
  have all: "shard_Parse [] = Inr shard_All" by (simp add: shard_Parse_def trim_space_def)
  obtain out where out: "resolve_sources aws shard_All (cfSources cfg) [] r w = Some (Inr out, r', w')"
      "resolve_cap out = Inr fleet"
    using assms(1) all by (auto simp: Resolve_def with_shard_def split: option.splits sum.splits)
  have f: "out = fleet" "length fleet \<le> maxInstances"
    using out(2) by (auto simp: resolve_cap_def split: if_splits)
  have "resolve_sources aws ?sh (cfSources cfg) [] r w = Some (Inr (own i), r', w')"
    using resolve_sources_filter [of aws ?sh "cfSources cfg" "[]" r w] out(1) f(1) by (simp add: own_def)
  moreover have "length (own i) \<le> maxInstances"
    using f(2) length_filter_le unfolding own_def by (rule order_trans [rotated])
  ultimately show "Resolve aws (with_shard cfg (shard_String ?sh)) r w = Some (Inr (own i), r', w')"
    using p by (simp add: Resolve_def with_shard_def resolve_cap_def)
next
  fix s assume "s \<in> set fleet"
  then show "\<exists>!i. 1 \<le> i \<and> i \<le> n \<and> s \<in> set (own i)"
    using shard_exactly_one_owner [OF assms(2), of "specKey s"] by (simp add: own_def)
qed

text \<open>One explicit instance of one region.\<close>

definition one_source :: source where
  "one_source = \<lparr>soType = ''rds'', soEngine = ''mysql'', soRegion = ''us-east-1'', soRegions = [],
     soInstances = [''db''], soDiscover = None, soAssumeRole = [], soIncludeAudit = False\<rparr>"

definition one_cfg :: config where "one_cfg = defaults\<lparr>cfSources := [one_source]\<rparr>"

definition one_spec :: instance_spec where
  "one_spec = source_spec one_source (''us-east-1'', []) ''db'' ''mysql''"

definition one_aws :: "'w discovery_api \<Rightarrow> 'w aws" where
  "one_aws d = \<lparr>awConfig = (\<lambda>_ w. (None, w)), awDiscovery = (\<lambda>_. d)\<rparr>"

lemma one_resolve_cfg:
  "Resolve (one_aws d) one_cfg newSpecResolver w =
     Some (Inr [one_spec], newSpecResolver\<lparr>srClients := [(''us-east-1'', [])]\<rparr>, w)"
  by (simp add: Resolve_def one_cfg_def defaults_def shard_Parse_def trim_space_def one_source_def
      resolve_source_def resolver_client_def newSpecResolver_def one_aws_def detect_engines_def
      discover_specs_def add_spec_def source_spec_def Let_def shard_Owns_def shard_All_def one_spec_def resolve_cap_def
      maxInstances_def)

theorem shards_partition_fleet_witness:
  "\<forall>(d :: unit discovery_api). \<exists>!i. 1 \<le> i \<and> i \<le> 3 \<and>
     one_spec \<in> set (filter (\<lambda>s. shard_Owns \<lparr>shIndex = i, shCount = 3\<rparr> (specKey s)) [one_spec])"
proof
  fix d :: "unit discovery_api"
  have c: "with_shard one_cfg [] = one_cfg" by (simp add: with_shard_def one_cfg_def defaults_def)
  show "\<exists>!i. 1 \<le> i \<and> i \<le> 3 \<and>
      one_spec \<in> set (filter (\<lambda>s. shard_Owns \<lparr>shIndex = i, shCount = 3\<rparr> (specKey s)) [one_spec])"
    using conjunct2 [OF shards_partition_fleet [of "one_aws d" one_cfg newSpecResolver "()" "[one_spec]" _ "()" 3, unfolded c,
        OF one_resolve_cfg]] by simp
qed

end
