(* ===== verification/Scheduler.thy ===== *)
theory Scheduler
  imports Worker Resolver
begin

text \<open>
  internal/pipeline/scheduler.go: the life of the workers.  The main goroutine of Run, the
  goroutines of the workers and the cancellation of the context interleave, so Run is a step
  relation: a step is one critical section, or one channel operation, of one goroutine.
\<close>

section \<open>State\<close>

record 'w scheduler =
  sdCfg :: config
  sdInstances :: "instance_spec list"
  sdRefresh :: bool
  sdRefreshInterval :: duration
  sdStore :: "'w state_store"
  sdSink :: "'w sink"
  sdShutdownTimeout :: duration

record 'w scheduler_opts =
  spConfig :: "config option"
  spInstances :: "instance_spec list"
  spRefresh :: bool
  spRefreshInterval :: duration
  spStore :: "'w state_store option"
  spSink :: "'w sink option"

definition NewScheduler :: "'w scheduler_opts \<Rightarrow> go_err + 'w scheduler" where
  "NewScheduler opts =
     (case (spConfig opts, spStore opts, spSink opts) of
        (None, _, _) \<Rightarrow> Inl (ErrMsg ''scheduler: config required'')
      | (Some cfg, None, _) \<Rightarrow> Inl (ErrMsg ''scheduler: state store required'')
      | (Some cfg, Some st, None) \<Rightarrow> Inl (ErrMsg ''scheduler: sink required'')
      | (Some cfg, Some st, Some sk) \<Rightarrow>
          Inr \<lparr>sdCfg = cfg, sdInstances = spInstances opts, sdRefresh = spRefresh opts,
               sdRefreshInterval = spRefreshInterval opts, sdStore = st, sdSink = sk,
               sdShutdownTimeout = rtShutdownTimeout (cfRuntime cfg)\<rparr>)"

text \<open>
  A worker goroutine: its context, its position (before the semaphore, inside Run, past it,
  gone), and the worker.  The map workers of the code points to such a goroutine by its index.
\<close>

datatype phase = Waiting | Holding | Released | Exited

record 'w thread =
  thKey :: string
  thCancelled :: bool
  thPhase :: phase
  thWorker :: "'w worker"
  thWst :: wst

text \<open>
  Where the main goroutine is.  Reconciling carries the desired set of the round and the part
  of it whose turn is still to come; Starting is the moment between the test that an instance
  has no worker and its start.
\<close>

datatype main =
    Idling
  | Booting "instance_spec list"
  | Selecting
  | Reconciling "(string \<times> instance_spec) list" "(string \<times> instance_spec) list"
  | Starting instance_spec "(string \<times> instance_spec) list" "(string \<times> instance_spec) list"
  | Draining
  | Returned "go_err option"

record 'w sched =
  scMain :: main
  scThreads :: "'w thread list"
  scRunning :: "string \<Rightarrow> nat option"
  scWorkers :: "string \<Rightarrow> nat option"
  scWatched :: "client_key list"
  scSem :: nat
  scDone :: bool

text \<open>The clients of the process: their RDS API, and whether they serve events.\<close>

record 'w clients =
  clApi :: "client_key \<Rightarrow> 'w rds_api option"
  clEvents :: "client_key \<Rightarrow> bool"
  clObserver :: "(string \<Rightarrow> string \<Rightarrow> 'w \<Rightarrow> 'w) option"
  clEnv :: "'w env"

definition maxDynamicWorkers :: int where "maxDynamicWorkers = 500"

definition run_dynamic :: "'w scheduler \<Rightarrow> bool" where
  "run_dynamic sd = (sdRefresh sd \<and> sdRefreshInterval sd > 0)"

definition run_concurrency :: "'w scheduler \<Rightarrow> int" where
  "run_concurrency sd =
     (let c = rtMaxInstancesConcurrent (cfRuntime (sdCfg sd)); n = int (length (sdInstances sd)) in
      if run_dynamic sd then (if c \<le> 0 then maxDynamicWorkers else c)
      else if c \<le> 0 \<or> c > n then n else c)"

definition sched_init :: "'w scheduler \<Rightarrow> 'w sched" where
  "sched_init sd =
     \<lparr>scMain = (if sdInstances sd = [] \<and> \<not> run_dynamic sd then Idling else Booting (sdInstances sd)),
      scThreads = [], scRunning = (\<lambda>_. None), scWorkers = (\<lambda>_. None), scWatched = [],
      scSem = 0, scDone = False\<rparr>"

section \<open>Starting a worker\<close>

definition build_worker ::
    "'w scheduler \<Rightarrow> 'w clients \<Rightarrow> instance_spec \<Rightarrow> 'w \<Rightarrow> go_err + ('w worker \<times> wst)" where
  "build_worker sd cl inst w =
     (let rt = cfRuntime (sdCfg sd) in
      case NewFetcher \<lparr>foAPI = clApi cl (isClient inst), foInstanceID = isInstanceID inst,
             foEngine = isEngine inst, foIncludeAudit = isIncludeAudit inst,
             foClock = None, foObserver = clObserver cl\<rparr> (enNow (clEnv cl)) of
        Inl e \<Rightarrow> Inl (Wrapped (''build fetcher for '' @ isInstanceID inst) e)
      | Inr f \<Rightarrow>
          (case NewInstanceWorker \<lparr>woFetcher = Some f, woStore = Some (sdStore sd),
                  woSink = Some (sdSink sd), woPollInterval = rtPollInterval rt,
                  woPollIntervalMax = rtPollIntervalMax rt,
                  woPollMultiplier = rtPollBackoffMultiplier rt,
                  woMaxBatchBytes = rtMaxBatchBytes rt, woMaxBatchRecords = rtMaxBatchRecords rt,
                  woParallelReads = rtParallelReadsPerFile rt, woDrainSem = rtMaxWorkers rt > 1,
                  woStartFrom = rtStartFrom rt, woMinFileTime = time_zero, woEnv = clEnv cl\<rparr> w of
             Inl e \<Rightarrow> Inl (Wrapped (''build worker for '' @ isInstanceID inst) e)
           | Inr wk \<Rightarrow> Inr wk))"

definition spawn :: "'w clients \<Rightarrow> instance_spec \<Rightarrow> 'w worker \<times> wst \<Rightarrow> 'w sched \<Rightarrow> 'w sched" where
  "spawn cl inst wk st =
     (let i = length (scThreads st); k = specKey inst; c = isClient inst in
      st\<lparr>scThreads := scThreads st @ [\<lparr>thKey = k, thCancelled = False, thPhase = Waiting,
             thWorker = fst wk, thWst = snd wk\<rparr>],
         scRunning := (scRunning st)(k \<mapsto> i),
         scWorkers := (scWorkers st)(k \<mapsto> i),
         scWatched := (if clEvents cl c \<and> c \<notin> set (scWatched st) then c # scWatched st
                       else scWatched st)\<rparr>)"

definition start_spec ::
    "'w scheduler \<Rightarrow> 'w clients \<Rightarrow> instance_spec \<Rightarrow> 'w \<Rightarrow> 'w sched \<Rightarrow> go_err + 'w sched" where
  "start_spec sd cl inst w st =
     (case build_worker sd cl inst w of Inl e \<Rightarrow> Inl e | Inr wk \<Rightarrow> Inr (spawn cl inst wk st))"

section \<open>A refresh\<close>

text \<open>The desired set by key, a later spec of a key replacing an earlier one.\<close>

definition want_of :: "instance_spec list \<Rightarrow> (string \<times> instance_spec) list" where
  "want_of desired = foldl (\<lambda>m s. AList.update (specKey s) s m) [] desired"

definition cancel_left :: "(string \<times> instance_spec) list \<Rightarrow> 'w sched \<Rightarrow> 'w sched" where
  "cancel_left want st =
     st\<lparr>scThreads := map (\<lambda>(i, t).
          if scRunning st (thKey t) = Some i \<and> thKey t \<notin> fst ` set want
          then t\<lparr>thCancelled := True\<rparr> else t)
        (List.enumerate 0 (scThreads st))\<rparr>"

section \<open>The goroutine of a worker\<close>

definition set_phase :: "nat \<Rightarrow> phase \<Rightarrow> 'w sched \<Rightarrow> 'w sched" where
  "set_phase i p st = st\<lparr>scThreads := (scThreads st)[i := (scThreads st ! i)\<lparr>thPhase := p\<rparr>]\<rparr>"

definition in_phase :: "nat \<Rightarrow> phase \<Rightarrow> 'w sched \<Rightarrow> bool" where
  "in_phase i p st = (i < length (scThreads st) \<and> thPhase (scThreads st ! i) = p)"

definition take_slot :: "nat \<Rightarrow> 'w sched \<Rightarrow> 'w sched" where
  "take_slot i st = (set_phase i Holding st)\<lparr>scSem := scSem st + 1\<rparr>"

definition leave_slot :: "nat \<Rightarrow> 'w sched \<Rightarrow> 'w sched" where
  "leave_slot i st = (set_phase i Released st)\<lparr>scSem := scSem st - 1\<rparr>"

definition clean_up :: "nat \<Rightarrow> 'w sched \<Rightarrow> 'w sched" where
  "clean_up i st =
     (let k = thKey (scThreads st ! i) in
      (set_phase i Exited st)\<lparr>scRunning := (scRunning st)(k := None),
                              scWorkers := (scWorkers st)(k := None)\<rparr>)"

text \<open>lookup of a watcher and the note it leaves with the worker.\<close>

definition notify :: "string \<Rightarrow> time \<Rightarrow> 'w sched \<Rightarrow> 'w sched" where
  "notify key tm st =
     (case scWorkers st key of
        None \<Rightarrow> st
      | Some i \<Rightarrow> st\<lparr>scThreads := (scThreads st)[i := (scThreads st ! i)\<lparr>thWst :=
                       NotifyRestart tm (thWst (scThreads st ! i))\<rparr>]\<rparr>)"

section \<open>Run\<close>

inductive sched_step :: "'w scheduler \<Rightarrow> 'w clients \<Rightarrow> 'w sched \<Rightarrow> 'w sched \<Rightarrow> bool"
  for sd :: "'w scheduler" and cl :: "'w clients" where
  boot: "scMain st = Booting (inst # insts) \<Longrightarrow> start_spec sd cl inst w st = Inr st' \<Longrightarrow>
     sched_step sd cl st (st'\<lparr>scMain := Booting insts\<rparr>)"
| boot_failed: "scMain st = Booting (inst # insts) \<Longrightarrow> start_spec sd cl inst w st = Inl e \<Longrightarrow>
     sched_step sd cl st (st\<lparr>scMain := Returned (Some e)\<rparr>)"
| booted: "scMain st = Booting [] \<Longrightarrow> sched_step sd cl st (st\<lparr>scMain := Selecting\<rparr>)"
| refresh: "scMain st = Selecting \<Longrightarrow> run_dynamic sd \<Longrightarrow> want = want_of desired \<Longrightarrow>
     sched_step sd cl st ((cancel_left want st)\<lparr>scMain := Reconciling want want\<rparr>)"
| alive: "scMain st = Reconciling want todo \<Longrightarrow> (k, inst) \<in> set todo \<Longrightarrow>
     scRunning st k \<noteq> None \<Longrightarrow>
     sched_step sd cl st (st\<lparr>scMain := Reconciling want (removeAll (k, inst) todo)\<rparr>)"
| absent: "scMain st = Reconciling want todo \<Longrightarrow> (k, inst) \<in> set todo \<Longrightarrow>
     scRunning st k = None \<Longrightarrow>
     sched_step sd cl st (st\<lparr>scMain := Starting inst want (removeAll (k, inst) todo)\<rparr>)"
| started: "scMain st = Starting inst want todo \<Longrightarrow> start_spec sd cl inst w st = Inr st' \<Longrightarrow>
     sched_step sd cl st (st'\<lparr>scMain := Reconciling want todo\<rparr>)"
| start_failed: "scMain st = Starting inst want todo \<Longrightarrow> start_spec sd cl inst w st = Inl e \<Longrightarrow>
     sched_step sd cl st (st\<lparr>scMain := Reconciling want todo\<rparr>)"
| reconciled: "scMain st = Reconciling want [] \<Longrightarrow> sched_step sd cl st (st\<lparr>scMain := Selecting\<rparr>)"
| cancel: "sched_step sd cl st (st\<lparr>scDone := True\<rparr>)"
| idle_done: "scMain st = Idling \<Longrightarrow> scDone st \<Longrightarrow>
     sched_step sd cl st (st\<lparr>scMain := Returned None\<rparr>)"
| shutdown: "scMain st = Selecting \<Longrightarrow> scDone st \<Longrightarrow> sched_step sd cl st (st\<lparr>scMain := Draining\<rparr>)"
| drained: "scMain st = Draining \<Longrightarrow> \<forall>t \<in> set (scThreads st). thPhase t = Exited \<Longrightarrow>
     sched_step sd cl st (st\<lparr>scMain := Returned None\<rparr>)"
| timed_out: "scMain st = Draining \<Longrightarrow> sched_step sd cl st (st\<lparr>scMain := Returned None\<rparr>)"
| acquire: "in_phase i Waiting st \<Longrightarrow> int (scSem st) < run_concurrency sd \<Longrightarrow>
     sched_step sd cl st (take_slot i st)"
| run_ended: "in_phase i Holding st \<Longrightarrow> thCancelled (scThreads st ! i) \<or> scDone st \<Longrightarrow>
     sched_step sd cl st (leave_slot i st)"
| exit: "in_phase i Released st \<Longrightarrow> sched_step sd cl st (clean_up i st)"
| event: "c \<in> set (scWatched st) \<Longrightarrow> sched_step sd cl st (notify (fst c @ ''|'' @ ident) tm st)"

inductive sched_reach :: "'w scheduler \<Rightarrow> 'w clients \<Rightarrow> 'w sched \<Rightarrow> bool"
  for sd :: "'w scheduler" and cl :: "'w clients" where
  reach_init: "sched_reach sd cl (sched_init sd)"
| reach_step: "sched_reach sd cl st \<Longrightarrow> sched_step sd cl st st' \<Longrightarrow> sched_reach sd cl st'"

inductive_cases sched_stepE: "sched_step sd cl st st'"

section \<open>The registry of workers\<close>

text \<open>
  What the registry sees of the goroutines: the key and the position of each.  A step of a
  goroutine changes one of these slots.
\<close>

definition slots :: "'w sched \<Rightarrow> (string \<times> phase) list" where
  "slots st = map (\<lambda>t. (thKey t, thPhase t)) (scThreads st)"

lemma slots_length [simp]: "length (slots st) = length (scThreads st)"
  by (simp add: slots_def)

lemma slots_nth: "i < length (scThreads st) \<Longrightarrow>
    slots st ! i = (thKey (scThreads st ! i), thPhase (scThreads st ! i))"
  by (simp add: slots_def)

lemma slots_update [simp]:
  "slots (st\<lparr>scSem := n\<rparr>) = slots st" "slots (st\<lparr>scMain := m\<rparr>) = slots st"
  "slots (st\<lparr>scDone := d\<rparr>) = slots st" "slots (st\<lparr>scRunning := r\<rparr>) = slots st"
  "slots (st\<lparr>scWorkers := r\<rparr>) = slots st"
  by (simp_all add: slots_def)

lemma slots_spawn: "slots (spawn cl inst wk st) = slots st @ [(specKey inst, Waiting)]"
  by (simp add: slots_def spawn_def Let_def)

lemma slots_cancel_left [simp]: "slots (cancel_left want st) = slots st"
  by (rule nth_equalityI) (simp_all add: slots_def cancel_left_def nth_enumerate_eq)

lemma map_update_same: "f y = f (xs ! i) \<Longrightarrow> map f (xs[i := y]) = map f xs"
  by (cases "i < length xs") (simp_all add: map_update list_update_same_conv list_update_beyond)

lemma slots_notify [simp]: "slots (notify k tm st) = slots st"
  by (auto simp: slots_def notify_def map_update_same split: option.splits)

lemma slots_set_phase:
  "i < length (scThreads st) \<Longrightarrow> slots (set_phase i p st) = (slots st)[i := (fst (slots st ! i), p)]"
  by (simp add: slots_def set_phase_def map_update)

text \<open>A list of slots and a map agree: the map sends a key to the goroutine of the key that
  has not exited.\<close>

definition registered :: "(string \<times> phase) list \<Rightarrow> (string \<Rightarrow> nat option) \<Rightarrow> bool" where
  "registered xs m =
     (\<forall>k i. m k = Some i \<longleftrightarrow> i < length xs \<and> fst (xs ! i) = k \<and> snd (xs ! i) \<noteq> Exited)"

lemma registered_init: "registered [] (\<lambda>_. None)"
  by (simp add: registered_def)

lemma registered_spawn:
  assumes "registered xs m" "m k = None"
  shows "registered (xs @ [(k, Waiting)]) (m(k \<mapsto> length xs))"
  using assms unfolding registered_def
  by (auto simp: nth_append less_Suc_eq) (metis option.distinct(1))+

lemma registered_phase:
  "registered xs m \<Longrightarrow> i < length xs \<Longrightarrow> snd (xs ! i) \<noteq> Exited \<Longrightarrow> p \<noteq> Exited \<Longrightarrow>
     registered (xs[i := (fst (xs ! i), p)]) m"
  by (auto simp: registered_def nth_list_update)

lemma registered_exit:
  assumes "registered xs m" "i < length xs" "snd (xs ! i) \<noteq> Exited"
  shows "registered (xs[i := (fst (xs ! i), Exited)]) (m(fst (xs ! i) := None))"
proof -
  have "m (fst (xs ! i)) = Some i" using assms unfolding registered_def by blast
  then have "j = i" if "j < length xs" "fst (xs ! j) = fst (xs ! i)" "snd (xs ! j) \<noteq> Exited" for j
    using assms(1) that unfolding registered_def by (metis option.inject)
  then show ?thesis using assms unfolding registered_def by (auto simp: nth_list_update)
qed

text \<open>Slots in use.\<close>

definition held :: "(string \<times> phase) list \<Rightarrow> nat" where
  "held xs = length (filter (\<lambda>x. snd x = Holding) xs)"

lemma filter_update_length:
  "i < length xs \<Longrightarrow>
     length (filter P (xs[i := y])) + (if P (xs ! i) then 1 else 0)
       = length (filter P xs) + (if P y then 1 else 0)"
proof (induction xs arbitrary: i)
  case (Cons x xs)
  then show ?case by (cases i) auto
qed simp

lemma held_update:
  "i < length xs \<Longrightarrow> held (xs[i := (k, p)]) + (if snd (xs ! i) = Holding then 1 else 0)
     = held xs + (if p = Holding then 1 else 0)"
  using filter_update_length [of i xs "\<lambda>x. snd x = Holding" "(k, p)"] by (simp add: held_def)

section \<open>The invariant\<close>

definition keyed :: "(string \<times> instance_spec) list \<Rightarrow> bool" where
  "keyed want = (\<forall>(k, s) \<in> set want. specKey s = k)"

fun main_ok :: "main \<Rightarrow> (string \<Rightarrow> nat option) \<Rightarrow> bool" where
  "main_ok (Booting insts) m = (distinct (map specKey insts) \<and> (\<forall>s \<in> set insts. m (specKey s) = None))"
| "main_ok (Reconciling want todo) m = keyed todo"
| "main_ok (Starting inst want todo) m = (m (specKey inst) = None \<and> keyed todo)"
| "main_ok _ m = True"

definition sched_inv :: "'w scheduler \<Rightarrow> 'w sched \<Rightarrow> bool" where
  "sched_inv sd st =
     (registered (slots st) (scRunning st) \<and> scWorkers st = scRunning st
      \<and> scSem st = held (slots st) \<and> int (scSem st) \<le> run_concurrency sd
      \<and> main_ok (scMain st) (scRunning st))"

lemma run_concurrency_nonneg: "0 \<le> run_concurrency sd"
  by (simp add: run_concurrency_def maxDynamicWorkers_def Let_def)

lemma sched_inv_init:
  "distinct (map specKey (sdInstances sd)) \<Longrightarrow> sched_inv sd (sched_init sd)"
  by (simp add: sched_inv_def sched_init_def slots_def registered_init held_def run_concurrency_nonneg)

lemma sched_inv_main:
  "sched_inv sd st \<Longrightarrow> main_ok m (scRunning st) \<Longrightarrow> sched_inv sd (st\<lparr>scMain := m\<rparr>)"
  by (simp add: sched_inv_def slots_def)

lemma sched_inv_spawn:
  assumes "sched_inv sd st" "scRunning st (specKey inst) = None" "start_spec sd cl inst w st = Inr st'"
    "main_ok m ((scRunning st)(specKey inst \<mapsto> length (slots st)))"
  shows "sched_inv sd (st'\<lparr>scMain := m\<rparr>)"
proof -
  obtain wk where st': "st' = spawn cl inst wk st"
    using assms(3) by (auto simp: start_spec_def split: sum.splits)
  have r: "scRunning st' = (scRunning st)(specKey inst \<mapsto> length (slots st))"
    "scWorkers st' = (scWorkers st)(specKey inst \<mapsto> length (slots st))" "scSem st' = scSem st"
    by (simp_all add: st' spawn_def Let_def)
  have "slots (st'\<lparr>scMain := m\<rparr>) = slots st @ [(specKey inst, Waiting)]"
    by (simp add: st' slots_spawn)
  then show ?thesis
    using assms(1,2,4) registered_spawn [of "slots st" "scRunning st" "specKey inst"]
    by (simp add: sched_inv_def r held_def)
qed

lemma main_ok_exit: "main_ok m r \<Longrightarrow> main_ok m (r(k := None))"
  by (cases "(m, r)" rule: main_ok.cases) auto

lemma set_phase_sel [simp]:
  "scRunning (set_phase i p st) = scRunning st" "scWorkers (set_phase i p st) = scWorkers st"
  "scSem (set_phase i p st) = scSem st" "scMain (set_phase i p st) = scMain st"
  "scDone (set_phase i p st) = scDone st"
  by (simp_all add: set_phase_def)

lemma in_phase_slot: "in_phase i p st \<Longrightarrow> i < length (slots st) \<and> snd (slots st ! i) = p"
  by (simp add: in_phase_def slots_nth)

lemma sched_inv_take:
  assumes "sched_inv sd st" "in_phase i Waiting st" "int (scSem st) < run_concurrency sd"
  shows "sched_inv sd (take_slot i st)"
proof -
  note s = in_phase_slot [OF assms(2)]
  show ?thesis
    using assms s held_update [of i "slots st" "fst (slots st ! i)" Holding]
      registered_phase [of "slots st" "scRunning st" i Holding]
    by (simp add: sched_inv_def take_slot_def slots_set_phase)
qed

lemma sched_inv_leave:
  assumes "sched_inv sd st" "in_phase i Holding st"
  shows "sched_inv sd (leave_slot i st)"
proof -
  note s = in_phase_slot [OF assms(2)]
  show ?thesis
    using assms s held_update [of i "slots st" "fst (slots st ! i)" Released]
      registered_phase [of "slots st" "scRunning st" i Released]
    by (simp add: sched_inv_def leave_slot_def slots_set_phase)
qed

lemma sched_inv_exit:
  assumes "sched_inv sd st" "in_phase i Released st"
  shows "sched_inv sd (clean_up i st)"
proof -
  note s = in_phase_slot [OF assms(2)]
  have k: "thKey (scThreads st ! i) = fst (slots st ! i)" using s by (simp add: slots_nth)
  show ?thesis
    using assms s held_update [of i "slots st" "fst (slots st ! i)" Exited]
      registered_exit [of "slots st" "scRunning st" i] main_ok_exit
    by (simp add: sched_inv_def clean_up_def slots_set_phase Let_def k)
qed

lemma keyed_removeAll: "keyed todo \<Longrightarrow> keyed (removeAll x todo)"
  by (auto simp: keyed_def)

lemma set_update_subset: "set (AList.update k v m) \<subseteq> insert (k, v) (set m)"
  by (induction m) auto

lemma want_of_keyed: "keyed (want_of desired)"
proof -
  have "keyed m \<Longrightarrow> keyed (foldl (\<lambda>m s. AList.update (specKey s) s m) m desired)" for m
  proof (induction desired arbitrary: m)
    case (Cons s desired)
    have "keyed (AList.update (specKey s) s m)"
      using Cons.prems set_update_subset [of "specKey s" s m] by (auto simp: keyed_def)
    then show ?case using Cons.IH by simp
  qed simp
  from this [of "[]"] show ?thesis by (simp add: want_of_def) (simp add: keyed_def)
qed

lemma sched_inv_main_ok: "sched_inv sd st \<Longrightarrow> main_ok (scMain st) (scRunning st)"
  by (simp add: sched_inv_def)

lemma sched_inv_done: "sched_inv sd st \<Longrightarrow> sched_inv sd (st\<lparr>scDone := True\<rparr>)"
  by (simp add: sched_inv_def)

lemma sched_inv_notify: "sched_inv sd st \<Longrightarrow> sched_inv sd (notify k tm st)"
  by (simp add: sched_inv_def) (simp add: notify_def split: option.splits)

lemma sched_inv_refresh:
  "sched_inv sd st \<Longrightarrow> keyed want \<Longrightarrow>
     sched_inv sd ((cancel_left want st)\<lparr>scMain := Reconciling want want\<rparr>)"
  by (simp add: sched_inv_def) (simp add: cancel_left_def)

lemma sched_inv_step: "sched_step sd cl st st' \<Longrightarrow> sched_inv sd st \<Longrightarrow> sched_inv sd st'"
proof (induction rule: sched_step.induct)
  case (boot st inst insts w st')
  then show ?case
    using sched_inv_main_ok [OF boot(3)] by (intro sched_inv_spawn) (auto simp: image_iff)
next
  case (absent st want todo k inst)
  then show ?case
    using sched_inv_main_ok [OF absent(4)] by (intro sched_inv_main) (auto simp: keyed_def)
next
  case (started st inst want todo w st')
  then show ?case using sched_inv_main_ok [OF started(3)] by (intro sched_inv_spawn) auto
next
  case (alive st want todo k inst)
  then show ?case
    using sched_inv_main_ok [OF alive(4)] by (intro sched_inv_main) (auto simp: keyed_def)
next
  case (start_failed st inst want todo w e)
  then show ?case using sched_inv_main_ok [OF start_failed(3)] by (intro sched_inv_main) auto
qed (simp_all add: sched_inv_main sched_inv_done sched_inv_take sched_inv_leave sched_inv_exit
      sched_inv_notify sched_inv_refresh want_of_keyed)

lemma sched_reach_inv:
  "sched_reach sd cl st \<Longrightarrow> distinct (map specKey (sdInstances sd)) \<Longrightarrow> sched_inv sd st"
  by (induction rule: sched_reach.induct) (auto intro: sched_inv_init sched_inv_step)

section \<open>A desired worker is left alone\<close>

text \<open>The steps whose refreshes, if any, want the key.\<close>

definition wants :: "string \<Rightarrow> 'w sched \<Rightarrow> bool" where
  "wants k st = (case scMain st of Reconciling want todo \<Rightarrow> k \<in> fst ` set want | _ \<Rightarrow> True)"

definition wanted_step :: "'w scheduler \<Rightarrow> 'w clients \<Rightarrow> string \<Rightarrow> 'w sched \<Rightarrow> 'w sched \<Rightarrow> bool" where
  "wanted_step sd cl k st st' = (sched_step sd cl st st' \<and> wants k st')"

text \<open>Goroutine i tails k: it is on its way to Run or in it, with a live context.\<close>

definition tails :: "nat \<Rightarrow> string \<Rightarrow> 'w sched \<Rightarrow> bool" where
  "tails i k st = (i < length (scThreads st) \<and> thKey (scThreads st ! i) = k
     \<and> \<not> thCancelled (scThreads st ! i) \<and> thPhase (scThreads st ! i) \<in> {Waiting, Holding})"

lemma tails_main [simp]: "tails i k (st\<lparr>scMain := m\<rparr>) = tails i k st"
  by (simp add: tails_def)

lemma tails_done [simp]: "tails i k (st\<lparr>scDone := d\<rparr>) = tails i k st"
  by (simp add: tails_def)

lemma tails_start: "start_spec sd cl inst w st = Inr st' \<Longrightarrow> tails i k st \<Longrightarrow> tails i k st'"
  by (auto simp: start_spec_def spawn_def tails_def nth_append Let_def split: sum.splits)

lemma tails_cancel_left: "k \<in> fst ` set want \<Longrightarrow> tails i k st \<Longrightarrow> tails i k (cancel_left want st)"
  by (simp add: tails_def cancel_left_def nth_enumerate_eq)

lemma tails_notify: "tails i k st \<Longrightarrow> tails i k (notify key tm st)"
  by (cases "scWorkers st key = Some i") (auto simp: tails_def notify_def split: option.splits)

lemma tails_take: "in_phase j Waiting st \<Longrightarrow> tails i k st \<Longrightarrow> tails i k (take_slot j st)"
  by (auto simp: tails_def take_slot_def set_phase_def in_phase_def nth_list_update)

lemma tails_leave:
  "in_phase j Holding st \<Longrightarrow> thCancelled (scThreads st ! j) \<Longrightarrow> tails i k st \<Longrightarrow>
     tails i k (leave_slot j st)"
  by (auto simp: tails_def leave_slot_def set_phase_def in_phase_def nth_list_update)

lemma tails_exit: "in_phase j Released st \<Longrightarrow> tails i k st \<Longrightarrow> tails i k (clean_up j st)"
  by (auto simp: tails_def clean_up_def set_phase_def in_phase_def nth_list_update Let_def)

lemma tails_step:
  "sched_step sd cl st st' \<Longrightarrow> wants k st' \<Longrightarrow> \<not> scDone st \<Longrightarrow> tails i k st \<Longrightarrow> tails i k st'"
proof (induction rule: sched_step.induct)
  case (refresh st want desired)
  then show ?case by (simp add: wants_def tails_cancel_left)
qed (simp_all add: tails_start tails_notify tails_take tails_leave tails_exit)

lemma sched_step_done: "sched_step sd cl st st' \<Longrightarrow> scDone st \<Longrightarrow> scDone st'"
  by (induction rule: sched_step.induct)
    (auto simp: start_spec_def spawn_def cancel_left_def notify_def take_slot_def leave_slot_def
      clean_up_def Let_def split: sum.splits option.splits)

lemma tails_steps:
  "(wanted_step sd cl k)\<^sup>*\<^sup>* st st' \<Longrightarrow> \<not> scDone st' \<Longrightarrow> tails i k st \<Longrightarrow> tails i k st'"
  by (induction rule: rtranclp_induct) (auto simp: wanted_step_def dest: sched_step_done tails_step)

lemma sched_reach_steps:
  "(wanted_step sd cl k)\<^sup>*\<^sup>* st st' \<Longrightarrow> sched_reach sd cl st \<Longrightarrow> sched_reach sd cl st'"
  by (induction rule: rtranclp_induct) (auto simp: wanted_step_def intro: reach_step)

section \<open>One worker for an instance\<close>

definition live_threads :: "'w sched \<Rightarrow> 'w thread list" where
  "live_threads st = filter (\<lambda>t. thPhase t \<noteq> Exited) (scThreads st)"

lemma distinct_map_filterI:
  "(\<And>i j. i < length xs \<Longrightarrow> j < length xs \<Longrightarrow> P (xs ! i) \<Longrightarrow> P (xs ! j) \<Longrightarrow> f (xs ! i) = f (xs ! j) \<Longrightarrow> i = j)
     \<Longrightarrow> distinct (map f (filter P xs))"
proof (induction xs)
  case (Cons x xs)
  have "distinct (map f (filter P xs))"
    using Cons.prems [of "Suc i" "Suc j" for i j] by (intro Cons.IH) auto
  moreover have "f x \<notin> f ` set (filter P xs)" if "P x"
  proof
    assume "f x \<in> f ` set (filter P xs)"
    then obtain j where "j < length xs" "P (xs ! j)" "f x = f (xs ! j)"
      by (auto simp: in_set_conv_nth)
    then show False using Cons.prems [of 0 "Suc j"] that by simp
  qed
  ultimately show ?case by simp
qed simp

lemma registered_distinct:
  assumes "registered (slots st) m"
  shows "distinct (map thKey (live_threads st))"
  unfolding live_threads_def
proof (rule distinct_map_filterI)
  fix i j
  assume "i < length (scThreads st)" "j < length (scThreads st)"
    "thPhase (scThreads st ! i) \<noteq> Exited" "thPhase (scThreads st ! j) \<noteq> Exited"
    "thKey (scThreads st ! i) = thKey (scThreads st ! j)"
  then show "i = j"
    using assms unfolding registered_def by (metis fst_conv snd_conv option.inject slots_length slots_nth)
qed

lemma held_threads: "held (slots st) = length (filter (\<lambda>t. thPhase t = Holding) (scThreads st))"
  by (simp add: held_def slots_def filter_map o_def)

lemma Resolve_specs:
  assumes "Resolve aws cfg r w = Some (Inr out, r', w')"
  shows "distinct (map specKey out) \<and> length out \<le> maxInstances
    \<and> (\<exists>sh. shard_Parse (rtShard (cfRuntime cfg)) = Inr sh \<and> (\<forall>s \<in> set out. shard_Owns sh (specKey s)))"
proof -
  obtain sh out1 where sh: "shard_Parse (rtShard (cfRuntime cfg)) = Inr sh"
      "resolve_sources aws sh (cfSources cfg) [] r w = Some (Inr out1, r', w')" "resolve_cap out1 = Inr out"
    using assms by (auto simp: Resolve_def split: sum.splits option.splits)
  have "out1 = out" "length out \<le> maxInstances"
    using sh(3) by (auto simp: resolve_cap_def split: if_splits)
  then show ?thesis using resolve_sources_inv [OF sh(2)] sh(1) by simp
qed

section \<open>A departed instance is told to stop\<close>

text \<open>Every goroutine that has not exited has been cancelled or is wanted.\<close>

definition kept :: "string set \<Rightarrow> 'w sched \<Rightarrow> bool" where
  "kept W st = (\<forall>t \<in> set (scThreads st). thPhase t \<noteq> Exited \<longrightarrow> thCancelled t \<or> thKey t \<in> W)"

definition round_ok :: "'w sched \<Rightarrow> bool" where
  "round_ok st = (case scMain st of
       Reconciling want todo \<Rightarrow> set todo \<subseteq> set want \<and> kept (fst ` set want) st
     | Starting inst want todo \<Rightarrow> set todo \<subseteq> set want \<and> specKey inst \<in> fst ` set want \<and> kept (fst ` set want) st
     | _ \<Rightarrow> True)"

lemma kept_main [simp]: "kept W (st\<lparr>scMain := m\<rparr>) = kept W st"
  by (simp add: kept_def)

lemma kept_start:
  "start_spec sd cl inst w st = Inr st' \<Longrightarrow> specKey inst \<in> W \<Longrightarrow> kept W st \<Longrightarrow> kept W st'"
  by (auto simp: start_spec_def spawn_def kept_def Let_def split: sum.splits)

lemma kept_notify: "kept W st \<Longrightarrow> kept W (notify key tm st)"
proof (cases "scWorkers st key")
  case (Some j)
  let ?f = "\<lambda>t. thPhase t \<noteq> Exited \<longrightarrow> thCancelled t \<or> thKey t \<in> W"
  have all: "kept W s = (False \<notin> set (map ?f (scThreads s)))" for s :: "'a sched"
    by (simp add: kept_def image_iff) metis
  have th: "scThreads (notify key tm st) = (scThreads st)[j := (scThreads st ! j)
      \<lparr>thWst := NotifyRestart tm (thWst (scThreads st ! j))\<rparr>]"
    using Some by (simp add: notify_def)
  have "map ?f (scThreads (notify key tm st)) = map ?f (scThreads st)"
    unfolding th by (rule map_update_same) simp
  then have "kept W (notify key tm st) = kept W st" unfolding all by (rule arg_cong)
  then show "kept W st \<Longrightarrow> kept W (notify key tm st)" by blast
qed (simp add: notify_def)

lemma kept_phase:
  assumes "in_phase i p st" "p \<noteq> Exited" "kept W st"
  shows "kept W (set_phase i q st)"
  unfolding kept_def
proof (intro ballI impI)
  fix t
  assume "t \<in> set (scThreads (set_phase i q st))" "thPhase t \<noteq> Exited"
  then have "t = (scThreads st ! i)\<lparr>thPhase := q\<rparr> \<or> t \<in> set (scThreads st)"
    using set_update_subset_insert by (fastforce simp: set_phase_def)
  then show "thCancelled t \<or> thKey t \<in> W"
    using assms \<open>thPhase t \<noteq> Exited\<close> nth_mem [of i "scThreads st"]
    by (auto simp: kept_def in_phase_def)
qed

lemma kept_cancel_left:
  assumes "sched_inv sd st"
  shows "kept (fst ` set want) (cancel_left want st)"
proof -
  have "scRunning st (thKey (scThreads st ! i)) = Some i"
    if "i < length (scThreads st)" "thPhase (scThreads st ! i) \<noteq> Exited" for i
    using assms that unfolding sched_inv_def registered_def by (simp add: slots_nth)
  then show ?thesis by (auto simp: kept_def cancel_left_def in_set_enumerate_eq split: if_splits)
qed

lemma kept_update [simp]:
  "kept W (st\<lparr>scSem := n\<rparr>) = kept W st" "kept W (st\<lparr>scDone := d\<rparr>) = kept W st"
  "kept W (st\<lparr>scRunning := r\<rparr>) = kept W st" "kept W (st\<lparr>scWorkers := r\<rparr>) = kept W st"
  by (simp_all add: kept_def)

lemma round_ok_main:
  "scMain st' = scMain st \<Longrightarrow> (\<And>W. kept W st \<Longrightarrow> kept W st') \<Longrightarrow> round_ok st \<Longrightarrow> round_ok st'"
  by (auto simp: round_ok_def split: main.splits)

lemma notify_main [simp]: "scMain (notify key tm st) = scMain st"
  by (simp add: notify_def split: option.splits)

lemma round_ok_step:
  "sched_step sd cl st st' \<Longrightarrow> sched_inv sd st \<Longrightarrow> round_ok st \<Longrightarrow> round_ok st'"
proof (induction rule: sched_step.induct)
  case (refresh st want desired)
  then show ?case using kept_cancel_left by (simp add: round_ok_def)
next
  case (alive st want todo k inst)
  then show ?case by (auto simp: round_ok_def)
next
  case (absent st want todo k inst)
  then have "specKey inst = k" using sched_inv_main_ok [OF absent(4)] by (auto simp: keyed_def)
  then show ?case using absent by (force simp: round_ok_def)
next
  case (started st inst want todo w st')
  then show ?case using kept_start [OF started(2)] by (simp add: round_ok_def)
next
  case (cancel st)
  show ?case by (rule round_ok_main [OF _ _ cancel(2)]) simp_all
next
  case (acquire i st)
  show ?case
    by (rule round_ok_main [OF _ _ acquire(4)]) (simp_all add: take_slot_def kept_phase [OF acquire(1)])
next
  case (run_ended i st)
  show ?case
    by (rule round_ok_main [OF _ _ run_ended(4)]) (simp_all add: leave_slot_def kept_phase [OF run_ended(1)])
next
  case (exit i st)
  show ?case
    by (rule round_ok_main [OF _ _ exit(3)])
      (simp_all add: clean_up_def Let_def kept_phase [OF exit(1)])
next
  case (event c st ident tm)
  show ?case by (rule round_ok_main [OF _ _ event(3)]) (simp_all add: kept_notify)
qed (simp_all add: round_ok_def)

lemma sched_reach_round:
  "sched_reach sd cl st \<Longrightarrow> distinct (map specKey (sdInstances sd)) \<Longrightarrow> round_ok st"
proof (induction rule: sched_reach.induct)
  case (reach_step st st')
  then show ?case using round_ok_step sched_reach_inv by blast
qed (simp add: round_ok_def sched_init_def)

section \<open>An example\<close>

definition one_sched :: "'w state_store \<Rightarrow> 'w sink \<Rightarrow> 'w scheduler" where
  "one_sched store sink = \<lparr>sdCfg = one_cfg, sdInstances = [one_spec], sdRefresh = True,
     sdRefreshInterval = 60 * second, sdStore = store, sdSink = sink, sdShutdownTimeout = second\<rparr>"

definition one_clients :: "'w rds_api \<Rightarrow> 'w env \<Rightarrow> 'w clients" where
  "one_clients api en = \<lparr>clApi = (\<lambda>_. Some api), clEvents = (\<lambda>_. True), clObserver = None, clEnv = en\<rparr>"

text \<open>Booted: the goroutine of the instance waits for its slot.\<close>

definition one_booted :: "'w state_store \<Rightarrow> 'w sink \<Rightarrow> 'w clients \<Rightarrow> 'w \<Rightarrow> 'w sched" where
  "one_booted store sink cl w =
     (let sd = one_sched store sink in
      (spawn cl one_spec (case build_worker sd cl one_spec w of Inr wk \<Rightarrow> wk) (sched_init sd))
        \<lparr>scMain := Booting []\<rparr>)"

lemma one_resolve:
  "Resolve (one_aws d) (sdCfg (one_sched store sink)) newSpecResolver w =
     Some (Inr (sdInstances (one_sched store sink)), newSpecResolver\<lparr>srClients := [(''us-east-1'', [])]\<rparr>, w)"
  by (simp add: one_sched_def one_resolve_cfg)

lemma one_start:
  "start_spec (one_sched store sink) (one_clients api en) one_spec w (sched_init (one_sched store sink))
     = Inr ((one_booted store sink (one_clients api en) w)\<lparr>scMain := Booting [one_spec]\<rparr>)"
  by (simp add: start_spec_def one_booted_def build_worker_def NewFetcher_def NewInstanceWorker_def
      one_clients_def one_spec_def source_spec_def one_source_def Let_def spawn_def sched_init_def
      one_sched_def)

lemma one_reach:
  "sched_reach (one_sched store sink) (one_clients api en) (one_booted store sink (one_clients api en) w)"
proof -
  have "sched_step (one_sched store sink) (one_clients api en) (sched_init (one_sched store sink))
      (((one_booted store sink (one_clients api en) w)\<lparr>scMain := Booting [one_spec]\<rparr>)\<lparr>scMain := Booting []\<rparr>)"
    by (rule sched_step.boot [OF _ one_start]) (simp add: sched_init_def one_sched_def)
  then show ?thesis
    using reach_step [OF reach_init] by (simp add: one_booted_def Let_def)
qed

lemma one_tails: "tails 0 (specKey one_spec) (one_booted store sink cl w)"
  by (simp add: tails_def one_booted_def spawn_def sched_init_def Let_def)

text \<open>Its first refresh, which desires the same instance.\<close>

definition one_refreshed :: "'w state_store \<Rightarrow> 'w sink \<Rightarrow> 'w clients \<Rightarrow> 'w \<Rightarrow> 'w sched" where
  "one_refreshed store sink cl w =
     (cancel_left (want_of [one_spec]) ((one_booted store sink cl w)\<lparr>scMain := Selecting\<rparr>))
       \<lparr>scMain := Reconciling (want_of [one_spec]) (want_of [one_spec])\<rparr>"

lemma one_refreshed_reach:
  "sched_reach (one_sched store sink) (one_clients api en) (one_refreshed store sink (one_clients api en) w)"
  unfolding one_refreshed_def
proof (rule reach_step [OF reach_step [OF one_reach sched_step.booted] sched_step.refresh])
  show "scMain (one_booted store sink (one_clients api en) w) = Booting []"
    by (simp add: one_booted_def Let_def)
  show "run_dynamic (one_sched store sink)" by (simp add: run_dynamic_def one_sched_def second_def)
qed simp_all

section \<open>Properties\<close>

text \<open>C12. Started with the instances Resolve returned, in every reachable state of Run, whatever
  later refreshes desire and however the goroutines interleave: no two goroutines that have not
  exited serve the same instance, the maps running and workers hold exactly those goroutines,
  and the workers inside Run are counted by the semaphore and bounded by the concurrency.\<close>

theorem scheduler_one_worker:
  assumes "Resolve aws (sdCfg sd) r w = Some (Inr (sdInstances sd), r', w')"
    and "sched_reach sd cl st"
  shows "distinct (map thKey (live_threads st))
    \<and> scWorkers st = scRunning st
    \<and> dom (scRunning st) = thKey ` set (live_threads st)
    \<and> scSem st = length (filter (\<lambda>t. thPhase t = Holding) (scThreads st))
    \<and> int (scSem st) \<le> run_concurrency sd"
proof -
  have inv: "sched_inv sd st"
    using sched_reach_inv [OF assms(2)] Resolve_specs [OF assms(1)] by simp
  have reg: "registered (slots st) (scRunning st)" using inv by (simp add: sched_inv_def)
  have "k \<in> dom (scRunning st) \<longleftrightarrow> k \<in> thKey ` set (live_threads st)" for k
  proof
    assume "k \<in> dom (scRunning st)"
    then obtain i where "i < length (scThreads st)" "thKey (scThreads st ! i) = k"
        "thPhase (scThreads st ! i) \<noteq> Exited"
      using reg unfolding registered_def by (auto simp: slots_nth)
    then show "k \<in> thKey ` set (live_threads st)" by (auto simp: live_threads_def)
  next
    assume "k \<in> thKey ` set (live_threads st)"
    then obtain i where "i < length (scThreads st)" "thKey (scThreads st ! i) = k"
        "thPhase (scThreads st ! i) \<noteq> Exited"
      by (auto simp: live_threads_def in_set_conv_nth)
    then have "scRunning st k = Some i" using reg unfolding registered_def by (simp add: slots_nth)
    then show "k \<in> dom (scRunning st)" by blast
  qed
  then show ?thesis
    using inv registered_distinct [OF reg] by (auto simp: sched_inv_def held_threads)
qed

theorem scheduler_one_worker_witness:
  "\<forall>(store :: unit state_store) sink api en.
     distinct (map thKey (live_threads (one_booted store sink (one_clients api en) ())))"
proof (intro allI)
  fix store :: "unit state_store" and sink api en
  show "distinct (map thKey (live_threads (one_booted store sink (one_clients api en) ())))"
    by (rule conjunct1 [OF scheduler_one_worker [OF one_resolve one_reach]])
qed

text \<open>C15. A worker whose instance stays in the desired set is never stopped or replaced: from any
  reachable state, along any interleaving in which every successful refresh still wants its key
  and the context of the process is live, its goroutine keeps its context, stays on its way to
  Run or in it, and remains the one registered for the key.\<close>

theorem scheduler_keeps_desired:
  assumes "distinct (map specKey (sdInstances sd))" "sched_reach sd cl st"
    and "tails i k st"
    and "(wanted_step sd cl k)\<^sup>*\<^sup>* st st'" "\<not> scDone st'"
  shows "tails i k st' \<and> scRunning st' k = Some i"
proof -
  have t: "tails i k st'" using tails_steps [OF assms(4,5,3)] .
  have "sched_inv sd st'" using sched_reach_inv [OF sched_reach_steps [OF assms(4,2)] assms(1)] .
  then show ?thesis
    using t unfolding sched_inv_def registered_def by (auto simp: tails_def slots_nth)
qed

theorem scheduler_keeps_desired_witness:
  "\<forall>(store :: unit state_store) sink api en.
     scRunning (one_booted store sink (one_clients api en) ()) (specKey one_spec) = Some 0"
proof (intro allI)
  fix store :: "unit state_store" and sink api en
  show "scRunning (one_booted store sink (one_clients api en) ()) (specKey one_spec) = Some 0"
    using scheduler_keeps_desired [OF _ one_reach one_tails rtranclp.rtrancl_refl, of store sink api en "()"]
    by (simp add: one_sched_def one_booted_def Let_def spawn_def sched_init_def)
qed



end
