(* ===== verification/App.thy ===== *)
theory App
  imports Scheduler Sim
begin

text \<open>
  internal/app/app.go, Run: the store, the sinks, the instances and the scheduler of a process,
  built in this order and closed in the reverse one; the sweeps of old checkpoints; and the
  watcher of internal/metrics/dlqwatch.go.  The collectors and the metrics server are in Metrics.
\<close>

section \<open>Start\<close>

text \<open>An opened store and the interfaces it offers beside StateStore.\<close>

record 'w opened =
  opStore :: "'w state_store"
  opDlq :: "'w dlq option"
  opGc :: "(time \<Rightarrow> bool \<Rightarrow> 'w \<Rightarrow> (go_err + int) \<times> 'w) option"
  opClose :: "'w \<Rightarrow> 'w"

record 'w started =
  saOpened :: "'w opened"
  saSinks :: "'w sink list"
  saScheduler :: "'w scheduler"
  saResolver :: spec_resolver

text \<open>One sink is used as it is, several behind a fan-out; None is the panic on no sink.\<close>

definition out_sink :: "'w sink list \<Rightarrow> 'w sink option" where
  "out_sink sinks =
     (case sinks of [s] \<Rightarrow> Some s | _ \<Rightarrow> map_option fanout_sink (NewFanout sinks))"

text \<open>What the deferred calls close: the sinks, if they were built, then the store.\<close>

definition shut :: "'w opened \<Rightarrow> 'w sink list \<Rightarrow> 'w \<Rightarrow> 'w" where
  "shut op sinks w = opClose op (close_all sinks w)"

text \<open>Run up to the start of the scheduler: None when it panics or a listing never ends.\<close>

definition app_start ::
    "'w opened registry \<Rightarrow> 'w outside \<Rightarrow> 'w env \<Rightarrow> 'w probe \<Rightarrow> 'w aws \<Rightarrow> config \<Rightarrow> 'w
       \<Rightarrow> ((go_err + 'w started) \<times> 'w) option" where
  "app_start reg os en probe aws cfg w =
     (case state_Open reg (cfState cfg) of
        Inl e \<Rightarrow> Some (Inl (Wrapped ''open state store'' e), w)
      | Inr op \<Rightarrow>
          (case BuildAll os en cfg (opDlq op) (Some probe) w of
             (Inl e, w1) \<Rightarrow> Some (Inl (Wrapped ''build sinks'' e), shut op [] w1)
           | (Inr sinks, w1) \<Rightarrow>
               (case out_sink sinks of
                  None \<Rightarrow> None
                | Some out \<Rightarrow>
                    (case Resolve aws cfg newSpecResolver w1 of
                       None \<Rightarrow> None
                     | Some (Inl e, r, w2) \<Rightarrow>
                         Some (Inl (Wrapped ''build instances'' e), shut op sinks w2)
                     | Some (Inr insts, r, w2) \<Rightarrow>
                         (case NewScheduler \<lparr>spConfig = Some cfg, spInstances = insts,
                                 spRefresh = refresh_interval cfg > 0,
                                 spRefreshInterval = refresh_interval cfg,
                                 spStore = Some (opStore op), spSink = Some out\<rparr> of
                            Inl e \<Rightarrow> Some (Inl (Wrapped ''new scheduler'' e), shut op sinks w2)
                          | Inr sd \<Rightarrow>
                              Some (Inr \<lparr>saOpened = op, saSinks = sinks, saScheduler = sd,
                                         saResolver = r\<rparr>, w2))))))"

text \<open>The end of Run, from the result of the scheduler and the error of the context.\<close>

definition app_end :: "'w started \<Rightarrow> go_err option \<Rightarrow> go_err option \<Rightarrow> 'w \<Rightarrow> go_err option \<times> 'w" where
  "app_end sa schedErr ctxErr w =
     ((case schedErr of
         Some e \<Rightarrow> Some (Wrapped ''scheduler'' e)
       | None \<Rightarrow>
           (case ctxErr of
              None \<Rightarrow> None
            | Some e \<Rightarrow> if err_is e Canceled then None else Some (Wrapped ''runtime'' e))),
      shut (saOpened sa) (saSinks sa) w)"

section \<open>The sweeps and the watcher\<close>

text \<open>The sweep of a store, if it collects and a retention is set.\<close>

definition sweeper :: "'w opened \<Rightarrow> runtime \<Rightarrow> (time \<Rightarrow> 'w \<Rightarrow> 'w) option" where
  "sweeper op rt =
     (case opGc op of
        None \<Rightarrow> None
      | Some gc \<Rightarrow>
          if rtCheckpointRetention rt > 0
          then Some (\<lambda>now w. snd (gc (now - rtCheckpointRetention rt) False w)) else None)"

text \<open>The sweeps of a run: one at once, then one per tick until the context ends.\<close>

definition sweeps :: "(time \<Rightarrow> 'w \<Rightarrow> 'w) \<Rightarrow> time \<Rightarrow> time list \<Rightarrow> 'w \<Rightarrow> 'w" where
  "sweeps sweep now ticks w = foldl (\<lambda>v t. sweep t v) (sweep now w) ticks"

text \<open>WatchDLQDepth: the gauge by sink; a failed count leaves the last value.\<close>

fun depth_update ::
    "(string \<Rightarrow> 'w \<Rightarrow> (go_err + int) \<times> 'w) \<Rightarrow> string list \<Rightarrow> (string \<Rightarrow> int option) \<Rightarrow> 'w
       \<Rightarrow> (string \<Rightarrow> int option) \<times> 'w" where
  "depth_update cnt [] g w = (g, w)"
| "depth_update cnt (n # ns) g w =
     (case cnt n w of
        (Inl e, w1) \<Rightarrow> depth_update cnt ns g w1
      | (Inr k, w1) \<Rightarrow> depth_update cnt ns (g(n \<mapsto> k)) w1)"

fun watch_depth ::
    "(string \<Rightarrow> 'w \<Rightarrow> (go_err + int) \<times> 'w) \<Rightarrow> string list \<Rightarrow> nat \<Rightarrow> (string \<Rightarrow> int option) \<Rightarrow> 'w
       \<Rightarrow> (string \<Rightarrow> int option) \<times> 'w" where
  "watch_depth cnt ns 0 g w = depth_update cnt ns g w"
| "watch_depth cnt ns (Suc ticks) g w =
     (case depth_update cnt ns g w of (g1, w1) \<Rightarrow> watch_depth cnt ns ticks g1 w1)"

definition WatchDLQDepth ::
    "(string \<Rightarrow> 'w \<Rightarrow> (go_err + int) \<times> 'w) option \<Rightarrow> string list \<Rightarrow> nat \<Rightarrow> (string \<Rightarrow> int option) \<Rightarrow> 'w
       \<Rightarrow> (string \<Rightarrow> int option) \<times> 'w" where
  "WatchDLQDepth cnt ns ticks g w =
     (case cnt of
        None \<Rightarrow> (g, w)
      | Some f \<Rightarrow> if ns = [] then (g, w) else watch_depth f ns ticks g w)"

text \<open>Run starts the watcher over the configured names when the store has a queue.\<close>

definition depth_watch ::
    "'w opened \<Rightarrow> config \<Rightarrow> nat \<Rightarrow> (string \<Rightarrow> int option) \<Rightarrow> 'w \<Rightarrow> (string \<Rightarrow> int option) \<times> 'w" where
  "depth_watch op cfg ticks g w =
     (if cfMetricsEnabled cfg
      then WatchDLQDepth (map_option dlqCount (opDlq op)) (map csName (cfSinks cfg)) ticks g w
      else (g, w))"

section \<open>What BuildAll builds\<close>

lemma buildOne_name: "buildOne os c = Inr b \<Longrightarrow> skName b = csName c"
  by (auto simp: buildOne_def Let_def s3_New_def http_New_def kafka_New_def stdout_New_def s3_as_sink_def
      http_as_sink_def kafka_as_sink_def stdout_as_sink_def split: if_splits option.splits sum.splits)

lemma decorate_name: "skName (decorate en q probe c b) = skName b"
  by (simp add: decorate_def WithMetrics_def WithRetry_def WithDLQ_def WithFilter_def keep_sink_def Let_def
      split: option.splits)

lemma build_from_sinks:
  "build_from os en q probe out cs w = (Inr sinks, w') \<Longrightarrow>
     \<exists>bs. list_all2 (\<lambda>c b. buildOne os c = Inr b) cs bs
       \<and> sinks = out @ map2 (decorate en q probe) cs bs \<and> w' = w"
proof (induction cs arbitrary: out)
  case (Cons c cs)
  then obtain b where b: "buildOne os c = Inr b" by (cases "buildOne os c") auto
  then obtain bs where "list_all2 (\<lambda>c b. buildOne os c = Inr b) cs bs"
      "sinks = (out @ [decorate en q probe c b]) @ map2 (decorate en q probe) cs bs" "w' = w"
    using Cons.IH [of "out @ [decorate en q probe c b]"] Cons.prems by auto
  then show ?case using b by (intro exI [of _ "b # bs"]) simp
qed simp

lemma build_from_total:
  "list_all2 (\<lambda>c b. buildOne os c = Inr b) cs bs \<Longrightarrow>
     build_from os en q probe out cs w = (Inr (out @ map2 (decorate en q probe) cs bs), w)"
  by (induction cs bs arbitrary: out rule: list_all2_induct) simp_all

text \<open>The parts of a process that started.\<close>

lemma app_start_parts:
  assumes "app_start reg os en probe aws cfg w = Some (Inr sa, w')" "opDlq (saOpened sa) = q"
  obtains bs out where "list_all2 (\<lambda>c b. buildOne os c = Inr b) (cfSinks cfg) bs"
    "saSinks sa = map2 (decorate en q (Some probe)) (cfSinks cfg) bs"
    "out_sink (saSinks sa) = Some out" "sdSink (saScheduler sa) = out"
    "sdStore (saScheduler sa) = opStore (saOpened sa)" "sdCfg (saScheduler sa) = cfg"
proof -
  obtain sinks out w1 where b: "BuildAll os en cfg q (Some probe) w = (Inr sinks, w1)" "saSinks sa = sinks"
      "out_sink sinks = Some out" "sdSink (saScheduler sa) = out"
      "sdStore (saScheduler sa) = opStore (saOpened sa)" "sdCfg (saScheduler sa) = cfg"
    using assms by (auto simp: app_start_def NewScheduler_def split: sum.splits prod.splits option.splits)
  then show ?thesis
    using that build_from_sinks [of os en q "Some probe" "[]" "cfSinks cfg" w sinks w1]
    by (auto simp: BuildAll_def)
qed

section \<open>One queue behind many sinks\<close>

lemma dlq_Write_keeps:
  assumes "write_keeps s obs" "\<And>n b p r w x w'. dlqPut q n b p r w = (x, w') \<Longrightarrow> obs w' = obs w"
  shows "write_keeps (WithDLQ en s (Some q)) obs"
proof -
  have "obs w' = obs w" if "dlq_Write en s q rs w = (r, w')" for rs w r w'
    using that write_keepsD [OF assms(1)] assms(2)
    by (auto simp: dlq_Write_def split: prod.splits option.splits if_splits)
  then show ?thesis
    by (simp add: write_keeps_def WithDLQ_def) (metis prod.collapse)
qed

text \<open>What the innermost decorator leaves alone, the whole stack does.\<close>

lemma stack_keeps:
  assumes "write_keeps (WithMetrics en b m) obs" "sleep_keeps en obs"
    and put: "\<And>d n b p r w x w'. q = Some d \<Longrightarrow> dlqPut d n b p r w = (x, w') \<Longrightarrow> obs w' = obs w"
  shows "write_keeps (decorate en q m c b) obs"
proof -
  have r: "write_keeps (WithRetry en (WithMetrics en b m) (retry_of (csRetry c))) obs"
    using assms(1,2) by (rule retry_keeps)
  have "write_keeps (WithDLQ en (WithRetry en (WithMetrics en b m) (retry_of (csRetry c))) q) obs"
  proof (cases q)
    case None
    then show ?thesis using r by (simp add: WithDLQ_def)
  next
    case (Some d)
    show ?thesis unfolding Some by (rule dlq_Write_keeps [OF r]) (use put Some in blast)
  qed
  then show ?thesis
    by (auto simp: decorate_def Let_def WithFilter_def keep_sink_def keep_Write_def write_keeps_def
        split: option.splits)
qed

lemma decorate_keeps:
  assumes "write_keeps b obs" "sleep_keeps en obs" "probe_keeps m obs"
    and "\<And>n b p r w x w'. dlqPut q n b p r w = (x, w') \<Longrightarrow> obs w' = obs w"
  shows "write_keeps (decorate en (Some q) (Some m) c b) obs"
  using assms by (intro stack_keeps metrics_keeps) auto

lemma fanout_each_keeps:
  "\<forall>s \<in> set ss. write_keeps s obs \<Longrightarrow> fanout_each (\<lambda>s. skWrite s rs) ss w = (errs, w') \<Longrightarrow> obs w' = obs w"
proof (induction ss arbitrary: w errs)
  case (Cons s ss)
  obtain r w1 where w1: "skWrite s rs w = (r, w1)" by (cases "skWrite s rs w")
  obtain es w2 where w2: "fanout_each (\<lambda>s. skWrite s rs) ss w1 = (es, w2)"
    by (cases "fanout_each (\<lambda>s. skWrite s rs) ss w1")
  have "write_keeps s obs" using Cons.prems(1) by simp
  then have "obs w1 = obs w" using w1 by (rule write_keepsD)
  moreover have e: "w' = w2" using Cons.prems(2) w1 w2 by simp
  moreover have "obs w' = obs w1" using Cons.IH [of w1 es] w2 Cons.prems(1) e by simp
  ultimately show ?case by simp
qed simp

text \<open>The sinks of a process as triples: configuration, bare sink, what it has accepted.\<close>

definition stacks ::
    "'w dlq \<Rightarrow> ('w \<Rightarrow> dlq_item list) \<Rightarrow> ('w \<Rightarrow> bool) \<Rightarrow> 'w env \<Rightarrow> 'w probe
       \<Rightarrow> (sink_cfg \<times> 'w sink \<times> ('w \<Rightarrow> logrecord list)) list \<Rightarrow> bool" where
  "stacks q parked valid en m xs =
     ((\<forall>(c, b, a) \<in> set xs. delivery q parked valid b a en (Some m))
      \<and> sorted_wrt (\<lambda>(_, b, a) (_, b', a'). write_keeps b a' \<and> write_keeps b' a) xs)"

definition settled ::
    "('w \<Rightarrow> dlq_item list) \<Rightarrow> 'w env \<Rightarrow> logrecord list \<Rightarrow> 'w \<Rightarrow> 'w
       \<Rightarrow> sink_cfg \<times> 'w sink \<times> ('w \<Rightarrow> logrecord list) \<Rightarrow> bool" where
  "settled parked en rs w w' x =
     (case x of (c, b, a) \<Rightarrow>
        let kept = filter (cfg_keep c) rs in
        a w' = a w @ kept
        \<or> (a w' = a w \<and> (\<exists>it \<in> set (drop (length (parked w)) (parked w')). diSinkName it = skName b
              \<and> diBatchID it = lrBatchID (hd kept) \<and> enMarshal en kept = Some (diPayload it))))"

lemma settled_later:
  assumes "settled parked en rs w v (c, b, a)" "a w' = a v"
    and "prefix (parked v) (parked w')" "prefix (parked w) (parked v)"
  shows "settled parked en rs w w' (c, b, a)"
proof -
  obtain t u where "parked v = parked w @ t" "parked w' = (parked w @ t) @ u"
    using assms(3,4) by (auto simp: prefix_def)
  then show ?thesis using assms(1,2) by (auto simp: settled_def Let_def)
qed

lemma settled_earlier:
  assumes "settled parked en rs v w' (c, b, a)" "a v = a w" "prefix (parked w) (parked v)"
    and "prefix (parked v) (parked w')"
  shows "settled parked en rs w w' (c, b, a)"
proof -
  obtain t u where "parked v = parked w @ t" "parked w' = (parked w @ t) @ u"
    using assms(3,4) by (auto simp: prefix_def)
  then show ?thesis using assms(1,2) by (auto simp: settled_def Let_def)
qed

lemma stack_settles:
  assumes d: "delivery q parked valid b a en (Some m)" and "valid w"
    and "skWrite (decorate en (Some q) (Some m) c b) rs w = (None, w')"
  shows "settled parked en rs w w' (c, b, a) \<and> valid w' \<and> prefix (parked w) (parked w')"
  using delivery.stack_delivers [OF assms(1,2,3)]
  by (auto simp: settled_def delivered_or_parked_def Let_def)

lemma fanout_settles:
  "stacks q parked valid en m xs \<Longrightarrow> valid w \<Longrightarrow>
     fanout_each (\<lambda>s. skWrite s rs) (map (\<lambda>(c, b, a). decorate en (Some q) (Some m) c b) xs) w = ([], w') \<Longrightarrow>
     (\<forall>x \<in> set xs. settled parked en rs w w' x) \<and> valid w' \<and> prefix (parked w) (parked w')"
proof (induction xs arbitrary: w)
  case (Cons x xs)
  obtain c b a where x: "x = (c, b, a)" by (cases x)
  let ?ss = "map (\<lambda>(c, b, a). decorate en (Some q) (Some m) c b) xs"
  obtain r w1 where w1: "skWrite (decorate en (Some q) (Some m) c b) rs w = (r, w1)"
    by (cases "skWrite (decorate en (Some q) (Some m) c b) rs w")
  obtain es w2 where w2: "fanout_each (\<lambda>s. skWrite s rs) ?ss w1 = (es, w2)"
    by (cases "fanout_each (\<lambda>s. skWrite s rs) ?ss w1")
  have r: "r = None" "es = []" "w2 = w'" using Cons.prems(3) w1 w2 x by (auto split: option.splits)
  have d: "delivery q parked valid b a en (Some m)" and tl: "stacks q parked valid en m xs"
    using Cons.prems(1) by (auto simp: stacks_def x)
  note h = stack_settles [OF d Cons.prems(2) w1 [unfolded r]]
  note t = Cons.IH [OF tl _ w2 [unfolded r], OF conjunct1 [OF conjunct2 [OF h]]]
  have keep: "write_keeps (decorate en (Some q) (Some m) c' b') a'"
    if "delivery q parked valid b' a'' en (Some m)" "write_keeps b' a'" "delivery q parked valid b'' a' en (Some m)"
    for c' b' a'' a' b''
    using that by (intro decorate_keeps)
      (auto intro: delivery.sleep_acc delivery.probe_acc delivery.put_acc)
  have others: "a' w1 = a' w" if "(c', b', a') \<in> set xs" for c' b' a'
  proof -
    have "write_keeps b a'" "delivery q parked valid b' a' en (Some m)"
      using Cons.prems(1) that by (auto simp: stacks_def x)
    then show ?thesis using keep [OF d] write_keepsD [OF _ w1] by blast
  qed
  have own: "a w' = a w1"
  proof (rule fanout_each_keeps [OF _ w2 [unfolded r]])
    show "\<forall>s \<in> set ?ss. write_keeps s a"
      using Cons.prems(1) keep d by (fastforce simp: stacks_def x)
  qed
  have "settled parked en rs w w' x"
    unfolding x by (rule settled_later [where v = w1]) (use h t own in auto)
  moreover have "settled parked en rs w w' y" if y: "y \<in> set xs" for y
  proof -
    obtain c' b' a' where y': "y = (c', b', a')" by (cases y)
    show ?thesis unfolding y'
      by (rule settled_earlier [where v = w1]) (use h t y y' others [of c' b' a'] in auto)
  qed
  moreover have "prefix (parked w) (parked w')" using h t prefix_order.trans by blast
  ultimately show ?case using t by simp
qed simp

lemma out_sink_some: "ss \<noteq> [] \<Longrightarrow> \<exists>out. out_sink ss = Some out"
  by (auto simp: out_sink_def NewFanout_def split: list.split)

lemma out_sink_Write:
  assumes "out_sink ss = Some out" "skWrite out rs w = (None, w')"
  shows "fanout_each (\<lambda>s. skWrite s rs) ss w = ([], w')"
proof (cases "\<exists>s. ss = [s]")
  case True
  then show ?thesis using assms by (auto simp: out_sink_def)
next
  case False
  then have "out = fanout_sink \<lparr>foSinks = ss\<rparr>"
    using assms(1) by (auto simp: out_sink_def NewFanout_def split: list.splits if_splits)
  then have "fanout_Write \<lparr>foSinks = ss\<rparr> rs w = (None, w')"
    using assms(2) by (simp add: fanout_sink_def)
  then show ?thesis using fanout_Write_None by fastforce
qed

section \<open>Properties\<close>

lemma list_all2_functional:
  "list_all2 (\<lambda>c b. f c = Inr b) cs bs \<Longrightarrow> list_all2 (\<lambda>c b. f c = Inr b) cs bs' \<Longrightarrow> bs' = bs"
proof (rule nth_equalityI)
  assume a: "list_all2 (\<lambda>c b. f c = Inr b) cs bs" "list_all2 (\<lambda>c b. f c = Inr b) cs bs'"
  then show "length bs' = length bs" by (simp add: list_all2_conv_all_nth)
  show "bs' ! i = bs ! i" if "i < length bs'" for i
    using a that by (simp add: list_all2_conv_all_nth)
qed


text \<open>A process whose only sink is a webhook that refuses every batch.\<close>

definition hook_cfg :: sink_cfg where
  "hook_cfg = \<lparr>csName = ''hook'', csType = ''http'',
     csRetry = \<lparr>rpMaxAttempts = 1, rpInitialWait = second, rpMaxWait = minute, rpMultiplier = 2\<rparr>,
     csFilter = None, csS3 = None, csKafka = None,
     csHTTP = Some \<lparr>htURL = ''http://h'', htHeaders = [], htGZIP = False, htTimeout = 0\<rparr>, csStdout = None\<rparr>"

definition hook_app :: config where
  "hook_app = one_cfg\<lparr>cfSinks := [hook_cfg]\<rparr>"

definition hook_os :: "sim outside" where
  "hook_os = \<lparr>osAwsConfig = (\<lambda>_ _ _. None), osPut = (\<lambda>_ w. (None, w)), osClock = (\<lambda>_. unix_epoch),
     osJSON = (\<lambda>_. Inr []), osJSON1 = (\<lambda>_. Inr []), osGzip = id,
     osNewReq = (\<lambda>_. None), osDo = (\<lambda>_ w. (Inr 503, w)), osProduce = (\<lambda>_ w. ([], w)),
     osNewClient = (\<lambda>_. None), osOut = (\<lambda>_ w. (None, w)), osBuf = (\<lambda>_ _. []), osSetBuf = (\<lambda>_ _ w. w)\<rparr>"

definition sim_opened :: "sim opened" where
  "sim_opened = \<lparr>opStore = sim_store, opDlq = Some sim_dlq, opGc = None, opClose = id\<rparr>"

definition sim_registry :: "sim opened registry" where
  "sim_registry = Register ''sqlite'' (\<lambda>_. Inr sim_opened) []"

definition hook_sink :: "sim sink" where
  "hook_sink = http_as_sink hook_os \<lparr>hsName = ''hook'', hsURL = ''http://h'', hsHdr = [], hsGzip = False,
     hsTimeout = 30 * second\<rparr>"

lemma hook_built: "buildOne hook_os hook_cfg = Inr hook_sink"
  by (simp add: buildOne_def hook_cfg_def http_New_def hook_sink_def Let_def)

lemma hook_refuses: "skWrite hook_sink rs w = (r, w') \<Longrightarrow> w' = w \<and> (r = None \<longrightarrow> rs = [])"
  by (auto simp: hook_sink_def http_as_sink_def http_Write_def hook_os_def Let_def http_status_def
      split: if_splits)

lemma hook_same: "snd (skWrite hook_sink rs w) = w"
  using hook_refuses prod.collapse by metis

lemma hook_started:
  "\<exists>sa w'. app_start sim_registry hook_os sim_env m (one_aws d) hook_app w = Some (Inr sa, w')
     \<and> opDlq (saOpened sa) = Some sim_dlq
     \<and> sdSink (saScheduler sa) = decorate sim_env (Some sim_dlq) (Some m) hook_cfg hook_sink"
proof -
  have r: "Resolve (one_aws d) hook_app newSpecResolver w =
     Some (Inr [one_spec], newSpecResolver\<lparr>srClients := [(''us-east-1'', [])]\<rparr>, w)"
    by (simp add: Resolve_def hook_app_def one_cfg_def defaults_def shard_Parse_def trim_space_def one_source_def
      resolve_source_def resolver_client_def newSpecResolver_def one_aws_def detect_engines_def
      discover_specs_def add_spec_def source_spec_def Let_def shard_Owns_def shard_All_def one_spec_def
      resolve_cap_def maxInstances_def)
  have b: "BuildAll hook_os sim_env hook_app (Some sim_dlq) (Some m) w
      = (Inr [decorate sim_env (Some sim_dlq) (Some m) hook_cfg hook_sink], w)"
    by (simp add: BuildAll_def hook_app_def hook_built)
  have o': "state_Open sim_registry (cfState hook_app) = Inr sim_opened"
    by (simp add: state_Open_def sim_registry_def Register_def hook_app_def one_cfg_def defaults_def)
  have d: "opDlq sim_opened = Some sim_dlq" by (simp add: sim_opened_def)
  show ?thesis
    unfolding app_start_def o' sum.case d b prod.case out_sink_def list.case option.case r
    by (simp add: NewScheduler_def d)
qed


lemma hook_write:
  "\<exists>m. \<forall>w. skWrite hook_sink [rec_a] w = (Some (ErrMsg m), w)"
  by (simp add: hook_sink_def http_as_sink_def http_Write_def hook_os_def Let_def http_status_def)

lemma hook_contract: "sink_contract (skWrite hook_sink) (\<lambda>w. [])"
  by (rule sink_contract.intro) (use hook_refuses in auto)

lemma hook_delivery:
  "delivery sim_dlq (\<lambda>w. dbDLQ (smDb w)) (\<lambda>w. dlq_wf (smDb w)) hook_sink
     (\<lambda>w. []) sim_env (Some sim_probe)"
  by (intro delivery.intro simdel.dead_letters_axioms delivery_axioms.intro hook_contract)
    (auto simp: write_keeps_def probe_keeps_def sleep_keeps_def sim_probe_def sim_env_def hook_same)

definition no_page :: "sim discovery_api" where
  "no_page m w = (Inr ([], []), w)"

lemma hook_parks:
  "\<exists>w'. skWrite (decorate sim_env (Some sim_dlq) (Some sim_probe) hook_cfg hook_sink) [rec_a] (sim_init [])
      = (None, w')"
proof -
  obtain m where m: "\<And>w. skWrite hook_sink [rec_a] w = (Some (ErrMsg m), w)" using hook_write by blast
  have f: "csFilter hook_cfg = None" by (simp add: hook_cfg_def)
  have r: "retry_defaults (retry_of (csRetry hook_cfg)) = retry_of (csRetry hook_cfg)"
    by (simp add: hook_cfg_def retry_of_def retry_defaults_def second_def minute_def)
  show ?thesis
    unfolding decorate_def f Let_def option.case WithDLQ_def WithRetry_def r
    by (simp add: dlq_Write_def retry_Write_def retry_loop.simps WithMetrics_def metrics_Write_def m Let_def
        hook_cfg_def retry_of_def sim_env_def sim_dlq_def on_db_def sqlite_DLQPut_def sql_def sim_init_def
        sim_probe_def err_is_def)
qed


section \<open>What validation promises of the start\<close>

lemma validateSinkShape_builds:
  assumes v: "validateSinkShape p c = []"
    and aws: "\<And>s. csType c = ''s3'' \<Longrightarrow> csS3 c = Some s \<Longrightarrow>
      osAwsConfig os (if s3Region s = [] then ''us-east-1'' else s3Region s) (s3AssumeRole s) (s3ExternalID s) = None"
    and kgo: "\<And>k m. csType c = ''kafka'' \<Longrightarrow> csKafka c = Some k \<Longrightarrow> ClientOpts k = Inr m \<Longrightarrow>
      osNewClient os m = None"
  shows "\<exists>b. buildOne os c = Inr b"
proof -
  consider "csType c = ''s3''" | "csType c = ''kafka''" | "csType c = ''http''" | "csType c = ''stdout''"
    using v by (auto simp: validateSinkShape_def split: if_splits)
  then show ?thesis
  proof cases
    case 1
    then show ?thesis using v aws
      by (auto simp: validateSinkShape_def buildOne_def chk_def Let_def s3_New_def trim_space_def
          split: option.splits if_splits)
  next
    case 2
    then show ?thesis using v kgo
      by (auto simp: validateSinkShape_def buildOne_def chk_def Let_def kafka_New_def ClientOpts_def
          split: option.splits if_splits)
  next
    case 3
    then show ?thesis using v
      by (auto simp: validateSinkShape_def buildOne_def chk_def Let_def http_New_def trim_space_def
          split: option.splits if_splits)
  next
    case 4
    then show ?thesis using v
      by (auto simp: validateSinkShape_def buildOne_def chk_def Let_def stdout_New_def split: option.splits if_splits)
  qed
qed

lemma validate_sinks_shapes:
  "validate_sinks i seen cs = [] \<Longrightarrow> c \<in> set cs \<Longrightarrow> \<exists>p. validateSinkShape p c = []"
  by (induction i seen cs rule: validate_sinks.induct) (auto simp: Let_def)

lemma validate_sinks_names:
  "validate_sinks i seen cs = [] \<Longrightarrow> distinct (map csName cs) \<and> set (map csName cs) \<inter> set seen = {}"
  by (induction i seen cs rule: validate_sinks.induct) (auto simp: Let_def split: if_splits)

lemma buildable_builds:
  assumes "cfSinks cfg \<noteq> []" "distinct (map csName (cfSinks cfg))"
    "\<forall>c \<in> set (cfSinks cfg). \<exists>b. buildOne os c = Inr b"
  shows "\<exists>sinks out. BuildAll os en cfg q probe w = (Inr sinks, w) \<and> map skName sinks = map csName (cfSinks cfg)
    \<and> distinct (map skName sinks) \<and> out_sink sinks = Some out"
proof -
  obtain g where g: "\<forall>c \<in> set (cfSinks cfg). buildOne os c = Inr (g c)" using assms(3) by metis
  let ?bs = "map g (cfSinks cfg)"
  let ?ss = "map2 (decorate en q probe) (cfSinks cfg) ?bs"
  have bs: "list_all2 (\<lambda>c b. buildOne os c = Inr b) (cfSinks cfg) ?bs"
    using g by (simp add: list_all2_conv_all_nth)
  have names: "map skName ?ss = map csName (cfSinks cfg)"
  proof (rule nth_equalityI)
    fix i assume "i < length (map skName ?ss)"
    then have i: "i < length (cfSinks cfg)" by simp
    then have "buildOne os (cfSinks cfg ! i) = Inr (g (cfSinks cfg ! i))" using g by simp
    then show "map skName ?ss ! i = map csName (cfSinks cfg) ! i"
      using i by (simp add: decorate_name buildOne_name)
  qed simp
  have "?ss \<noteq> []" using assms(1) by (cases "cfSinks cfg") auto
  then obtain out where out: "out_sink ?ss = Some out" using out_sink_some by blast
  have "BuildAll os en cfg q probe w = (Inr ?ss, w)"
    using build_from_total [OF bs, of en q probe "[]" w] by (simp add: BuildAll_def)
  then show ?thesis using names out assms(2) by auto
qed

lemma Validate_sinks:
  assumes "Validate cfg = None"
  shows "cfSinks cfg \<noteq> []" "distinct (map csName (cfSinks cfg))"
    "c \<in> set (cfSinks cfg) \<Longrightarrow> \<exists>p. validateSinkShape p c = []"
proof -
  have v: "validate_sinks 0 [] (cfSinks cfg) = []" "cfSinks cfg \<noteq> []"
    using assms by (auto simp: Validate_def validate_all_def Let_def chk_def split: if_splits)
  then show "cfSinks cfg \<noteq> []" "distinct (map csName (cfSinks cfg))"
      "c \<in> set (cfSinks cfg) \<Longrightarrow> \<exists>p. validateSinkShape p c = []"
    using validate_sinks_names [OF v(1)] validate_sinks_shapes [OF v(1)] by auto
qed

text \<open>C23. A configuration that Validate accepts builds: when AWS and Kafka clients can be made, BuildAll
  succeeds without touching the world, with one decorated sink per configured sink, in order, under
  distinct names; the list is not empty, so Run has a sink to write to and does not panic.\<close>

theorem validated_config_builds:
  assumes "Validate cfg = None"
    and "\<And>r a e. osAwsConfig os r a e = None" and "\<And>m. osNewClient os m = None"
  shows "\<exists>sinks out. BuildAll os en cfg q probe w = (Inr sinks, w) \<and> map skName sinks = map csName (cfSinks cfg)
    \<and> distinct (map skName sinks) \<and> out_sink sinks = Some out"
proof (rule buildable_builds)
  show "\<forall>c \<in> set (cfSinks cfg). \<exists>b. buildOne os c = Inr b"
    using Validate_sinks(3) [OF assms(1)] validateSinkShape_builds assms(2,3) by metis
qed (use Validate_sinks [OF assms(1)] in auto)

text \<open>The process of one_cfg with a sink on standard output.\<close>

definition console_cfg :: sink_cfg where
  "console_cfg = hook_cfg\<lparr>csName := ''out'', csType := ''stdout'', csHTTP := None\<rparr>"

definition two_app :: config where
  "two_app = one_cfg\<lparr>cfSinks := [hook_cfg, console_cfg]\<rparr>"

lemma two_app_valid: "Validate two_app = None"
  by (simp add: Validate_def validate_all_def two_app_def one_cfg_def chk_def defaults_def one_source_def
      hook_cfg_def console_cfg_def
      validate_source_def isValidEngine_def validateSinkShape_def validate_runtime_def shard_Parse_def
      trim_space_def second_def is_space_def Let_def shard_All_def StartFromBeginning_def StartFromEnd_def
      has_prefix_def)

theorem validated_config_builds_witness:
  "\<exists>sinks out. BuildAll hook_os sim_env two_app (Some sim_dlq) (Some sim_probe) (sim_init [])
        = (Inr sinks, sim_init [])
      \<and> map skName sinks = [''hook'', ''out''] \<and> out_sink sinks = Some out"
  using validated_config_builds [OF two_app_valid, of hook_os sim_env "Some sim_dlq" "Some sim_probe" "sim_init []"]
  by (auto simp: hook_os_def two_app_def one_cfg_def hook_cfg_def console_cfg_def)

end
