(* ===== verification/Metrics.thy ===== *)
theory Metrics
  imports App
begin

text \<open>
  internal/metrics/metrics.go (the collectors of a process), internal/metrics/server.go (the
  HTTP server that exposes them), and the adapter PromMetrics of internal/sink/metrics.go that
  counts the Writes of a sink.  The Prometheus client is an argument: register adds a
  collector to a registry (None is its panic), emit is one call of Add, Observe or Set on the
  child of a collector with the given label values.
\<close>

section \<open>The collectors\<close>

datatype buckets = ExponentialBuckets nat nat nat | DefBuckets

datatype vec_kind = CounterVec | GaugeVec | HistogramVec buckets

record vec =
  veKind :: vec_kind
  veName :: string
  veHelp :: string
  veLabels :: "string list"

record metrics =
  mxLogsProcessedTotal :: vec
  mxLogsFailedTotal :: vec
  mxIngestionLagSeconds :: vec
  mxAPICallsTotal :: vec
  mxPollIntervalSeconds :: vec
  mxBatchBytes :: vec
  mxSinkWriteDurationSec :: vec
  mxStateStoreOpsTotal :: vec
  mxDLQDepth :: vec
  mxReadAnomaliesTotal :: vec

text \<open>The collectors New builds.\<close>

definition collectors :: metrics where
  "collectors =
     \<lparr>mxLogsProcessedTotal = \<lparr>veKind = CounterVec, veName = ''rdstail_logs_processed_total'',
        veHelp = ''Total log records successfully delivered to a sink.'',
        veLabels = [''instance'', ''engine'', ''log_file'', ''sink_type'']\<rparr>,
      mxLogsFailedTotal = \<lparr>veKind = CounterVec, veName = ''rdstail_logs_failed_total'',
        veHelp = ''Total log records that failed delivery (pre-DLQ).'',
        veLabels = [''instance'', ''sink_type'', ''reason'']\<rparr>,
      mxIngestionLagSeconds = \<lparr>veKind = GaugeVec, veName = ''rdstail_ingestion_lag_seconds'',
        veHelp = ''Seconds between the RDS log file's last_written timestamp and now. Reflects '' @
          ''server-side clock; do not alert.'',
        veLabels = [''instance'', ''log_file'']\<rparr>,
      mxAPICallsTotal = \<lparr>veKind = CounterVec, veName = ''rdstail_api_calls_total'',
        veHelp = ''AWS API calls, labelled by operation and outcome (ok|error|throttled).'',
        veLabels = [''operation'', ''outcome'']\<rparr>,
      mxPollIntervalSeconds = \<lparr>veKind = GaugeVec, veName = ''rdstail_poll_interval_seconds'',
        veHelp = ''Current per-instance poll interval. Rises during idle backoff (adaptive '' @
          ''polling), snaps back to base when data flows.'',
        veLabels = [''instance'']\<rparr>,
      mxBatchBytes = \<lparr>veKind = HistogramVec (ExponentialBuckets 1024 2 14),
        veName = ''rdstail_batch_bytes'',
        veHelp = ''Serialised batch size per sink write (bytes).'', veLabels = [''sink_type'']\<rparr>,
      mxSinkWriteDurationSec = \<lparr>veKind = HistogramVec DefBuckets,
        veName = ''rdstail_sink_write_duration_seconds'',
        veHelp = ''Wall-clock duration of Sink.Write calls.'', veLabels = [''sink_type'']\<rparr>,
      mxStateStoreOpsTotal = \<lparr>veKind = CounterVec, veName = ''rdstail_state_store_ops_total'',
        veHelp = ''State store operations, labelled by op and outcome.'',
        veLabels = [''op'', ''outcome'']\<rparr>,
      mxDLQDepth = \<lparr>veKind = GaugeVec, veName = ''rdstail_dlq_depth'',
        veHelp = ''Dead-lettered batches currently parked, per sink. Nonzero means data is '' @
          ''waiting for `rdstail dlq replay` '' @ em_dash @ '' alert on growth.'', veLabels = [''sink_name'']\<rparr>,
      mxReadAnomaliesTotal = \<lparr>veKind = CounterVec, veName = ''rdstail_read_anomalies_total'',
        veHelp = ''Source-side events that mean log data may be missing or delayed: gap (RDS '' @
          ''purged log hours before they were read), stall (file grows but its marker '' @
          ''does not advance), truncated_line (a single line over RDS's 1 MB response '' @
          ''cap was cut). Alert on any increase.'',
        veLabels = [''instance'', ''kind'']\<rparr>\<rparr>"

text \<open>MustRegister, in the order New lists the collectors.\<close>

definition registered_vecs :: "metrics \<Rightarrow> vec list" where
  "registered_vecs m =
     [mxLogsProcessedTotal m, mxLogsFailedTotal m, mxIngestionLagSeconds m, mxAPICallsTotal m,
      mxPollIntervalSeconds m, mxBatchBytes m, mxSinkWriteDurationSec m, mxStateStoreOpsTotal m,
      mxDLQDepth m, mxReadAnomaliesTotal m]"

fun MustRegister :: "(vec \<Rightarrow> 'r \<Rightarrow> 'r option) \<Rightarrow> vec list \<Rightarrow> 'r \<Rightarrow> 'r option" where
  "MustRegister register [] r = Some r"
| "MustRegister register (v # vs) r =
     (case register v r of None \<Rightarrow> None | Some r1 \<Rightarrow> MustRegister register vs r1)"

definition metrics_New :: "(vec \<Rightarrow> 'r \<Rightarrow> 'r option) \<Rightarrow> 'r \<Rightarrow> (metrics \<times> 'r) option" where
  "metrics_New register r =
     (case MustRegister register (registered_vecs collectors) r of
        None \<Rightarrow> None | Some r1 \<Rightarrow> Some (collectors, r1))"

section \<open>Counting the Writes of a sink\<close>

datatype sample_op = Add nat | Observe rat | SetTo rat

type_synonym sample = "vec \<times> string list \<times> sample_op"

record prom_metrics =
  pmLogsProcessedTotal :: vec
  pmLogsFailedTotal :: vec
  pmBatchBytes :: vec
  pmSinkWriteDurationSec :: vec

definition prom_ObserveWrite :: "prom_metrics option \<Rightarrow> string \<Rightarrow> duration \<Rightarrow> nat \<Rightarrow> sample list" where
  "prom_ObserveWrite p sinkType d n =
     (case p of None \<Rightarrow> []
      | Some m \<Rightarrow> [(pmSinkWriteDurationSec m, [sinkType], Observe (of_int d / of_int second)),
                   (pmBatchBytes m, [sinkType], Observe (of_nat n))])"

definition prom_IncProcessed ::
    "prom_metrics option \<Rightarrow> string \<Rightarrow> string \<Rightarrow> string \<Rightarrow> string \<Rightarrow> nat \<Rightarrow> sample list" where
  "prom_IncProcessed p inst engine logFile sinkType n =
     (case p of None \<Rightarrow> []
      | Some m \<Rightarrow> [(pmLogsProcessedTotal m, [inst, engine, logFile, sinkType], Add n)])"

definition prom_IncFailed ::
    "prom_metrics option \<Rightarrow> string \<Rightarrow> string \<Rightarrow> string \<Rightarrow> nat \<Rightarrow> sample list" where
  "prom_IncFailed p inst sinkType reason n =
     (case p of None \<Rightarrow> []
      | Some m \<Rightarrow> [(pmLogsFailedTotal m, [inst, sinkType, reason], Add n)])"

definition prom_probe :: "(sample \<Rightarrow> 'w \<Rightarrow> 'w) \<Rightarrow> prom_metrics option \<Rightarrow> 'w probe" where
  "prom_probe emit p =
     \<lparr>mpObserveWrite = (\<lambda>t d n. fold emit (prom_ObserveWrite p t d n)),
      mpIncProcessed = (\<lambda>i e f t n. fold emit (prom_IncProcessed p i e f t n)),
      mpIncFailed = (\<lambda>i t r n. fold emit (prom_IncFailed p i t r n))\<rparr>"

text \<open>The probe Run hands to its sinks.\<close>

definition app_prom :: "metrics \<Rightarrow> prom_metrics" where
  "app_prom mx = \<lparr>pmLogsProcessedTotal = mxLogsProcessedTotal mx, pmLogsFailedTotal = mxLogsFailedTotal mx,
     pmBatchBytes = mxBatchBytes mx, pmSinkWriteDurationSec = mxSinkWriteDurationSec mx\<rparr>"

section \<open>The HTTP server\<close>

record server =
  svAddr :: string
  svReady :: bool

definition NewServer :: "string \<Rightarrow> server" where
  "NewServer addr = \<lparr>svAddr = addr, svReady = False\<rparr>"

definition MarkReady :: "server \<Rightarrow> server" where
  "MarkReady s = s\<lparr>svReady := True\<rparr>"

text \<open>Status and body by path; expo is what the Prometheus handler answers.\<close>

definition server_handle :: "server \<Rightarrow> nat \<times> string \<Rightarrow> string \<Rightarrow> nat \<times> string" where
  "server_handle s expo path =
     (if path = ''/metrics'' then expo
      else if path = ''/healthz'' then (200, ''ok'' @ newline)
      else if path = ''/readyz'' then
        (if svReady s then (200, ''ready'' @ newline) else (503, ''starting'' @ newline))
      else (404, ''404 page not found'' @ newline))"

text \<open>What Run waits for: the end of ListenAndServe, or of the context; Shutdown's error is logged.\<close>

datatype server_event = ListenEnded "go_err option" | ContextDone

definition ErrServerClosed :: go_err where
  "ErrServerClosed = ErrMsg ''http: Server closed''"

definition server_Run :: "server_event \<Rightarrow> go_err option" where
  "server_Run ev =
     (case ev of
        ContextDone \<Rightarrow> None
      | ListenEnded r \<Rightarrow>
          (case r of None \<Rightarrow> None | Some e \<Rightarrow> if err_is e ErrServerClosed then None else Some e))"

text \<open>Run of internal/app/app.go with its collectors and its server.\<close>

definition app_boot ::
    "(vec \<Rightarrow> 'r \<Rightarrow> 'r option) \<Rightarrow> 'r \<Rightarrow> (sample \<Rightarrow> 'w \<Rightarrow> 'w) \<Rightarrow> 'w opened registry \<Rightarrow> 'w outside \<Rightarrow> 'w env
       \<Rightarrow> 'w aws \<Rightarrow> config \<Rightarrow> 'w \<Rightarrow> ((go_err + 'w started) \<times> server option \<times> 'w) option" where
  "app_boot register r emit reg os en aws cfg w =
     (case state_Open reg (cfState cfg) of
        Inl e \<Rightarrow> Some (Inl (Wrapped ''open state store'' e), None, w)
      | Inr _ \<Rightarrow>
         (case metrics_New register r of
            None \<Rightarrow> None
          | Some (mx, _) \<Rightarrow>
              (let srv = (if cfMetricsEnabled cfg then Some (NewServer (cfMetricsListen cfg)) else None) in
               case app_start reg os en (prom_probe emit (Some (app_prom mx))) aws cfg w of
                 None \<Rightarrow> None
               | Some (Inl e, w1) \<Rightarrow> Some (Inl e, srv, w1)
               | Some (Inr sa, w1) \<Rightarrow> Some (Inr sa, map_option MarkReady srv, w1))))"

section \<open>Registration and labels\<close>

lemma collector_names_distinct: "distinct (map veName (registered_vecs collectors))"
  by (simp add: registered_vecs_def collectors_def)

text \<open>A registry that refuses only names it holds takes them all.\<close>

lemma MustRegister_new:
  assumes "\<And>v r. veName v \<notin> taken r \<Longrightarrow> \<exists>r'. register v r = Some r' \<and> taken r' = insert (veName v) (taken r)"
  shows "distinct (map veName vs) \<Longrightarrow> veName ` set vs \<inter> taken r = {} \<Longrightarrow>
    \<exists>r'. MustRegister register vs r = Some r' \<and> taken r' = veName ` set vs \<union> taken r"
proof (induction vs arbitrary: r)
  case (Cons v vs)
  obtain r1 where r1: "register v r = Some r1" "taken r1 = insert (veName v) (taken r)"
    using assms [of v r] Cons.prems(2) by auto
  have "veName ` set vs \<inter> taken r1 = {}" using Cons.prems r1(2) by auto
  then obtain r2 where "MustRegister register vs r1 = Some r2" "taken r2 = veName ` set vs \<union> taken r1"
    using Cons.IH [of r1] Cons.prems(1) by auto
  then show ?case using r1 by auto
qed simp

text \<open>WithLabelValues panics unless there is one value per label.\<close>

definition well_labelled :: "sample \<Rightarrow> bool" where
  "well_labelled s = (length (fst (snd s)) = length (veLabels (fst s)))"

lemma prom_well_labelled:
  "list_all well_labelled (prom_ObserveWrite (Some (app_prom collectors)) t d n)"
  "list_all well_labelled (prom_IncProcessed (Some (app_prom collectors)) i e f t n)"
  "list_all well_labelled (prom_IncFailed (Some (app_prom collectors)) i t r n)"
  by (simp_all add: prom_ObserveWrite_def prom_IncProcessed_def prom_IncFailed_def well_labelled_def
      app_prom_def collectors_def)

section \<open>What the counter of processed records says\<close>

text \<open>
  tot is the sum of the series of one counter.  The sinks are pairs: a bare sink and what its
  destination has accepted.
\<close>

definition processed_name :: string where
  "processed_name = veName (mxLogsProcessedTotal collectors)"

locale metering =
  fixes emit :: "sample \<Rightarrow> 'w \<Rightarrow> 'w" and tot :: "'w \<Rightarrow> nat" and en :: "'w env" and q :: "'w dlq option"
    and sinks :: "('w sink \<times> ('w \<Rightarrow> logrecord list)) list"
  assumes emit_tot: "tot (emit (v, ls, op) w) =
        tot w + (case op of Add n \<Rightarrow> if veName v = processed_name then n else 0 | _ \<Rightarrow> 0)"
    and emit_acc: "(b, a) \<in> set sinks \<Longrightarrow> a (emit x w) = a w"
    and contract: "(b, a) \<in> set sinks \<Longrightarrow> sink_contract (skWrite b) a"
    and bare_tot: "(b, a) \<in> set sinks \<Longrightarrow> write_keeps b tot"
    and apart: "i < length sinks \<Longrightarrow> j < length sinks \<Longrightarrow> i \<noteq> j \<Longrightarrow>
        write_keeps (fst (sinks ! i)) (snd (sinks ! j))"
    and sleep_tot: "sleep_keeps en tot" and sleep_acc: "(b, a) \<in> set sinks \<Longrightarrow> sleep_keeps en a"
    and put_tot: "q = Some d \<Longrightarrow> dlqPut d n bt p r w = (e, w') \<Longrightarrow> tot w' = tot w"
    and put_acc: "q = Some d \<Longrightarrow> dlqPut d n bt p r w = (e, w') \<Longrightarrow> (b, a) \<in> set sinks \<Longrightarrow> a w' = a w"
begin

text \<open>The records counted beyond those accepted.\<close>

definition excess :: "'w \<Rightarrow> int" where
  "excess w = int (tot w) - (\<Sum>i < length sinks. int (length (snd (sinks ! i) w)))"

lemma excess_same:
  assumes "tot w' = tot w" "\<And>b a. (b, a) \<in> set sinks \<Longrightarrow> a w' = a w"
  shows "excess w' = excess w"
proof -
  have "snd (sinks ! i) w' = snd (sinks ! i) w" if "i < length sinks" for i
    using assms(2) [of "fst (sinks ! i)" "snd (sinks ! i)"] that by simp
  then show ?thesis using assms(1) by (simp add: excess_def)
qed

lemma excess_sleep: "sleep_keeps en excess"
  unfolding sleep_keeps_def
  by (intro allI excess_same) (use sleep_tot sleep_acc in \<open>auto simp: sleep_keeps_def\<close>)

lemma excess_put: "q = Some d \<Longrightarrow> dlqPut d n bt p r w = (e, w') \<Longrightarrow> excess w' = excess w"
  using put_tot put_acc by (intro excess_same) blast+

lemma fold_emit_acc: "(b, a) \<in> set sinks \<Longrightarrow> a (fold emit xs w) = a w"
  by (induction xs arbitrary: w) (simp_all add: emit_acc)

abbreviation counting :: "'w probe" where
  "counting \<equiv> prom_probe emit (Some (app_prom collectors))"

lemma counting_tot:
  "tot (mpObserveWrite counting t d n w) = tot w" "tot (mpIncFailed counting i t r n w) = tot w"
  "tot (mpIncProcessed counting i e f t n w) = tot w + n"
  by (simp_all add: prom_probe_def prom_ObserveWrite_def prom_IncFailed_def prom_IncProcessed_def app_prom_def
      emit_tot processed_name_def collectors_def)

lemma counting_acc:
  "(b, a) \<in> set sinks \<Longrightarrow> a (mpObserveWrite counting t d n w) = a w"
  "(b, a) \<in> set sinks \<Longrightarrow> a (mpIncFailed counting i t r n w) = a w"
  "(b, a) \<in> set sinks \<Longrightarrow> a (mpIncProcessed counting i e f t n w) = a w"
  by (simp_all add: prom_probe_def fold_emit_acc)

text \<open>One Write of a bare sink behind its counter.\<close>

lemma counted_Write:
  assumes k: "k < length sinks"
  shows "write_keeps (WithMetrics en (fst (sinks ! k)) (Some counting)) excess"
proof -
  let ?b = "fst (sinks ! k)" and ?g = "\<lambda>i w. int (length (snd (sinks ! i) w))"
  have m: "(fst (sinks ! i), snd (sinks ! i)) \<in> set sinks" if "i < length sinks" for i
    using that by simp
  have "excess w' = excess w" if wr: "metrics_Write en ?b counting rs w = (x, w')" for rs w x w'
  proof -
    obtain r w1 where w1: "skWrite ?b rs w = (r, w1)" by (cases "skWrite ?b rs w")
    have x: "x = r" using wr w1 by (auto simp: metrics_Write_def Let_def split: option.splits)
    have t: "tot w1 = tot w" using bare_tot [OF m [OF k]] w1 by (rule write_keepsD)
    have tot: "tot w' = tot w + (if r = None then length rs else 0)"
      using wr w1 t by (auto simp: metrics_Write_def Let_def counting_tot split: option.splits if_splits)
    have acc: "snd (sinks ! i) w' = snd (sinks ! i) w1" if "i < length sinks" for i
      using wr w1 counting_acc [OF m [OF that]]
      by (auto simp: metrics_Write_def Let_def split: option.splits if_splits)
    have own: "?g k w' = ?g k w + (if r = None then int (length rs) else 0)"
      using acc [OF k] sink_contract.ack [OF contract [OF m [OF k]], of rs w w1]
        sink_contract.nack [OF contract [OF m [OF k]], of rs w _ w1] w1 by (cases r) auto
    have others: "?g i w' = ?g i w" if "i < length sinks" "i \<noteq> k" for i
      using acc [OF that(1)] write_keepsD [OF apart [OF k that(1)] w1] that(2) by simp
    have rest: "(\<Sum>i \<in> {..< length sinks} - {k}. ?g i w') = (\<Sum>i \<in> {..< length sinks} - {k}. ?g i w)"
      by (rule sum.cong [OF refl]) (use others in auto)
    have "(\<Sum>i < length sinks. ?g i w') = ?g k w' + (\<Sum>i \<in> {..< length sinks} - {k}. ?g i w')"
      using k by (simp add: sum.remove)
    also have "\<dots> = ?g k w + (if r = None then int (length rs) else 0) + (\<Sum>i \<in> {..< length sinks} - {k}. ?g i w)"
      unfolding own rest ..
    also have "\<dots> = (\<Sum>i < length sinks. ?g i w) + (if r = None then int (length rs) else 0)"
      using k by (simp add: sum.remove)
    finally show ?thesis using tot by (simp add: excess_def)
  qed
  then show ?thesis by (simp add: write_keeps_def WithMetrics_def) (metis prod.collapse)
qed

lemma counted_stack:
  assumes "k < length sinks"
  shows "write_keeps (decorate en q (Some counting) c (fst (sinks ! k))) excess"
  using counted_Write [OF assms] excess_sleep excess_put by (rule stack_keeps)

end

lemma out_sink_keeps:
  assumes "out_sink ss = Some out" "\<forall>s \<in> set ss. write_keeps s obs"
  shows "write_keeps out obs"
proof (cases "\<exists>s. ss = [s]")
  case True
  then show ?thesis using assms by (auto simp: out_sink_def)
next
  case False
  then have "out = fanout_sink \<lparr>foSinks = ss\<rparr>"
    using assms(1) by (auto simp: out_sink_def NewFanout_def split: list.splits if_splits)
  moreover have "obs (snd (fanout_Write \<lparr>foSinks = ss\<rparr> rs w)) = obs w" for rs w
    using fanout_each_keeps [OF assms(2)] by (auto simp: fanout_Write_def split: prod.splits)
  ultimately show ?thesis by (simp add: write_keeps_def fanout_sink_def)
qed

text \<open>What a boot that succeeds has done.\<close>

lemma app_boot_started:
  assumes "app_boot register r emit reg os en aws cfg w = Some (Inr sa, srv, w')"
  shows "app_start reg os en (prom_probe emit (Some (app_prom collectors))) aws cfg w = Some (Inr sa, w')"
    "srv = (if cfMetricsEnabled cfg then Some (MarkReady (NewServer (cfMetricsListen cfg))) else None)"
  using assms by (auto simp: app_boot_def metrics_New_def Let_def split: sum.splits option.splits prod.splits)

text \<open>The process is ready from the moment its scheduler exists, and not before.\<close>

lemma ready_iff_started:
  assumes "app_boot register r emit reg os en aws cfg w = Some (x, Some s, w')"
  shows "fst (server_handle s expo ''/readyz'') = (case x of Inl _ \<Rightarrow> 503 | Inr _ \<Rightarrow> 200)"
  using assms
  by (auto simp: app_boot_def metrics_New_def Let_def server_handle_def NewServer_def MarkReady_def
      split: sum.splits option.splits prod.splits if_splits)

section \<open>Properties\<close>


text \<open>A process whose counter of processed records is a field of the world.\<close>

definition tally :: "sample \<Rightarrow> sim \<Rightarrow> sim" where
  "tally x w = (case x of (v, ls, op) \<Rightarrow>
     (case op of Add n \<Rightarrow> if veName v = processed_name then w\<lparr>smProbe := smProbe w + n\<rparr> else w | _ \<Rightarrow> w))"

interpretation hookmeter: metering tally smProbe sim_env "Some sim_dlq" "[(hook_sink, \<lambda>w. [])]"
proof (rule metering.intro)
  fix v ls op and w :: sim
  show "smProbe (tally (v, ls, op) w)
      = smProbe w + (case op of Add n \<Rightarrow> if veName v = processed_name then n else 0 | _ \<Rightarrow> 0)"
    by (simp add: tally_def split: sample_op.splits)
next
  fix b a
  assume "(b, a) \<in> set [(hook_sink, \<lambda>w :: sim. [] :: logrecord list)]"
  then have "b = hook_sink" "a = (\<lambda>w. [])" by simp_all
  then show "sink_contract (skWrite b) a" "write_keeps b smProbe" "sleep_keeps sim_env a"
    using hook_contract by (simp_all add: write_keeps_def hook_same sleep_keeps_def)
qed (auto simp: sleep_keeps_def sim_env_def sim_dlq_def on_db_def split: prod.splits)


end
