(* ===== verification/Watch.thy ===== *)
theory Watch
  imports Scheduler
begin

text \<open>
  internal/pipeline/scheduler.go, watchRestarts: the loop that polls the RDS events of a client
  and notes restarts with the workers.  Other goroutines run between two ticks, so a run of the
  loop is given the world each tick finds; what it returns is the events passed to lookup and
  NotifyRestart, in order (the step event of the scheduler is what such a note does).
\<close>

definition restartPollInterval :: duration where "restartPollInterval = minute"
definition restartLookback :: duration where "restartLookback = 5 * minute"

type_synonym watch_key = "string \<times> time"

record watch =
  waSeen :: "(watch_key \<times> time) list"
  waSince :: time

definition watch_init :: "time \<Rightarrow> watch" where
  "watch_init now = \<lparr>waSeen = [], waSince = now - restartLookback\<rparr>"

definition watch_key_of :: "restart_event \<Rightarrow> watch_key" where
  "watch_key_of e = (reInstanceID e, reAt e)"

text \<open>The loop over the events of a poll: the events not seen, and the new map.\<close>

fun watch_events ::
    "time \<Rightarrow> restart_event list \<Rightarrow> (watch_key \<times> time) list
       \<Rightarrow> restart_event list \<times> (watch_key \<times> time) list" where
  "watch_events now [] seen = ([], seen)"
| "watch_events now (e # es) seen =
     (if map_of seen (watch_key_of e) \<noteq> None then watch_events now es seen
      else (case watch_events now es ((watch_key_of e, now) # seen) of
              (noted, s) \<Rightarrow> (e # noted, s)))"

definition watch_prune :: "time \<Rightarrow> (watch_key \<times> time) list \<Rightarrow> (watch_key \<times> time) list" where
  "watch_prune now seen = filter (\<lambda>(k, t). \<not> time_sub now t > 2 * restartLookback) seen"

definition denied :: "go_err \<Rightarrow> bool" where
  "denied e = (first_api e \<in> {Some ''AccessDenied'', Some ''AccessDeniedException''})"

text \<open>One tick: None when the listing never ends, Some None when the watcher stops.\<close>

definition watch_round ::
    "'w events_api \<Rightarrow> 'w env \<Rightarrow> watch \<Rightarrow> 'w \<Rightarrow> (restart_event list \<times> watch) option option" where
  "watch_round api en wa w =
     (let now = enNow en w in
      case PollRestartEvents api (waSince wa) now w of
        None \<Rightarrow> None
      | Some (Inl e, w1) \<Rightarrow>
          if enCtx en w1 \<noteq> None \<or> denied e then Some None else Some (Some ([], wa))
      | Some (Inr events, w1) \<Rightarrow>
          (let (noted, seen) = watch_events now events (waSeen wa) in
           Some (Some (noted, \<lparr>waSeen = watch_prune now seen, waSince = now - restartLookback\<rparr>))))"

fun watch_run ::
    "'w events_api \<Rightarrow> 'w env \<Rightarrow> 'w list \<Rightarrow> watch \<Rightarrow> restart_event list option" where
  "watch_run api en [] wa = Some []"
| "watch_run api en (w # ws) wa =
     (if enCtx en w \<noteq> None then Some []
      else (case watch_round api en wa w of
              None \<Rightarrow> None
            | Some None \<Rightarrow> Some []
            | Some (Some (noted, wa1)) \<Rightarrow> map_option ((@) noted) (watch_run api en ws wa1)))"

section \<open>Lemmas\<close>

text \<open>The documented contract of DescribeEvents: events between StartTime and EndTime.\<close>

definition in_window :: "'w events_api \<Rightarrow> bool" where
  "in_window api = (\<forall>since until m w es nx w'.
     api since until m w = (Inr (es, nx), w') \<longrightarrow>
       (\<forall>e \<in> set es. since \<le> evDate e \<and> evDate e \<le> until))"

definition in_span :: "time \<Rightarrow> time \<Rightarrow> restart_event list \<Rightarrow> bool" where
  "in_span since until evs = (\<forall>e \<in> set evs. since \<le> reAt e \<and> reAt e \<le> until)"

lemma events_loop_window:
  assumes "in_window api" "events_loop api since until m out w = Some y" "in_span since until out"
  shows "\<forall>evs. fst y = Inr evs \<longrightarrow> in_span since until evs"
proof -
  have "api = api \<longrightarrow> in_span since until out \<longrightarrow> (\<forall>evs. fst y = Inr evs \<longrightarrow> in_span since until evs)"
  proof (rule events_loop.raw_induct [where P = "\<lambda>a s u m out w y. a = api \<longrightarrow> in_span s u out \<longrightarrow>
        (\<forall>evs. fst y = Inr evs \<longrightarrow> in_span s u evs)", OF _ assms(2)], goal_cases)
    case (1 loop a s u mk out w y)
    obtain r w1 where r: "a s u mk w = (r, w1)" by (cases "a s u mk w")
    show ?case
    proof (cases r)
      case (Inl e)
      then have "y = (Inl e, w1)" using 1(2) r by simp
      then show ?thesis by simp
    next
      case (Inr p)
      obtain es nx where p: "p = (es, nx)" by (cases p)
      show ?thesis
      proof (intro impI)
        assume a: "a = api" and o: "in_span s u out"
        have "\<forall>e \<in> set es. s \<le> evDate e \<and> evDate e \<le> u"
          using assms(1) r Inr p a unfolding in_window_def by blast
        then have o1: "in_span s u (out @ map restart_of (filter IsRestartEvent es))"
          using o by (auto simp: in_span_def restart_of_def)
        show "\<forall>evs. fst y = Inr evs \<longrightarrow> in_span s u evs"
        proof (cases "nx = []")
          case True
          then show ?thesis using 1(2) r Inr p o1 by auto
        next
          case False
          then show ?thesis using 1(1) [OF _] 1(2) r Inr p o1 a by (simp add: Let_def)
        qed
      qed
    qed
  qed
  then show ?thesis using assms(3) by blast
qed

lemma PollRestartEvents_window:
  "in_window api \<Longrightarrow> PollRestartEvents api since until w = Some (Inr evs, w') \<Longrightarrow> in_span since until evs"
  using events_loop_window [of api since until None "[]" w "(Inr evs, w')"]
  by (simp add: PollRestartEvents_def in_span_def)

text \<open>The events a poll passes on are the unseen ones, each once.\<close>

lemma watch_events_spec:
  "watch_events now evs seen = (noted, seen') \<Longrightarrow>
     distinct (map watch_key_of noted) \<and> set noted \<subseteq> set evs
     \<and> (\<forall>e \<in> set noted. watch_key_of e \<notin> fst ` set seen)
     \<and> fst ` set seen' = fst ` set seen \<union> watch_key_of ` set evs
     \<and> seen' = rev (map (\<lambda>e. (watch_key_of e, now)) noted) @ seen
     \<and> watch_key_of ` set evs \<subseteq> watch_key_of ` set noted \<union> fst ` set seen"
proof (induction evs arbitrary: seen noted)
  case (Cons e es)
  show ?case
  proof (cases "map_of seen (watch_key_of e) = None")
    case False
    then have k: "watch_key_of e \<in> fst ` set seen" by (simp add: map_of_eq_None_iff)
    have "watch_events now es seen = (noted, seen')" using Cons.prems False by simp
    note ih = Cons.IH [OF this]
    show ?thesis
      using ih k by (intro conjI) (simp_all only: list.set image_insert, blast+)
  next
    case True
    then obtain ns where ns: "watch_events now es ((watch_key_of e, now) # seen) = (ns, seen')" "noted = e # ns"
      using Cons.prems by (auto split: prod.splits)
    have k: "watch_key_of e \<notin> fst ` set seen" using True by (simp add: map_of_eq_None_iff)
    have f: "fst ` set ((watch_key_of e, now) # seen) = insert (watch_key_of e) (fst ` set seen)" by simp
    note ih = Cons.IH [OF ns(1), unfolded f]
    have "watch_key_of e \<notin> watch_key_of ` set ns" using ih by (metis imageE insertI1)
    then show ?thesis unfolding ns(2)
      using ih k by (intro conjI) (simp_all only: list.set image_insert list.map distinct.simps
        set_map rev.simps append_assoc append_Cons append_Nil, blast+)
  qed
qed simp

text \<open>
  What the watcher remembers: of the events passed on so far, passed, each is in the map with a
  time no earlier than its own, or is older than any event a later poll can return.
\<close>

definition watch_inv :: "time \<Rightarrow> watch_key set \<Rightarrow> watch \<Rightarrow> bool" where
  "watch_inv now passed wa = (waSince wa \<le> now - restartLookback
     \<and> (\<forall>k \<in> passed. (\<exists>n. (k, n) \<in> set (waSeen wa) \<and> snd k \<le> n) \<or> snd k < waSince wa))"

lemma time_sub_greater: "0 \<le> d \<Longrightarrow> d < time_sub t u \<Longrightarrow> u < t - d"
  by (auto simp: time_sub_def i64_max_def i64_min_def max_def min_def split: if_splits)

lemma watch_prune_kept:
  "(k, n) \<in> set seen \<Longrightarrow> (k, n) \<in> set (watch_prune now seen) \<or> n < now - 2 * restartLookback"
  using time_sub_greater [of "2 * restartLookback" now n]
  by (auto simp: watch_prune_def restartLookback_def minute_def)

lemma watch_round_inv:
  assumes "in_window api" "watch_inv now0 passed wa" "now0 \<le> enNow en w"
    and "watch_round api en wa w = Some (Some (noted, wa'))"
  shows "watch_inv (enNow en w) (passed \<union> watch_key_of ` set noted) wa'
    \<and> distinct (map watch_key_of noted) \<and> watch_key_of ` set noted \<inter> passed = {}"
proof -
  let ?now = "enNow en w"
  obtain r w1 where r: "PollRestartEvents api (waSince wa) ?now w = Some (r, w1)"
    using assms(4) by (auto simp: watch_round_def Let_def split: option.splits)
  show ?thesis
  proof (cases r)
    case (Inl e)
    then have "noted = []" "wa' = wa"
      using assms(4) r by (auto simp: watch_round_def Let_def split: if_splits)
    then show ?thesis using assms(2,3) by (auto simp: watch_inv_def)
  next
    case (Inr evs)
    obtain seen where s: "watch_events ?now evs (waSeen wa) = (noted, seen)"
        "wa' = \<lparr>waSeen = watch_prune ?now seen, waSince = ?now - restartLookback\<rparr>"
      using assms(4) r Inr by (auto simp: watch_round_def Let_def split: prod.splits)
    note sp = watch_events_spec [OF s(1)]
    have win: "in_span (waSince wa) ?now evs" using PollRestartEvents_window [OF assms(1)] r Inr by blast
    have old: "(\<exists>n. (k, n) \<in> set seen \<and> snd k \<le> n) \<or> snd k < waSince wa'"
      if "k \<in> passed \<union> watch_key_of ` set noted" for k
    proof (cases "k \<in> passed")
      case True
      then show ?thesis using assms(2,3) sp s(2) unfolding watch_inv_def by auto
    next
      case False
      then have "k \<in> watch_key_of ` set noted" using that by blast
      then obtain e where e: "k = watch_key_of e" "e \<in> set noted" by (rule imageE)
      then have "snd k \<le> ?now" using win sp by (auto simp: in_span_def watch_key_of_def)
      moreover have "(k, ?now) \<in> set seen" using sp e by auto
      ultimately show ?thesis by blast
    qed
    have "(\<exists>n. (k, n) \<in> set (waSeen wa') \<and> snd k \<le> n) \<or> snd k < waSince wa'"
      if k: "k \<in> passed \<union> watch_key_of ` set noted" for k
      using old [OF k]
    proof (elim disjE exE conjE)
      fix n
      assume n: "(k, n) \<in> set seen" "snd k \<le> n"
      then show ?thesis using watch_prune_kept [OF n(1), of ?now] s(2)
        by (auto simp: restartLookback_def minute_def)
    qed simp
    then have "watch_inv ?now (passed \<union> watch_key_of ` set noted) wa'"
      using s(2) unfolding watch_inv_def by simp
    moreover have "k \<notin> passed" if kn: "k \<in> watch_key_of ` set noted" for k
    proof
      assume "k \<in> passed"
      then have "(\<exists>n. (k, n) \<in> set (waSeen wa)) \<or> snd k < waSince wa"
        using assms(2) unfolding watch_inv_def by blast
      then have "k \<in> fst ` set (waSeen wa) \<or> snd k < waSince wa" by (auto intro: rev_image_eqI)
      moreover obtain e where e: "k = watch_key_of e" "e \<in> set noted" using kn by (rule imageE)
      moreover have "e \<in> set evs" using sp e(2) by (meson subsetD)
      then have "waSince wa \<le> snd k" using win e(1) by (simp add: in_span_def watch_key_of_def)
      moreover have "k \<notin> fst ` set (waSeen wa)" using sp e by simp
      ultimately show False by simp
    qed
    ultimately show ?thesis using conjunct1 [OF sp] by (simp add: disjoint_iff)
  qed
qed

lemma watch_run_distinct:
  "watch_run api en ws wa = Some noted \<Longrightarrow> in_window api \<Longrightarrow> watch_inv now0 passed wa \<Longrightarrow>
     sorted (now0 # map (enNow en) ws) \<Longrightarrow>
     distinct (map watch_key_of noted) \<and> watch_key_of ` set noted \<inter> passed = {}"
proof (induction ws arbitrary: wa noted now0 passed)
  case (Cons w ws)
  show ?case
  proof (cases "enCtx en w = None \<and> watch_round api en wa w \<noteq> Some None")
    case False
    then show ?thesis using Cons.prems(1) by (auto split: if_splits)
  next
    case True
    then obtain ns wa1 rest where r: "watch_round api en wa w = Some (Some (ns, wa1))"
        "watch_run api en ws wa1 = Some rest" "noted = ns @ rest"
      using Cons.prems(1) by (auto split: option.splits)
    note one = watch_round_inv [OF Cons.prems(2,3) _ r(1)]
    have s: "now0 \<le> enNow en w" "sorted (enNow en w # map (enNow en) ws)" using Cons.prems(4) by auto
    have "distinct (map watch_key_of rest)
        \<and> watch_key_of ` set rest \<inter> (passed \<union> watch_key_of ` set ns) = {}"
      using Cons.IH [OF r(2) Cons.prems(2) _ s(2)] one s(1) by blast
    then show ?thesis using one s(1) r(3) by auto
  qed
qed simp

section \<open>Properties\<close>


text \<open>An instance that fails over once, seen by two overlapping polls.\<close>

definition fail_api :: "nat events_api" where
  "fail_api since until m w =
     (Inr (filter (\<lambda>e. since \<le> evDate e \<and> evDate e \<le> until)
        [\<lparr>evSource = ''db'', evDate = 10, evMessage = [], evCategories = [''failover'']\<rparr>], []), w)"

definition fail_env :: "nat env" where
  "fail_env = \<lparr>enCtx = (\<lambda>w. None), enNow = int, enSleep = (\<lambda>d w. (None, w)), enRand = (\<lambda>n w. 0),
     enOverflow = i64_min, enMarshal = (\<lambda>rs. Some [])\<rparr>"


end
