(* ===== verification/IamPolicy.thy ===== *)
theory IamPolicy
  imports SinkTypes Discovery
begin

text \<open>
  internal/iampolicy: the least IAM policy a configuration needs.  A Go map used as a set is a
  list without duplicates in the order of insertion; ranging over one is a fold in that order.
\<close>

section \<open>Documents\<close>

record statement =
  stSid :: string
  stEffect :: string
  stAction :: "string list"
  stResource :: "string list"

record policy =
  plVersion :: string
  plStatement :: "statement list"

definition set_add :: "string \<Rightarrow> string list \<Rightarrow> string list" where
  "set_add x xs = (if x \<in> set xs then xs else xs @ [x])"

definition sorted_keys :: "string list \<Rightarrow> string list" where
  "sorted_keys xs = sort xs"

definition kmsARN :: "string \<Rightarrow> string \<Rightarrow> string" where
  "kmsARN region key =
     (if has_prefix key ''arn:'' then key
      else if has_prefix key ''alias/'' then ''arn:aws:kms:'' @ region @ '':*:'' @ key
      else ''arn:aws:kms:'' @ region @ '':*:key/'' @ key)"

section \<open>Sources\<close>

definition rds_prefix :: "string \<Rightarrow> string" where
  "rds_prefix region = ''arn:aws:rds:'' @ region @ '':''"

definition db_arn :: "string \<Rightarrow> string \<Rightarrow> string" where
  "db_arn region inst = rds_prefix region @ ''*:db:'' @ inst"

text \<open>The em dash of the notes, in UTF-8.\<close>

definition source_note :: "source \<Rightarrow> string" where
  "source_note src =
     ''source (region '' @ soRegion src @ '') assumes role '' @ soAssumeRole src
       @ '' '' @ em_dash @ '' this policy only grants sts:AssumeRole on it; the role itself needs rds:DescribeDBInstances, rds:DescribeEvents, rds:DescribeDBLogFiles, and rds:DownloadDBLogFilePortion''"

text \<open>The variables of the loop: log resources, wildcard regions, roles, notes, and whether the
  policy itself reads RDS.\<close>

record source_vars =
  svLogs :: "string list"
  svWild :: "string list"
  svRoles :: "string list"
  svNotes :: "string list"
  svLocal :: bool

definition source_step :: "source_vars \<Rightarrow> source \<Rightarrow> source_vars" where
  "source_step v src =
     (if soAssumeRole src \<noteq> [] then
        v\<lparr>svRoles := set_add (soAssumeRole src) (svRoles v), svNotes := svNotes v @ [source_note src]\<rparr>
      else
        v\<lparr>svWild := (if soDiscover src \<noteq> None then set_add (soRegion src) (svWild v) else svWild v),
          svLogs := foldl (\<lambda>l i. set_add (db_arn (soRegion src) i) l) (svLogs v) (soInstances src),
          svLocal := True\<rparr>)"

definition source_vars_of :: "source list \<Rightarrow> source_vars" where
  "source_vars_of srcs =
     foldl source_step \<lparr>svLogs = [], svWild = [], svRoles = [], svNotes = [], svLocal = False\<rparr> srcs"

text \<open>A wildcard region replaces the explicit instances of the region.\<close>

definition widen :: "string list \<Rightarrow> string \<Rightarrow> string list" where
  "widen logs region =
     set_add (db_arn region ''*'')
       (filter (\<lambda>a. \<not> has_prefix a (rds_prefix region)) logs)"

definition log_resources :: "source list \<Rightarrow> string list" where
  "log_resources srcs = (let v = source_vars_of srcs in foldl widen (svLogs v) (svWild v))"

section \<open>Sinks\<close>

definition obj_arn :: "s3_cfg \<Rightarrow> string" where
  "obj_arn c = ''arn:aws:s3:::'' @ s3Bucket c @ ''/'' @ s3Prefix c @ ''*''"

record sink_vars =
  kvPut :: "string list"
  kvProbe :: "string list"
  kvKms :: "string list"
  kvRoles :: "string list"
  kvNotes :: "string list"

definition sink_note :: "sink_cfg \<Rightarrow> s3_cfg \<Rightarrow> string" where
  "sink_note s c =
     ''sink '' @ go_quote (csName s) @ '' assumes role '' @ s3AssumeRole c
       @ '' '' @ em_dash @ '' this policy only grants sts:AssumeRole on it; the role (in the bucket''
       @ [CHR 0x27] @ ''s account) needs s3:PutObject on '' @ obj_arn c
       @ (if s3KMSKeyID c \<noteq> []
          then '' and kms:Encrypt + kms:GenerateDataKey on '' @ kmsARN (s3Region c) (s3KMSKeyID c) else [])
       @ (if s3ExternalID c \<noteq> []
          then ''; its trust policy must accept sts:ExternalId '' @ go_quote (s3ExternalID c) else [])"

definition sink_step :: "bool \<Rightarrow> sink_vars \<Rightarrow> sink_cfg \<Rightarrow> sink_vars" where
  "sink_step deep v s =
     (case csS3 s of
        None \<Rightarrow> v
      | Some c \<Rightarrow>
          if csType s \<noteq> ''s3'' then v
          else if s3AssumeRole c \<noteq> [] then
            v\<lparr>kvRoles := set_add (s3AssumeRole c) (kvRoles v), kvNotes := kvNotes v @ [sink_note s c]\<rparr>
          else
            v\<lparr>kvPut := set_add (obj_arn c) (kvPut v),
              kvProbe := (if deep then set_add (''arn:aws:s3:::'' @ s3Bucket c) (kvProbe v) else kvProbe v),
              kvKms := (if s3KMSKeyID c \<noteq> [] then set_add (kmsARN (s3Region c) (s3KMSKeyID c)) (kvKms v)
                        else kvKms v)\<rparr>)"

definition sink_vars_of :: "bool \<Rightarrow> string list \<Rightarrow> sink_cfg list \<Rightarrow> sink_vars" where
  "sink_vars_of deep roles sinks =
     foldl (sink_step deep) \<lparr>kvPut = [], kvProbe = [], kvKms = [], kvRoles = roles, kvNotes = []\<rparr> sinks"

section \<open>Generate\<close>

definition allow :: "string \<Rightarrow> string list \<Rightarrow> string list \<Rightarrow> statement" where
  "allow sid actions resources =
     \<lparr>stSid = sid, stEffect = ''Allow'', stAction = actions, stResource = resources\<rparr>"

definition allow_some :: "string \<Rightarrow> string list \<Rightarrow> string list \<Rightarrow> statement list" where
  "allow_some sid actions resources =
     (if resources = [] then [] else [allow sid actions (sorted_keys resources)])"

definition Generate :: "config \<Rightarrow> bool \<Rightarrow> policy \<times> string list" where
  "Generate cfg deep =
     (let v = source_vars_of (cfSources cfg);
          k = sink_vars_of deep (svRoles v) (cfSinks cfg) in
      (\<lparr>plVersion = ''2012-10-17'',
        plStatement =
          (if svLocal v then
             [allow ''RDSDescribeInstances'' [''rds:DescribeDBInstances'', ''rds:DescribeEvents''] [''*''],
              allow ''RDSReadLogs'' [''rds:DescribeDBLogFiles'', ''rds:DownloadDBLogFilePortion'']
                (sorted_keys (log_resources (cfSources cfg)))]
           else [])
          @ [allow ''STSIdentity'' [''sts:GetCallerIdentity''] [''*'']]
          @ allow_some ''S3WriteLogs'' [''s3:PutObject''] (kvPut k)
          @ allow_some ''S3DeepValidate'' [''s3:ListBucket''] (kvProbe k)
          @ allow_some ''KMSEncryptLogs'' [''kms:Encrypt'', ''kms:GenerateDataKey''] (kvKms k)
          @ allow_some ''AssumeCrossAccountRoles'' [''sts:AssumeRole''] (kvRoles k)\<rparr>,
       svNotes v @ kvNotes k))"

definition quoteJoin :: "string list \<Rightarrow> string" where
  "quoteJoin ss = join_str '', '' (map go_quote ss)"

fun terraform_statements :: "statement list \<Rightarrow> string" where
  "terraform_statements [] = []"
| "terraform_statements (s # ss) =
     ''  statement {'' @ [nl]
     @ ''    sid       = '' @ go_quote (stSid s) @ [nl]
     @ ''    effect    = '' @ go_quote (stEffect s) @ [nl]
     @ ''    actions   = ['' @ quoteJoin (stAction s) @ '']'' @ [nl]
     @ ''    resources = ['' @ quoteJoin (stResource s) @ '']'' @ [nl]
     @ ''  }'' @ [nl] @ (if ss = [] then [] else [nl] @ terraform_statements ss)"

definition Terraform :: "policy \<Rightarrow> string" where
  "Terraform p = ''data '' @ go_quote ''aws_iam_policy_document'' @ '' '' @ go_quote ''rdstail'' @ '' {'' @ [nl]
     @ terraform_statements (plStatement p) @ ''}'' @ [nl]"

section \<open>What a policy allows\<close>

text \<open>The matching of resources in IAM: a star matches any string, a question mark any character.\<close>

function glob :: "string \<Rightarrow> string \<Rightarrow> bool" where
  "glob [] s = (s = [])"
| "glob (p # ps) [] = (p = CHR ''*'' \<and> glob ps [])"
| "glob (p # ps) (c # cs) =
     (if p = CHR ''*'' then glob ps (c # cs) \<or> glob (p # ps) cs
      else (p = CHR ''?'' \<or> p = c) \<and> glob ps cs)"
  by pat_completeness auto
termination by (relation "measure (\<lambda>(p, s). length p + length s)") auto

lemma glob_star: "glob ''*'' s"
  by (induction s) auto

lemma glob_append: "glob p s \<Longrightarrow> glob q t \<Longrightarrow> glob (p @ q) (s @ t)"
proof (induction p s rule: glob.induct)
  case (2 p ps)
  then show ?case by (cases t) auto
next
  case (3 p ps c cs)
  then show ?case by (auto split: if_splits)
qed simp

lemma glob_star_empty: "glob p s \<Longrightarrow> glob (CHR ''*'' # p) s"
  by (cases s) auto

lemma glob_refl: "glob s s"
  by (induction s) (auto intro: glob_star_empty)

lemma glob_prefix: "glob (p @ ''*'') (p @ s)"
  by (intro glob_append glob_refl glob_star)

definition allows :: "policy \<Rightarrow> string \<Rightarrow> string \<Rightarrow> bool" where
  "allows p action resource =
     list_ex (\<lambda>s. stEffect s = ''Allow'' \<and> action \<in> set (stAction s)
                  \<and> list_ex (\<lambda>r. glob r resource) (stResource s)) (plStatement p)"

section \<open>Reading logs\<close>

lemma in_set_add [simp]: "set (set_add x xs) = insert x (set xs)"
  by (auto simp: set_add_def)

lemma fold_set_add: "set (foldl (\<lambda>l i. set_add (f i) l) l is) = set l \<union> f ` set is"
  by (induction "is" arbitrary: l) auto

lemma set_sorted_keys [simp]: "set (sorted_keys xs) = set xs"
  by (simp add: sorted_keys_def)

lemma source_step_mono:
  "set (svLogs v) \<subseteq> set (svLogs (foldl source_step v srcs))
   \<and> set (svWild v) \<subseteq> set (svWild (foldl source_step v srcs))
   \<and> (svLocal v \<longrightarrow> svLocal (foldl source_step v srcs))"
proof (induction srcs arbitrary: v)
  case (Cons src srcs)
  have "set (svLogs v) \<subseteq> set (svLogs (source_step v src)) \<and> set (svWild v) \<subseteq> set (svWild (source_step v src))
      \<and> (svLocal v \<longrightarrow> svLocal (source_step v src))"
    by (auto simp: source_step_def fold_set_add)
  then show ?case using Cons.IH [of "source_step v src"] by auto
qed simp

lemma source_vars_member:
  assumes "src \<in> set srcs" "soAssumeRole src = []"
  shows "svLocal (source_vars_of srcs)
    \<and> (\<forall>i \<in> set (soInstances src). db_arn (soRegion src) i \<in> set (svLogs (source_vars_of srcs)))
    \<and> (soDiscover src \<noteq> None \<longrightarrow> soRegion src \<in> set (svWild (source_vars_of srcs)))"
proof -
  obtain pre post where s: "srcs = pre @ src # post" using assms(1) by (meson split_list)
  let ?v = "foldl source_step \<lparr>svLogs = [], svWild = [], svRoles = [], svNotes = [], svLocal = False\<rparr> pre"
  have "svLocal (source_step ?v src)
      \<and> (\<forall>i \<in> set (soInstances src). db_arn (soRegion src) i \<in> set (svLogs (source_step ?v src)))
      \<and> (soDiscover src \<noteq> None \<longrightarrow> soRegion src \<in> set (svWild (source_step ?v src)))"
    using assms(2) by (simp add: source_step_def fold_set_add)
  then show ?thesis
    using source_step_mono [of "source_step ?v src" post] by (auto simp: source_vars_of_def s)
qed

lemma db_arn_prefix:
  assumes "CHR '':'' \<notin> set r" "CHR '':'' \<notin> set r'"
  shows "has_prefix (db_arn r x) (rds_prefix r') \<longleftrightarrow> r = r'"
proof -
  have tw: "takeWhile (\<lambda>c. c \<noteq> CHR '':'') (s @ CHR '':'' # y) = s" if "CHR '':'' \<notin> set s" for s y
    using that by (simp add: takeWhile_tail takeWhile_eq_all_conv) (metis (full_types))
  have "r = r'" if "r @ CHR '':'' # y = r' @ CHR '':'' # z" for y z
    using tw [OF assms(1), of y] tw [OF assms(2), of z] that by simp
  then show ?thesis by (auto simp: has_prefix_def db_arn_def rds_prefix_def prefix_def)
qed

lemma widen_keeps:
  "db_arn r x \<in> set logs \<Longrightarrow> r \<notin> set ws \<Longrightarrow> CHR '':'' \<notin> set r \<Longrightarrow>
     \<forall>w \<in> set ws. CHR '':'' \<notin> set w \<Longrightarrow> db_arn r x \<in> set (foldl widen logs ws)"
  by (induction ws arbitrary: logs) (auto simp: widen_def db_arn_prefix)

lemma widen_adds:
  "r \<in> set ws \<Longrightarrow> \<forall>w \<in> set ws. CHR '':'' \<notin> set w \<Longrightarrow> db_arn r ''*'' \<in> set (foldl widen logs ws)"
  by (induction ws rule: rev_induct) (auto simp: widen_def db_arn_prefix)

lemma db_arn_covers:
  "glob (db_arn r i) (''arn:aws:rds:'' @ r @ '':'' @ account @ '':db:'' @ i)"
  "glob (db_arn r ''*'') (''arn:aws:rds:'' @ r @ '':'' @ account @ '':db:'' @ i)"
proof -
  have g: "glob (''arn:aws:rds:'' @ r @ '':'' @ ''*'' @ '':db:'' @ p)
      (''arn:aws:rds:'' @ r @ '':'' @ account @ '':db:'' @ i)" if "glob p i" for p
    by (intro glob_append glob_refl glob_star that)
  show "glob (db_arn r i) (''arn:aws:rds:'' @ r @ '':'' @ account @ '':db:'' @ i)"
    using g [OF glob_refl] by (simp add: db_arn_def rds_prefix_def)
  show "glob (db_arn r ''*'') (''arn:aws:rds:'' @ r @ '':'' @ account @ '':db:'' @ i)"
    using g [OF glob_star] by (simp add: db_arn_def rds_prefix_def)
qed

section \<open>Writing objects\<close>

lemma sink_step_mono: "set (kvPut v) \<subseteq> set (kvPut (foldl (sink_step deep) v sinks))"
proof (induction sinks arbitrary: v)
  case (Cons s sinks)
  have "set (kvPut v) \<subseteq> set (kvPut (sink_step deep v s))"
    by (auto simp: sink_step_def split: option.splits)
  then show ?case using Cons.IH [of "sink_step deep v s"] by auto
qed simp

lemma sink_vars_member:
  assumes "s \<in> set sinks" "csType s = ''s3''" "csS3 s = Some c" "s3AssumeRole c = []"
  shows "obj_arn c \<in> set (kvPut (sink_vars_of deep roles sinks))"
proof -
  obtain pre post where p: "sinks = pre @ s # post" using assms(1) by (meson split_list)
  let ?v = "foldl (sink_step deep) \<lparr>kvPut = [], kvProbe = [], kvKms = [], kvRoles = roles, kvNotes = []\<rparr> pre"
  have "obj_arn c \<in> set (kvPut (sink_step deep ?v s))" using assms by (simp add: sink_step_def)
  then show ?thesis
    using sink_step_mono [of "sink_step deep ?v s" deep post] by (auto simp: sink_vars_of_def p)
qed

lemma buildKey_prefix:
  assumes "s3_New name (Some c) True = Inr k" "s3Prefix c \<noteq> ''/''"
  shows "\<exists>rest. buildKey k now r = s3Prefix c @ rest"
proof -
  have k: "s3sPrefix k = trim_suffix (s3Prefix c) ''/''"
    using assms(1) by (auto simp: s3_New_def Let_def split: if_splits)
  show ?thesis
  proof (cases "has_suffix (s3Prefix c) ''/''")
    case False
    then have "s3sPrefix k = s3Prefix c" by (simp add: k trim_suffix_def)
    then show ?thesis by (auto simp: buildKey_def Let_def split: prod.splits)
  next
    case True
    then obtain u where u: "s3Prefix c = u @ ''/''" by (auto simp: has_suffix_def suffix_def)
    then have "s3sPrefix k = u" "u \<noteq> []" using assms(2) by (auto simp: k trim_suffix_def has_suffix_def suffix_def)
    then show ?thesis using u by (auto simp: buildKey_def Let_def split: prod.splits)
  qed
qed

section \<open>Properties\<close>

lemma allows_reads:
  assumes "src \<in> set (cfSources cfg)" "soAssumeRole src = []"
    and "\<forall>x \<in> set (cfSources cfg). CHR '':'' \<notin> set (soRegion x)"
    and "i \<in> set (soInstances src) \<or> soDiscover src \<noteq> None"
  shows "list_ex (\<lambda>r. glob r (''arn:aws:rds:'' @ soRegion src @ '':'' @ account @ '':db:'' @ i))
           (sorted_keys (log_resources (cfSources cfg)))"
proof -
  let ?v = "source_vars_of (cfSources cfg)"
  have wild: "\<forall>x \<in> set (svWild (foldl source_step v srcs)). CHR '':'' \<notin> set x"
    if "\<forall>x \<in> set (svWild v). CHR '':'' \<notin> set x" "\<forall>x \<in> set srcs. CHR '':'' \<notin> set (soRegion x)" for v srcs
    using that
  proof (induction srcs arbitrary: v)
    case (Cons src srcs)
    have "\<forall>x \<in> set (svWild (source_step v src)). CHR '':'' \<notin> set x"
      using Cons.prems by (simp add: source_step_def)
    then show ?case using Cons.IH Cons.prems(2) by simp
  qed simp
  have w: "\<forall>x \<in> set (svWild ?v). CHR '':'' \<notin> set x"
    using wild [of "\<lparr>svLogs = [], svWild = [], svRoles = [], svNotes = [], svLocal = False\<rparr>" "cfSources cfg"]
      assms(3) by (simp add: source_vars_of_def)
  have r: "CHR '':'' \<notin> set (soRegion src)" using assms(1,3) by blast
  note m = source_vars_member [OF assms(1,2)]
  have "db_arn (soRegion src) i \<in> set (log_resources (cfSources cfg))
      \<or> db_arn (soRegion src) ''*'' \<in> set (log_resources (cfSources cfg))"
    using m assms(4) widen_keeps [OF _ _ r w, of i] widen_adds [OF _ w, of "soRegion src"]
    by (cases "soRegion src \<in> set (svWild ?v)") (auto simp: log_resources_def Let_def)
  then show ?thesis unfolding list_ex_iff set_sorted_keys using db_arn_covers by blast
qed

text \<open>C33. The generated policy lets rdstail list and download the logs of every instance it may
  tail with its own credentials: the explicit instances of the configuration, and any instance
  of a region with discovery, in any account.\<close>

theorem policy_allows_reads:
  assumes "src \<in> set (cfSources cfg)" "soAssumeRole src = []"
    and "\<forall>x \<in> set (cfSources cfg). CHR '':'' \<notin> set (soRegion x)"
    and "i \<in> set (soInstances src) \<or> soDiscover src \<noteq> None"
    and "action \<in> {''rds:DescribeDBLogFiles'', ''rds:DownloadDBLogFilePortion''}"
  shows "allows (fst (Generate cfg deep)) action
           (''arn:aws:rds:'' @ soRegion src @ '':'' @ account @ '':db:'' @ i)"
proof -
  have "svLocal (source_vars_of (cfSources cfg))" using source_vars_member [OF assms(1,2)] by simp
  then show ?thesis
    using allows_reads [OF assms(1-4)] assms(5)
    by (auto simp: allows_def Generate_def Let_def allow_def simp del: list_ex_iff)
qed

definition iam_source :: source where
  "iam_source = \<lparr>soType = ''rds'', soEngine = ''mysql'', soRegion = ''us-east-1'', soRegions = [],
     soInstances = [''db''], soDiscover = None, soAssumeRole = [], soIncludeAudit = False\<rparr>"

theorem policy_allows_reads_witness:
  "\<forall>account. allows (fst (Generate (defaults\<lparr>cfSources := [iam_source]\<rparr>) True)) ''rds:DownloadDBLogFilePortion''
     (''arn:aws:rds:us-east-1:'' @ account @ '':db:db'')"
  using policy_allows_reads [of iam_source "defaults\<lparr>cfSources := [iam_source]\<rparr>" "''db''"
      "''rds:DownloadDBLogFilePortion''" True]
  by (simp add: iam_source_def)

definition iam_s3 :: s3_cfg where
  "iam_s3 = \<lparr>s3Bucket = ''logs'', s3Prefix = ''rds/'', s3Region = ''us-east-1'', s3AssumeRole = [],
     s3ExternalID = [], s3KMSKeyID = [], s3MaxBytes = 0, s3MaxRecords = 0, s3MaxAge = 0\<rparr>"

definition iam_sink :: sink_cfg where
  "iam_sink = \<lparr>csName = ''out'', csType = ''s3'',
     csRetry = \<lparr>rpMaxAttempts = 3, rpInitialWait = second, rpMaxWait = minute, rpMultiplier = 2\<rparr>,
     csFilter = None, csS3 = Some iam_s3, csKafka = None, csHTTP = None, csStdout = None\<rparr>"



end
