(* ===== verification/Deep.thy ===== *)
theory Deep
  imports App
begin

text \<open>
  internal/validate/deep.go: the probes of validate --deep, and the guard of internal/awsx/config.go
  they go through.  The services probed (STS, RDS, S3, HTTP, Kafka) are arguments.
\<close>

section \<open>AWS configuration\<close>

text \<open>NewConfig; the argument is LoadDefaultConfig's error.  A role adds a lazy provider.\<close>

definition NewConfig :: "(string \<Rightarrow> go_err option) \<Rightarrow> string \<Rightarrow> go_err option" where
  "NewConfig loadDefault region =
     (if region = [] then Some (ErrMsg ''awsx: region is required'')
      else map_option (Wrapped ''load default config'') (loadDefault region))"

section \<open>The probes\<close>

record check =
  ckName :: string
  ckErr :: "go_err option"

definition OK :: "check \<Rightarrow> bool" where
  "OK r = (ckErr r = None)"

text \<open>What the probes call: clients are named by region and role.\<close>

record 'w services =
  svLoad :: "string \<Rightarrow> go_err option"
  svCaller :: "client_key \<Rightarrow> 'w \<Rightarrow> go_err option \<times> 'w"
  svDescribe :: "client_key \<Rightarrow> string \<Rightarrow> 'w \<Rightarrow> go_err option \<times> 'w"
  svHeadBucket :: "string \<Rightarrow> s3_cfg \<Rightarrow> 'w \<Rightarrow> go_err option \<times> 'w"
  svHeadReq :: "string \<Rightarrow> go_err option"
  svDo :: "http_req \<Rightarrow> duration \<Rightarrow> 'w \<Rightarrow> (go_err + int) \<times> 'w"
  svKgo :: "sasl \<Rightarrow> go_err option"
  svPing :: "kafka_cfg \<Rightarrow> duration \<Rightarrow> 'w \<Rightarrow> go_err option \<times> 'w"

text \<open>The store is opened, read once and closed.\<close>

definition probeStateStore :: "'w opened registry \<Rightarrow> config \<Rightarrow> 'w \<Rightarrow> check \<times> 'w" where
  "probeStateStore reg cfg w =
     (let name = ''state.'' @ scType (cfState cfg) in
      case state_Open reg (cfState cfg) of
        Inl e \<Rightarrow> (\<lparr>ckName = name, ckErr = Some (Wrapped ''open'' e)\<rparr>, w)
      | Inr op \<Rightarrow>
          (case ssGet (opStore op) ''__probe__'' ''__probe__'' w of
             (Inl e, w1) \<Rightarrow> (\<lparr>ckName = name, ckErr = Some (Wrapped ''get probe'' e)\<rparr>, opClose op w1)
           | (Inr _, w1) \<Rightarrow> (\<lparr>ckName = name, ckErr = None\<rparr>, opClose op w1)))"

definition roleSuffix :: "string \<Rightarrow> string" where
  "roleSuffix role = (if role = [] then [] else '' via '' @ trim_prefix role ''arn:aws:iam::'')"

definition source_key :: "source \<Rightarrow> client_key" where
  "source_key src = (soRegion src, soAssumeRole src)"

definition sts_name :: "client_key \<Rightarrow> string" where
  "sts_name k = ''sts.GetCallerIdentity['' @ fst k @ roleSuffix (snd k) @ '']''"

definition sts_call :: "'w services \<Rightarrow> client_key \<Rightarrow> 'w \<Rightarrow> go_err option \<times> 'w" where
  "sts_call sv k w =
     (case NewConfig (svLoad sv) (fst k) of Some e \<Rightarrow> (Some e, w) | None \<Rightarrow> svCaller sv k w)"

fun probeSTS :: "'w services \<Rightarrow> client_key list \<Rightarrow> source list \<Rightarrow> 'w \<Rightarrow> check list \<times> 'w" where
  "probeSTS sv seen [] w = ([], w)"
| "probeSTS sv seen (src # srcs) w =
     (let k = source_key src in
      if k \<in> set seen then probeSTS sv seen srcs w
      else (case sts_call sv k w of
              (r, w1) \<Rightarrow>
                (case probeSTS sv (k # seen) srcs w1 of
                   (out, w2) \<Rightarrow> (\<lparr>ckName = sts_name k, ckErr = r\<rparr> # out, w2))))"

fun describe_each :: "'w services \<Rightarrow> client_key \<Rightarrow> string list \<Rightarrow> 'w \<Rightarrow> check list \<times> 'w" where
  "describe_each sv k [] w = ([], w)"
| "describe_each sv k (inst # insts) w =
     (case svDescribe sv k inst w of
        (r, w1) \<Rightarrow>
          (case describe_each sv k insts w1 of
             (out, w2) \<Rightarrow> (\<lparr>ckName = ''rds.DescribeDBLogFiles['' @ inst @ '']'', ckErr = r\<rparr> # out, w2)))"

text \<open>clients are the keys whose client was made; one that could not be made is tried again.\<close>

fun probeRDSInstances ::
    "'w services \<Rightarrow> client_key list \<Rightarrow> source list \<Rightarrow> 'w \<Rightarrow> check list \<times> 'w" where
  "probeRDSInstances sv clients [] w = ([], w)"
| "probeRDSInstances sv clients (src # srcs) w =
     (let k = source_key src in
      case (if k \<in> set clients then None else NewConfig (svLoad sv) (fst k)) of
        Some e \<Rightarrow>
          (case probeRDSInstances sv clients srcs w of
             (out, w1) \<Rightarrow> (map (\<lambda>inst. \<lparr>ckName = ''rds.'' @ inst, ckErr = Some e\<rparr>) (soInstances src) @ out, w1))
      | None \<Rightarrow>
          (case describe_each sv k (soInstances src) w of
             (rs, w1) \<Rightarrow>
               (case probeRDSInstances sv (k # clients) srcs w1 of (out, w2) \<Rightarrow> (rs @ out, w2))))"

definition probeS3 :: "'w services \<Rightarrow> sink_cfg \<Rightarrow> 'w \<Rightarrow> check \<times> 'w" where
  "probeS3 sv c w =
     (let name = ''sink.s3['' @ csName c @ ''].HeadBucket'' in
      case csS3 c of
        None \<Rightarrow> (\<lparr>ckName = name, ckErr = Some (ErrMsg ''missing s3 config'')\<rparr>, w)
      | Some s \<Rightarrow>
          (let region = (if s3Region s = [] then ''us-east-1'' else s3Region s) in
           case NewConfig (svLoad sv) region of
             Some e \<Rightarrow> (\<lparr>ckName = name, ckErr = Some e\<rparr>, w)
           | None \<Rightarrow> (case svHeadBucket sv region s w of (r, w1) \<Rightarrow> (\<lparr>ckName = name, ckErr = r\<rparr>, w1))))"

definition probeKafka :: "'w services \<Rightarrow> sink_cfg \<Rightarrow> 'w \<Rightarrow> check \<times> 'w" where
  "probeKafka sv c w =
     (let name = ''sink.kafka['' @ csName c @ ''].Ping'' in
      case csKafka c of
        None \<Rightarrow> (\<lparr>ckName = name, ckErr = Some (ErrMsg ''missing kafka config'')\<rparr>, w)
      | Some k \<Rightarrow>
          (case ClientOpts k of
             Inl e \<Rightarrow> (\<lparr>ckName = name, ckErr = Some e\<rparr>, w)
           | Inr m \<Rightarrow>
               (case svKgo sv m of
                  Some e \<Rightarrow> (\<lparr>ckName = name, ckErr = Some e\<rparr>, w)
                | None \<Rightarrow>
                    (case svPing sv k (10 * second) w of
                       (r, w1) \<Rightarrow> (\<lparr>ckName = name, ckErr = r\<rparr>, w1)))))"

text \<open>A HEAD request with the configured headers; any status below 500 passes.\<close>

definition probeHTTP :: "'w services \<Rightarrow> sink_cfg \<Rightarrow> 'w \<Rightarrow> check \<times> 'w" where
  "probeHTTP sv c w =
     (let name = ''sink.http['' @ csName c @ ''].HEAD'' in
      case csHTTP c of
        None \<Rightarrow> (\<lparr>ckName = name, ckErr = Some (ErrMsg ''missing http config'')\<rparr>, w)
      | Some h \<Rightarrow>
          (let timeout = (if htTimeout h \<le> 0 then 5 * second else htTimeout h) in
           case svHeadReq sv (htURL h) of
             Some e \<Rightarrow> (\<lparr>ckName = name, ckErr = Some e\<rparr>, w)
           | None \<Rightarrow>
               (case svDo sv \<lparr>rqURL = htURL h, rqHeaders = htHeaders h, rqBody = []\<rparr> timeout w of
                  (Inl e, w1) \<Rightarrow> (\<lparr>ckName = name, ckErr = Some e\<rparr>, w1)
                | (Inr code, w1) \<Rightarrow>
                    (\<lparr>ckName = name,
                      ckErr = (if code \<ge> 500 then Some (ErrMsg (''status '' @ format_int code)) else None)\<rparr>,
                     w1))))"

definition probe_sink :: "'w services \<Rightarrow> sink_cfg \<Rightarrow> 'w \<Rightarrow> check list \<times> 'w" where
  "probe_sink sv c w =
     (if csType c = ''s3'' then apfst (\<lambda>r. [r]) (probeS3 sv c w)
      else if csType c = ''http'' then apfst (\<lambda>r. [r]) (probeHTTP sv c w)
      else if csType c = ''kafka'' then apfst (\<lambda>r. [r]) (probeKafka sv c w) else ([], w))"

fun probeSinks :: "'w services \<Rightarrow> sink_cfg list \<Rightarrow> 'w \<Rightarrow> check list \<times> 'w" where
  "probeSinks sv [] w = ([], w)"
| "probeSinks sv (c # cs) w =
     (case probe_sink sv c w of
        (rs, w1) \<Rightarrow> (case probeSinks sv cs w1 of (out, w2) \<Rightarrow> (rs @ out, w2)))"

definition Deep :: "'w services \<Rightarrow> 'w opened registry \<Rightarrow> config \<Rightarrow> 'w \<Rightarrow> check list \<times> 'w" where
  "Deep sv reg cfg w =
     (let (s, w1) = probeStateStore reg cfg w;
          (a, w2) = probeSTS sv [] (cfSources cfg) w1;
          (b, w3) = probeRDSInstances sv [] (cfSources cfg) w2;
          (c, w4) = probeSinks sv (cfSinks cfg) w3
      in (s # a @ b @ c, w4))"

section \<open>What a deep validation covers\<close>

text \<open>The keys of the sources, each at its first occurrence.\<close>

fun fresh_keys :: "client_key list \<Rightarrow> client_key list \<Rightarrow> client_key list" where
  "fresh_keys seen [] = []"
| "fresh_keys seen (k # ks) = (if k \<in> set seen then fresh_keys seen ks else k # fresh_keys (k # seen) ks)"

lemma fresh_keys_set: "set (fresh_keys seen ks) = set ks - set seen"
  by (induction seen ks rule: fresh_keys.induct) auto

lemma fresh_keys_distinct: "distinct (fresh_keys seen ks)"
  by (induction seen ks rule: fresh_keys.induct) (auto simp: fresh_keys_set)

lemma probeSTS_names:
  "map ckName (fst (probeSTS sv seen srcs w)) = map sts_name (fresh_keys seen (map source_key srcs))"
proof (induction srcs arbitrary: seen w)
  case (Cons s srcs)
  then show ?case by (simp add: Let_def case_prod_beta)
qed simp

definition rds_name :: "'w services \<Rightarrow> source \<Rightarrow> string \<Rightarrow> string" where
  "rds_name sv src inst =
     (if NewConfig (svLoad sv) (soRegion src) = None then ''rds.DescribeDBLogFiles['' @ inst @ '']''
      else ''rds.'' @ inst)"

lemma describe_each_names:
  "map ckName (fst (describe_each sv k insts w)) = map (\<lambda>i. ''rds.DescribeDBLogFiles['' @ i @ '']'') insts"
  by (induction insts arbitrary: w) (simp_all add: case_prod_beta)

lemma probeRDS_names:
  "\<forall>k \<in> set clients. NewConfig (svLoad sv) (fst k) = None \<Longrightarrow>
     map ckName (fst (probeRDSInstances sv clients srcs w))
       = concat (map (\<lambda>s. map (rds_name sv s) (soInstances s)) srcs)"
proof (induction srcs arbitrary: clients w)
  case (Cons s srcs)
  show ?case
  proof (cases "NewConfig (svLoad sv) (soRegion s)")
    case None
    moreover have "map (rds_name sv s) (soInstances s)
        = map (\<lambda>i. ''rds.DescribeDBLogFiles['' @ i @ '']'') (soInstances s)"
      using None by (simp add: rds_name_def)
    ultimately show ?thesis
      using Cons.IH [of "source_key s # clients"] Cons.prems
      by (simp add: Let_def case_prod_beta describe_each_names source_key_def)
  next
    case (Some e)
    then have "source_key s \<notin> set clients" using Cons.prems by (auto simp: source_key_def)
    then show ?thesis using Some Cons.IH [OF Cons.prems]
      by (simp add: Let_def case_prod_beta source_key_def rds_name_def)
  qed
qed simp

definition sink_checks :: "sink_cfg \<Rightarrow> string list" where
  "sink_checks c =
     (if csType c = ''s3'' then [''sink.s3['' @ csName c @ ''].HeadBucket'']
      else if csType c = ''http'' then [''sink.http['' @ csName c @ ''].HEAD'']
      else if csType c = ''kafka'' then [''sink.kafka['' @ csName c @ ''].Ping''] else [])"

lemma probe_names:
  "ckName (fst (probeS3 sv c w)) = ''sink.s3['' @ csName c @ ''].HeadBucket''"
  "ckName (fst (probeHTTP sv c w)) = ''sink.http['' @ csName c @ ''].HEAD''"
  "ckName (fst (probeKafka sv c w)) = ''sink.kafka['' @ csName c @ ''].Ping''"
  unfolding probeS3_def probeHTTP_def probeKafka_def Let_def
  by (simp_all only: fst_conv check.select_convs case_prod_beta split: option.split sum.split) simp_all

lemma probe_sink_names: "map ckName (fst (probe_sink sv c w)) = sink_checks c"
  by (simp add: probe_sink_def sink_checks_def probe_names)

lemma probeSinks_names: "map ckName (fst (probeSinks sv cs w)) = concat (map sink_checks cs)"
  by (induction cs arbitrary: w) (simp_all add: case_prod_beta probe_sink_names)

text \<open>What validate --deep checks, whatever the outcomes: the store once, every pair of region and
  role of the sources once, every listed instance of every source, and every sink that has a
  network end, in this order; instances found by discovery are not probed.\<close>

lemma deep_checks_everything:
  "map ckName (fst (Deep sv reg cfg w)) =
     (''state.'' @ scType (cfState cfg)) # map sts_name (fresh_keys [] (map source_key (cfSources cfg)))
     @ concat (map (\<lambda>s. map (rds_name sv s) (soInstances s)) (cfSources cfg))
     @ concat (map sink_checks (cfSinks cfg))"
proof -
  have "ckName (fst (probeStateStore reg cfg w)) = ''state.'' @ scType (cfState cfg)"
    by (auto simp: probeStateStore_def Let_def split: sum.splits prod.splits)
  then show ?thesis
    by (simp add: Deep_def Let_def case_prod_beta probeSTS_names probeRDS_names probeSinks_names)
qed

section \<open>What its success promises\<close>

lemma probeSTS_ok:
  "list_all OK (fst (probeSTS sv seen srcs w)) \<Longrightarrow> src \<in> set srcs \<Longrightarrow> source_key src \<notin> set seen \<Longrightarrow>
     NewConfig (svLoad sv) (soRegion src) = None"
proof (induction srcs arbitrary: seen w)
  case (Cons s srcs)
  let ?c = "sts_call sv (source_key s) w"
  show ?case
  proof (cases "source_key s \<in> set seen")
    case True
    then show ?thesis using Cons by auto
  next
    case False
    have ok: "fst ?c = None" "list_all OK (fst (probeSTS sv (source_key s # seen) srcs (snd ?c)))"
      using Cons.prems(1) False by (simp_all add: Let_def case_prod_beta OK_def [of "\<lparr>ckName = x, ckErr = y\<rparr>" for x y])
    show ?thesis
    proof (cases "source_key src = source_key s")
      case True
      then show ?thesis using ok(1) by (auto simp: sts_call_def source_key_def split: option.splits)
    next
      case neq: False
      then show ?thesis using Cons.IH [OF ok(2)] Cons.prems(2,3) by auto
    qed
  qed
qed simp

text \<open>A sink that passed can be built, as far as its clients go.\<close>

definition clients_ok :: "'w services \<Rightarrow> sink_cfg \<Rightarrow> bool" where
  "clients_ok sv c =
     ((csType c = ''s3'' \<longrightarrow> (\<forall>s. csS3 c = Some s \<longrightarrow>
        NewConfig (svLoad sv) (if s3Region s = [] then ''us-east-1'' else s3Region s) = None))
     \<and> (csType c = ''kafka'' \<longrightarrow> (\<forall>k m. csKafka c = Some k \<longrightarrow> ClientOpts k = Inr m \<longrightarrow> svKgo sv m = None)))"

lemma probe_sink_ok: "list_all OK (fst (probe_sink sv c w)) \<Longrightarrow> clients_ok sv c"
  by (auto simp: clients_ok_def probe_sink_def probeS3_def probeKafka_def OK_def Let_def
      split: option.splits prod.splits sum.splits)

lemma probeSinks_ok: "list_all OK (fst (probeSinks sv cs w)) \<Longrightarrow> c \<in> set cs \<Longrightarrow> clients_ok sv c"
  by (induction cs arbitrary: w) (auto simp: case_prod_beta intro: probe_sink_ok)


text \<open>Two sources of one region, and the sinks of two_app, where everything answers.\<close>

definition calm_services :: "sim services" where
  "calm_services = \<lparr>svLoad = (\<lambda>_. None), svCaller = (\<lambda>_ w. (None, w)), svDescribe = (\<lambda>_ _ w. (None, w)),
     svHeadBucket = (\<lambda>_ _ w. (None, w)), svHeadReq = (\<lambda>_. None), svDo = (\<lambda>_ _ w. (Inr 405, w)),
     svKgo = (\<lambda>_. None), svPing = (\<lambda>_ _ w. (None, w))\<rparr>"

definition aws_os :: "sim outside" where
  "aws_os = hook_os\<lparr>osAwsConfig := (\<lambda>r _ _. NewConfig (\<lambda>_. None) r)\<rparr>"

lemma two_app_deep:
  "list_all OK (fst (Deep calm_services sim_registry two_app (sim_init [])))"
  by (simp add: Deep_def Let_def probeStateStore_def sim_registry_def state_Open_def Register_def two_app_def
      one_cfg_def defaults_def sim_opened_def sim_store_def on_store_def mem_Get_def one_source_def
      source_key_def NewConfig_def calm_services_def OK_def hook_cfg_def console_cfg_def probeHTTP_def
      sim_init_def sts_call_def probe_sink_def case_prod_beta)


end
