(* ===== verification/Wizard.thy ===== *)
theory Wizard
  imports Config "HOL-Library.Char_ord" "HOL-Library.List_Lexorder" "HOL-Library.Multiset"
begin

text \<open>
  internal/initwizard/wizard.go: the dialogue that writes a first configuration.  The input is
  the list of lines the scanner will return and how it ends, the output the text printed so far;
  the listings of the account are functions of the region.
\<close>

section \<open>The dialogue\<close>

record wiz_instance =
  wiID :: string
  wiEngine :: string
  wiStatus :: string

text \<open>The scanner and the output; wzErr is what Err returns once the lines are used up.\<close>

record wizard =
  wzLines :: "string list"
  wzErr :: "go_err option"
  wzOut :: string

text \<open>None stands for a nil function.\<close>

record wiz_deps =
  wdListInstances :: "(string \<Rightarrow> go_err + wiz_instance list) option"
  wdListBuckets :: "(string \<Rightarrow> go_err + string list) option"
  wdFileExists :: "(string \<Rightarrow> bool) option"

record wiz_result =
  wrPath :: string
  wrYAML :: string

record wiz_source =
  zsEngine :: string
  zsInstances :: "string list"

record sink_choice =
  scKind :: string
  scBucket :: string
  scBucketRegion :: string
  scPrefix :: string
  scBrokers :: "string list"
  scTopic :: string
  scURL :: string

text \<open>A step of the dialogue, and two of them, the second only when the first succeeded.\<close>

type_synonym 'a dialogue = "wizard \<Rightarrow> (go_err + 'a) \<times> wizard"

definition and_then :: "'a dialogue \<Rightarrow> ('a \<Rightarrow> 'b dialogue) \<Rightarrow> 'b dialogue" where
  "and_then m f w = (case m w of (Inl e, w1) \<Rightarrow> (Inl e, w1) | (Inr a, w1) \<Rightarrow> f a w1)"

definition answer :: "'a \<Rightarrow> 'a dialogue" where
  "answer a w = (Inr a, w)"

definition give_up :: "string \<Rightarrow> 'a dialogue" where
  "give_up msg w = (Inl (ErrMsg msg), w)"

definition say :: "string \<Rightarrow> unit dialogue" where
  "say s w = (Inr (), w\<lparr>wzOut := wzOut w @ s\<rparr>)"

definition ask :: "string \<Rightarrow> string \<Rightarrow> string dialogue" where
  "ask prompt dflt w =
     (let w1 = w\<lparr>wzOut := wzOut w @ prompt @ (if dflt \<noteq> [] then '' ['' @ dflt @ '']'' else []) @ '': ''\<rparr> in
      case wzLines w of
        [] \<Rightarrow> (Inl (case wzErr w of Some e \<Rightarrow> e
                    | None \<Rightarrow> ErrMsg ''input closed before the wizard finished''), w1)
      | l # ls \<Rightarrow> (Inr (if trim_space l = [] then dflt else trim_space l), w1\<lparr>wzLines := ls\<rparr>))"

section \<open>Instances\<close>

text \<open>The non-blank parts of a comma-separated answer.\<close>

definition comma_list :: "string \<Rightarrow> string list" where
  "comma_list s = filter (\<lambda>x. x \<noteq> []) (map trim_space (split_byte (CHR '','') s))"

definition group :: "wiz_instance list \<Rightarrow> wiz_source list" where
  "group insts =
     map (\<lambda>e. \<lparr>zsEngine = e, zsInstances = sort (map wiID (filter (\<lambda>i. wiEngine i = e) insts))\<rparr>)
       (sort (remdups (map wiEngine insts)))"

definition manualInstances :: "wiz_source list dialogue" where
  "manualInstances =
     and_then (ask ''instance identifiers (comma-separated)'' [])
       (\<lambda>ids. if comma_list ids = [] then give_up ''at least one instance is required''
              else and_then (ask ''engine (postgres | mysql | mariadb)'' ''postgres'')
                (\<lambda>eng. let engine = to_lower eng in
                   if engine = ''postgres'' \<or> engine = ''mysql'' \<or> engine = ''mariadb''
                   then answer [\<lparr>zsEngine = engine, zsInstances = comma_list ids\<rparr>]
                   else give_up (''unknown engine '' @ go_quote engine)))"

definition invalid_selection :: "string \<Rightarrow> nat \<Rightarrow> go_err" where
  "invalid_selection tok n =
     ErrMsg (''invalid selection '' @ go_quote tok @ '': expected numbers 1-'' @ nat_str n @ '', ''
       @ [CHR 0x27] @ ''a'' @ [CHR 0x27] @ '', or '' @ [CHR 0x27] @ ''m'' @ [CHR 0x27])"

text \<open>The loop over the numbers of a selection.\<close>

fun pick_numbers ::
    "wiz_instance list \<Rightarrow> int list \<Rightarrow> wiz_instance list \<Rightarrow> string list \<Rightarrow> go_err + wiz_instance list" where
  "pick_numbers found seen picked [] = Inr picked"
| "pick_numbers found seen picked (tok # toks) =
     (case parse_int (trim_space tok) of
        None \<Rightarrow> Inl (invalid_selection tok (length found))
      | Some n \<Rightarrow>
          if n < 1 \<or> n > int (length found)
          then Inl (invalid_selection tok (length found))
          else if n \<in> set seen then pick_numbers found seen picked toks
          else pick_numbers found (n # seen) (picked @ [found ! nat (n - 1)]) toks)"

definition instance_menu :: "wiz_instance list \<Rightarrow> string" where
  "instance_menu found =
     concat (map (\<lambda>(i, x). ''  '' @ pad_left 2 (nat_str (Suc i)) @ '') '' @ pad_right 40 (wiID x) @ '' ''
                    @ pad_right 9 (wiEngine x) @ '' '' @ wiStatus x @ newline)
             (List.enumerate 0 found))"

definition select_instances :: "wiz_instance list \<Rightarrow> string \<Rightarrow> wiz_source list dialogue" where
  "select_instances found sel =
     (if to_lower sel = ''m'' then manualInstances
      else if to_lower sel = ''a'' \<or> to_lower sel = ''all'' then answer (group found)
      else (\<lambda>w. case pick_numbers found [] [] (split_byte (CHR '','') sel) of
                  Inl e \<Rightarrow> (Inl e, w) | Inr picked \<Rightarrow> (Inr (group picked), w)))"

definition pickInstances :: "wiz_deps \<Rightarrow> string \<Rightarrow> wiz_source list dialogue" where
  "pickInstances d region =
     (let (found, failure) =
            (case wdListInstances d of
               None \<Rightarrow> ([], [])
             | Some f \<Rightarrow>
                 (case f region of
                    Inl e \<Rightarrow> ([], ''  (could not list instances: '' @ error_text e @ '' '' @ em_dash
                               @ '' falling back to manual entry)'' @ newline)
                  | Inr l \<Rightarrow> (l, [])))
      in and_then (say failure)
           (\<lambda>_. if found = []
                then and_then (say (''  no supported RDS instances visible in '' @ region @ newline))
                       (\<lambda>_. manualInstances)
                else and_then (say (newline @ ''RDS instances in '' @ region @ '':'' @ newline
                                    @ instance_menu found))
                       (\<lambda>_. and_then (ask ''select instances (e.g. 1,3 | a = all | m = manual)'' ''a'')
                              (select_instances found))))"

section \<open>The sink\<close>

definition no_choice :: sink_choice where
  "no_choice = \<lparr>scKind = [], scBucket = [], scBucketRegion = [], scPrefix = [], scBrokers = [],
     scTopic = [], scURL = []\<rparr>"

definition bucket_menu :: "string list \<Rightarrow> string" where
  "bucket_menu bs =
     newline @ ''S3 buckets:'' @ newline
     @ concat (map (\<lambda>(i, b). ''  '' @ pad_left 2 (nat_str (Suc i)) @ '') '' @ b @ newline)
         (List.enumerate 0 bs))"

definition bucket_of :: "string list \<Rightarrow> string \<Rightarrow> string" where
  "bucket_of bs sel =
     (case parse_int sel of
        Some n \<Rightarrow> if n \<ge> 1 \<and> n \<le> int (length bs) then bs ! nat (n - 1) else sel
      | None \<Rightarrow> sel)"

definition listed_bucket :: "wiz_deps \<Rightarrow> string \<Rightarrow> string dialogue" where
  "listed_bucket d region =
     (case wdListBuckets d of
        None \<Rightarrow> answer []
      | Some f \<Rightarrow>
          (case f region of
             Inl e \<Rightarrow> answer []
           | Inr bs \<Rightarrow>
               if bs = [] then answer []
               else and_then (say (bucket_menu bs))
                      (\<lambda>_. and_then (ask ''bucket (number or name)'' []) (\<lambda>sel. answer (bucket_of bs sel)))))"

definition typed_bucket :: "string \<Rightarrow> string dialogue" where
  "typed_bucket bucket =
     (if bucket \<noteq> [] then answer bucket
      else and_then (ask ''S3 bucket name'' [])
             (\<lambda>b. if b = [] then give_up ''a bucket is required'' else answer b))"

definition pickS3 :: "wiz_deps \<Rightarrow> string \<Rightarrow> sink_choice dialogue" where
  "pickS3 d region =
     and_then (listed_bucket d region) (\<lambda>b.
     and_then (typed_bucket b) (\<lambda>bucket.
     and_then (ask ''key prefix'' ''rds/'') (\<lambda>prefix'.
     and_then (ask ''bucket region'' region) (\<lambda>bregion.
       answer (no_choice\<lparr>scKind := ''s3'', scBucket := bucket, scBucketRegion := bregion,
                         scPrefix := prefix'\<rparr>)))))"

definition pickKafka :: "sink_choice dialogue" where
  "pickKafka =
     and_then (ask ''Kafka brokers (comma-separated host:port)'' []) (\<lambda>brokers.
       if comma_list brokers = [] then give_up ''at least one broker is required''
       else and_then (ask ''topic'' ''rds-logs'') (\<lambda>topic.
              answer (no_choice\<lparr>scKind := ''kafka'', scBrokers := comma_list brokers, scTopic := topic\<rparr>)))"

definition sink_menu :: string where
  "sink_menu =
     newline @ ''Where should the logs go?'' @ newline
     @ ''   1) S3          '' @ em_dash @ '' cheap durable archive (the classic use)'' @ newline
     @ ''   2) Kafka       '' @ em_dash @ '' stream into your existing pipeline'' @ newline
     @ ''   3) HTTP        '' @ em_dash @ '' POST batches to Datadog / Axiom / any webhook'' @ newline
     @ ''   4) stdout      '' @ em_dash @ '' pipe to vector / fluent-bit / jq, zero setup'' @ newline"

definition pickSink :: "wiz_deps \<Rightarrow> string \<Rightarrow> sink_choice dialogue" where
  "pickSink d region =
     and_then (say sink_menu) (\<lambda>_.
     and_then (ask ''sink'' ''1'') (\<lambda>sel.
       let s = to_lower sel in
       if s = ''1'' \<or> s = ''s3'' then pickS3 d region
       else if s = ''2'' \<or> s = ''kafka'' then pickKafka
       else if s = ''3'' \<or> s = ''http'' then
         and_then (ask ''webhook URL (see docs/integrations/ for vendor recipes)'' []) (\<lambda>url.
           if url = [] then give_up ''a URL is required''
           else answer (no_choice\<lparr>scKind := ''http'', scURL := url\<rparr>))
       else if s = ''4'' \<or> s = ''stdout'' then answer (no_choice\<lparr>scKind := ''stdout''\<rparr>)
       else give_up (''unknown sink choice '' @ go_quote sel)))"

section \<open>The configuration\<close>

definition quoteList :: "string list \<Rightarrow> string" where
  "quoteList items = join_str '', '' (map go_quote items)"

definition yaml_line :: "nat \<Rightarrow> string \<Rightarrow> string" where
  "yaml_line indent s = replicate indent (CHR '' '') @ s @ newline"

definition source_yaml :: "string \<Rightarrow> wiz_source \<Rightarrow> string" where
  "source_yaml region s =
     yaml_line 2 ''- type: rds''
     @ yaml_line 4 (''engine: '' @ zsEngine s)
     @ yaml_line 4 (''region: '' @ go_quote region)
     @ yaml_line 4 (''instances: ['' @ quoteList (zsInstances s) @ '']'')"

definition sink_yaml :: "sink_choice \<Rightarrow> string" where
  "sink_yaml c =
     (if scKind c = ''s3'' then
        yaml_line 2 ''- name: s3-archive'' @ yaml_line 4 ''type: s3'' @ yaml_line 4 ''s3:''
        @ yaml_line 6 (''bucket: '' @ go_quote (scBucket c))
        @ yaml_line 6 (''prefix: '' @ go_quote (scPrefix c))
        @ yaml_line 6 (''region: '' @ go_quote (scBucketRegion c))
      else if scKind c = ''kafka'' then
        yaml_line 2 ''- name: kafka'' @ yaml_line 4 ''type: kafka'' @ yaml_line 4 ''kafka:''
        @ yaml_line 6 (''brokers: ['' @ quoteList (scBrokers c) @ '']'')
        @ yaml_line 6 (''topic: '' @ go_quote (scTopic c))
      else if scKind c = ''http'' then
        yaml_line 2 ''- name: webhook'' @ yaml_line 4 ''type: http'' @ yaml_line 4 ''http:''
        @ yaml_line 6 (''url: '' @ go_quote (scURL c))
        @ yaml_line 6 ''gzip: true''
        @ yaml_line 6 ''# auth header? keep the secret in the environment:''
        @ yaml_line 6 ''# headers:''
        @ yaml_line 6 ''#   Authorization: Bearer ${API_TOKEN}''
      else if scKind c = ''stdout'' then
        yaml_line 2 ''- name: pipe'' @ yaml_line 4 ''type: stdout'' @ yaml_line 4 ''stdout:''
        @ yaml_line 6 ''format: ndjson''
      else [])"

definition render :: "string \<Rightarrow> wiz_source list \<Rightarrow> sink_choice \<Rightarrow> string" where
  "render region sources c =
     yaml_line 0 (''# Generated by `rdstail init`. Full reference: README.md#configuration'')
     @ yaml_line 0 ''sources:''
     @ concat (map (source_yaml region) sources)
     @ newline @ yaml_line 0 ''sinks:'' @ sink_yaml c
     @ newline @ yaml_line 0 ''state:'' @ yaml_line 2 ''type: sqlite'' @ yaml_line 2 ''path: ./rdstail-state.db''
     @ newline @ yaml_line 0 ''runtime:'' @ yaml_line 2 ''poll_interval: 10s''
     @ yaml_line 2 (''start_from: end   # tail from now; '' @ [CHR 0x22] @ ''beginning'' @ [CHR 0x22]
         @ '' replays retained history'')
     @ (if scKind c = ''stdout''
        then newline @ yaml_line 0 ''metrics:'' @ yaml_line 2 ''enabled: false   # keep the process pipe-friendly''
        else newline @ yaml_line 0 ''metrics:'' @ yaml_line 2 ''enabled: true'' @ yaml_line 2 ''listen: :9090'')"

section \<open>Run\<close>

definition confirm_overwrite :: "wiz_deps \<Rightarrow> string \<Rightarrow> unit dialogue" where
  "confirm_overwrite d path =
     (case wdFileExists d of
        None \<Rightarrow> answer ()
      | Some ex \<Rightarrow>
          if \<not> ex path then answer ()
          else and_then (ask (path @ '' exists '' @ em_dash @ '' overwrite? (y/N)'') ''n'')
                 (\<lambda>ok. if to_lower ok \<noteq> ''y'' \<and> to_lower ok \<noteq> ''yes''
                       then give_up (''aborted: '' @ path @ '' already exists'') else answer ()))"

definition wizard_Run :: "wiz_deps \<Rightarrow> string \<Rightarrow> string \<Rightarrow> wiz_result dialogue" where
  "wizard_Run d defaultRegion defaultPath =
     and_then (say (''rdstail init '' @ em_dash
        @ '' a working config in five questions. Enter accepts the [default].'' @ newline @ newline)) (\<lambda>_.
     and_then (ask ''AWS region'' defaultRegion) (\<lambda>region.
     if region = [] then give_up ''a region is required''
     else and_then (pickInstances d region) (\<lambda>sources.
          and_then (pickSink d region) (\<lambda>c.
          and_then (ask ''write config to'' defaultPath) (\<lambda>path.
          and_then (confirm_overwrite d path) (\<lambda>_.
            answer \<lparr>wrPath = path, wrYAML = render region sources c\<rparr>))))))"

section \<open>Lemmas\<close>

lemma and_then_Inr:
  "and_then m f w = (Inr b, w') \<longleftrightarrow> (\<exists>a w1. m w = (Inr a, w1) \<and> f a w1 = (Inr b, w'))"
  by (auto simp: and_then_def split: prod.splits sum.splits)

lemma answer_Inr [simp]: "answer a w = (Inr b, w') \<longleftrightarrow> a = b \<and> w = w'"
  by (simp add: answer_def)

lemma give_up_Inr [simp]: "give_up msg w \<noteq> (Inr b, w')"
  by (simp add: give_up_def)

lemma say_Inr [simp]: "say s w = (Inr u, w') \<longleftrightarrow> w' = w\<lparr>wzOut := wzOut w @ s\<rparr>"
  by (auto simp: say_def)

lemma ask_Inr:
  "ask prompt dflt w = (Inr a, w') \<Longrightarrow>
     \<exists>l. wzLines w = l # wzLines w' \<and> a = (if trim_space l = [] then dflt else trim_space l)"
  by (auto simp: ask_def Let_def split: list.splits)

text \<open>group neither loses nor repeats an instance.\<close>

lemma mset_concat_groups:
  "distinct es \<Longrightarrow> set (map g xs) \<subseteq> set es \<Longrightarrow>
     mset (concat (map (\<lambda>e. map f (filter (\<lambda>x. g x = e) xs)) es)) = mset (map f xs)"
proof (induction xs)
  case (Cons x xs)
  have "mset (concat (map (\<lambda>e. map f (filter (\<lambda>y. g y = e) (x # xs))) es))
      = mset (concat (map (\<lambda>e. map f (filter (\<lambda>y. g y = e) xs)) es)) + {#f x#}"
    if "distinct es" "g x \<in> set es" for es
    using that
  proof (induction es)
    case (Cons e es)
    show ?case
    proof (cases "g x = e")
      case True
      then have "concat (map (\<lambda>e. map f (filter (\<lambda>y. g y = e) (x # xs))) es)
          = concat (map (\<lambda>e. map f (filter (\<lambda>y. g y = e) xs)) es)"
        using Cons.prems(1) by (intro arg_cong [of _ _ concat] map_cong) auto
      then show ?thesis using True by (simp only: list.map concat.simps) simp
    next
      case False
      then show ?thesis using Cons by simp
    qed
  qed simp
  then show ?case using Cons by simp
qed simp

lemma mset_concat_sort: "mset (concat (map (\<lambda>e. sort (h e)) es)) = mset (concat (map h es))"
  by (induction es) simp_all

lemma sort_Nil_iff [simp]: "sort xs = [] \<longleftrightarrow> xs = []"
  by (metis set_empty set_sort)

lemma group_sources:
  "mset (concat (map zsInstances (group insts))) = mset (map wiID insts)"
  "distinct (map zsEngine (group insts))" "sorted (map zsEngine (group insts))"
  "s \<in> set (group insts) \<Longrightarrow> zsInstances s \<noteq> [] \<and> sorted (zsInstances s)
     \<and> (\<forall>i \<in> set (zsInstances s). \<exists>x \<in> set insts. wiID x = i \<and> wiEngine x = zsEngine s)"
proof -
  let ?es = "sort (remdups (map wiEngine insts))"
  have "mset (concat (map (\<lambda>e. map wiID (filter (\<lambda>i. wiEngine i = e) insts)) ?es)) = mset (map wiID insts)"
    by (rule mset_concat_groups) simp_all
  then show "mset (concat (map zsInstances (group insts))) = mset (map wiID insts)"
    using mset_concat_sort [of "\<lambda>e. map wiID (filter (\<lambda>i. wiEngine i = e) insts)" ?es]
    by (simp add: group_def comp_def)
  show "distinct (map zsEngine (group insts))" "sorted (map zsEngine (group insts))"
    by (simp_all add: group_def comp_def)
  show "s \<in> set (group insts) \<Longrightarrow> zsInstances s \<noteq> [] \<and> sorted (zsInstances s)
     \<and> (\<forall>i \<in> set (zsInstances s). \<exists>x \<in> set insts. wiID x = i \<and> wiEngine x = zsEngine s)"
    by (auto simp: group_def filter_empty_conv)
qed

text \<open>A dialogue only reads on.\<close>

definition reads :: "'a dialogue \<Rightarrow> bool" where
  "reads m = (\<forall>w b w'. m w = (Inr b, w') \<longrightarrow> suffix (wzLines w') (wzLines w))"

lemma reads_and_then [intro]:
  assumes "reads m" "\<And>a. reads (f a)"
  shows "reads (and_then m f)"
  unfolding reads_def
proof (intro allI impI)
  fix w b w'
  assume "and_then m f w = (Inr b, w')"
  then obtain a w1 where "m w = (Inr a, w1)" "f a w1 = (Inr b, w')" by (auto simp: and_then_Inr)
  then have "suffix (wzLines w1) (wzLines w)" "suffix (wzLines w') (wzLines w1)"
    using assms by (auto simp: reads_def)
  then show "suffix (wzLines w') (wzLines w)" by (rule suffix_order.trans [rotated])
qed

lemma reads_steps [intro!]: "reads (answer a)" "reads (give_up msg)" "reads (say s)" "reads (ask p q)"
  by (auto simp: reads_def suffix_def dest: ask_Inr)

lemma reads_if [intro]: "reads m \<Longrightarrow> reads m' \<Longrightarrow> reads (if b then m else m')"
  by simp

lemma reads_manual [intro!]: "reads manualInstances"
  unfolding manualInstances_def Let_def by (intro reads_and_then reads_steps reads_if)

lemma reads_select [intro!]: "reads (select_instances found sel)"
  unfolding select_instances_def
  by (intro reads_if reads_manual reads_steps) (auto simp: reads_def split: sum.splits)

lemma reads_pickInstances: "reads (pickInstances d region)"
  unfolding pickInstances_def Let_def case_prod_beta
  by (intro reads_and_then reads_steps reads_if reads_manual reads_select)

lemma reads_listed: "reads (listed_bucket d region)"
  unfolding listed_bucket_def
  by (auto split: option.splits sum.splits intro!: reads_and_then)

lemma reads_pickSink: "reads (pickSink d region)"
  unfolding pickSink_def pickS3_def pickKafka_def typed_bucket_def Let_def
  by (intro reads_and_then reads_steps reads_if reads_listed)

lemma reads_suffix: "reads m \<Longrightarrow> m w = (Inr b, w') \<Longrightarrow> suffix (wzLines w') (wzLines w)"
  by (auto simp: reads_def)

text \<open>The sources and the sink of a successful dialogue are complete.\<close>

definition known_engines :: "string set" where
  "known_engines = {''postgres'', ''mysql'', ''mariadb''}"

definition sources_ok :: "wiz_source list \<Rightarrow> bool" where
  "sources_ok ss = (ss \<noteq> [] \<and> distinct (map zsEngine ss)
     \<and> (\<forall>s \<in> set ss. zsInstances s \<noteq> [] \<and> zsEngine s \<in> known_engines))"

definition choice_ok :: "sink_choice \<Rightarrow> bool" where
  "choice_ok c =
     ((scKind c = ''s3'' \<and> scBucket c \<noteq> [] \<and> scBucketRegion c \<noteq> [])
      \<or> (scKind c = ''kafka'' \<and> scBrokers c \<noteq> [] \<and> [] \<notin> set (scBrokers c) \<and> scTopic c \<noteq> [])
      \<or> (scKind c = ''http'' \<and> scURL c \<noteq> []) \<or> scKind c = ''stdout'')"

lemma comma_list_nonblank [simp]: "[] \<notin> set (comma_list s)"
  by (simp add: comma_list_def)

lemma ask_nonempty: "ask p q w = (Inr a, w') \<Longrightarrow> q \<noteq> [] \<Longrightarrow> a \<noteq> []"
  by (auto dest: ask_Inr split: if_splits)

lemma manual_ok: "manualInstances w = (Inr ss, w') \<Longrightarrow> sources_ok ss"
  by (auto simp: manualInstances_def and_then_Inr Let_def sources_ok_def known_engines_def split: if_splits)

lemma group_ok:
  "insts \<noteq> [] \<Longrightarrow> \<forall>i \<in> set insts. wiEngine i \<in> known_engines \<Longrightarrow> sources_ok (group insts)"
  unfolding sources_ok_def using group_sources [where insts = insts]
  by (auto simp: group_def filter_empty_conv)

lemma pick_numbers_ok:
  "pick_numbers found seen picked toks = Inr res \<Longrightarrow> set picked \<subseteq> set found \<Longrightarrow>
     (seen \<noteq> [] \<longrightarrow> picked \<noteq> []) \<Longrightarrow> toks \<noteq> [] \<or> picked \<noteq> [] \<Longrightarrow> res \<noteq> [] \<and> set res \<subseteq> set found"
proof (induction found seen picked toks rule: pick_numbers.induct)
  case (2 found seen picked tok toks)
  then obtain n where n: "parse_int (trim_space tok) = Some n" "\<not> (n < 1 \<or> n > int (length found))"
    by (auto split: option.splits if_splits)
  then have "found ! nat (n - 1) \<in> set found" by (intro nth_mem) auto
  then show ?case using 2 n by (auto split: if_splits)
qed simp

lemma select_ok:
  assumes "select_instances found sel w = (Inr ss, w')" "found \<noteq> []"
    and "\<forall>i \<in> set found. wiEngine i \<in> known_engines"
  shows "sources_ok ss"
proof -
  have "sources_ok (group picked)" if "pick_numbers found [] [] (split_byte (CHR '','') sel) = Inr picked"
    for picked
    using pick_numbers_ok [OF that] split_byte_nonempty assms(3) by (intro group_ok) auto
  then show ?thesis
    using assms manual_ok group_ok [OF assms(2,3)]
    by (auto simp: select_instances_def split: if_splits sum.splits)
qed

lemma pickInstances_ok:
  assumes "pickInstances d region w = (Inr ss, w')"
    and "\<And>f l. wdListInstances d = Some f \<Longrightarrow> f region = Inr l \<Longrightarrow> \<forall>i \<in> set l. wiEngine i \<in> known_engines"
  shows "sources_ok ss"
proof -
  obtain found failure where f: "(case wdListInstances d of
               None \<Rightarrow> ([], [])
             | Some f \<Rightarrow>
                 (case f region of
                    Inl e \<Rightarrow> ([], ''  (could not list instances: '' @ error_text e @ '' '' @ em_dash
                               @ '' falling back to manual entry)'' @ newline)
                  | Inr l \<Rightarrow> (l, []))) = (found, failure)" by fastforce
  then have k: "\<forall>i \<in> set found. wiEngine i \<in> known_engines"
    using assms(2) by (auto split: option.splits sum.splits)
  show ?thesis
    using assms(1) k manual_ok select_ok unfolding pickInstances_def f Let_def prod.case
    by (auto simp: and_then_Inr split: if_splits)
qed

lemma pickS3_ok: "pickS3 d region w = (Inr c, w') \<Longrightarrow> region \<noteq> [] \<Longrightarrow> choice_ok c"
  by (auto simp: pickS3_def typed_bucket_def and_then_Inr choice_ok_def no_choice_def
      dest!: ask_nonempty [of "''bucket region''" region] split: if_splits)

lemma pickKafka_ok: "pickKafka w = (Inr c, w') \<Longrightarrow> choice_ok c"
  by (auto simp: pickKafka_def and_then_Inr choice_ok_def no_choice_def
      dest!: ask_nonempty [of "''topic''" "''rds-logs''"] split: if_splits)

lemma pickSink_ok:
  assumes "pickSink d region w = (Inr c, w')" "region \<noteq> []"
  shows "choice_ok c"
  using assms pickS3_ok pickKafka_ok
  unfolding pickSink_def and_then_Inr Let_def
  by (elim exE conjE) (auto simp: and_then_Inr choice_ok_def no_choice_def split: if_splits)

section \<open>Properties\<close>

lemma confirm_overwrite_Inr:
  assumes "confirm_overwrite d path w = (Inr (), w')" "wdFileExists d = Some ex" "ex path"
  shows "\<exists>a. wzLines w = a # wzLines w' \<and> to_lower (trim_space a) \<in> {''y'', ''yes''}"
proof -
  obtain ok where "ask (path @ '' exists '' @ em_dash @ '' overwrite? (y/N)'') ''n'' w = (Inr ok, w')"
      "to_lower ok \<in> {''y'', ''yes''}"
    using assms by (auto simp: confirm_overwrite_def and_then_Inr split: if_splits)
  then show ?thesis
    using ask_Inr [of _ "''n''" w ok w'] by (fastforce simp: to_lower_def to_lower_char_def split: if_splits)
qed

text \<open>The parts of a run that succeeded.\<close>

lemma wizard_Run_parts:
  assumes "wizard_Run d dr dp w = (Inr res, w')"
  obtains region sources c w1 w2 w3 w4 where
    "suffix (wzLines w1) (wzLines w)" "region \<noteq> []"
    "pickInstances d region w1 = (Inr sources, w2)" "pickSink d region w2 = (Inr c, w3)"
    "suffix (wzLines w4) (wzLines w3)" "confirm_overwrite d (wrPath res) w4 = (Inr (), w')"
    "wrYAML res = render region sources c"
proof -
  obtain u w0 region w1 sources w2 c w3 path w4 where s: "say (''rdstail init '' @ em_dash
        @ '' a working config in five questions. Enter accepts the [default].'' @ newline @ newline) w = (Inr u, w0)"
      "ask ''AWS region'' dr w0 = (Inr region, w1)" "region \<noteq> []"
      "pickInstances d region w1 = (Inr sources, w2)" "pickSink d region w2 = (Inr c, w3)"
      "ask ''write config to'' dp w3 = (Inr path, w4)" "confirm_overwrite d path w4 = (Inr (), w')"
      "res = \<lparr>wrPath = path, wrYAML = render region sources c\<rparr>"
    using assms by (auto simp: wizard_Run_def and_then_Inr simp del: say_Inr split: if_splits)
  have "suffix (wzLines w1) (wzLines w)"
    using reads_suffix [OF reads_steps(3) s(1)] reads_suffix [OF reads_steps(4) s(2)]
    by (rule suffix_order.trans [rotated])
  then show ?thesis using that s reads_suffix [OF reads_steps(4) s(6)] by auto
qed

text \<open>C37. The wizard never replaces a file behind the user's back: when it returns a path that
  exists, the last line it read was the answer y or yes.\<close>

theorem wizard_never_clobbers:
  assumes "wizard_Run d dr dp w = (Inr res, w')" "wdFileExists d = Some ex" "ex (wrPath res)"
  shows "\<exists>pre a. wzLines w = pre @ a # wzLines w' \<and> to_lower (trim_space a) \<in> {''y'', ''yes''}"
proof -
  obtain region sources c w1 w2 w3 w4 where s: "suffix (wzLines w1) (wzLines w)"
      "pickInstances d region w1 = (Inr sources, w2)" "pickSink d region w2 = (Inr c, w3)"
      "suffix (wzLines w4) (wzLines w3)" "confirm_overwrite d (wrPath res) w4 = (Inr (), w')"
    using wizard_Run_parts [OF assms(1)] by metis
  obtain a where a: "wzLines w4 = a # wzLines w'" "to_lower (trim_space a) \<in> {''y'', ''yes''}"
    using confirm_overwrite_Inr [OF s(5) assms(2,3)] by blast
  have "suffix (wzLines w4) (wzLines w)"
    using s(1,4) reads_suffix [OF reads_pickInstances s(2)] reads_suffix [OF reads_pickSink s(3)]
    by (meson suffix_order.trans)
  then show ?thesis using a by (auto simp: suffix_def)
qed

theorem wizard_never_clobbers_witness:
  "\<exists>res w'. wizard_Run \<lparr>wdListInstances = None, wdListBuckets = None, wdFileExists = Some (\<lambda>_. True)\<rparr> ''r''
       ''c.yaml'' \<lparr>wzLines = [[], ''db'', [], ''4'', [], ''Yes'', ''more''], wzErr = None, wzOut = []\<rparr> = (Inr res, w')
     \<and> wzLines w' = [''more''] \<and> wrPath res = ''c.yaml''"
proof -
  let ?d = "\<lparr>wdListInstances = None, wdListBuckets = None, wdFileExists = Some (\<lambda>_. True)\<rparr>"
  let ?w = "\<lparr>wzLines = [[], ''db'', [], ''4'', [], ''Yes'', ''more''], wzErr = None, wzOut = []\<rparr>"
  obtain res w' where r: "wizard_Run ?d ''r'' ''c.yaml'' ?w = (Inr res, w')" "wzLines w' = [''more'']"
      "wrPath res = ''c.yaml''"
    by (simp add: wizard_Run_def and_then_def say_def ask_def pickInstances_def manualInstances_def
        pickSink_def confirm_overwrite_def answer_def give_up_def comma_list_def trim_space_def is_space_def
        to_lower_def to_lower_char_def Let_def char_of_def bit_0)
  show ?thesis using wizard_never_clobbers [OF r(1)] r by auto
qed

text \<open>What the wizard renders is complete: at least one source, each with an engine rdstail knows
  and at least one instance, no engine twice, and one sink with every field its type requires,
  provided the listing of the account names known engines only.\<close>

lemma wizard_config_complete:
  assumes "wizard_Run d dr dp w = (Inr res, w')"
    and "\<And>f region l. wdListInstances d = Some f \<Longrightarrow> f region = Inr l \<Longrightarrow>
           \<forall>i \<in> set l. wiEngine i \<in> {''postgres'', ''mysql'', ''mariadb''}"
  shows "\<exists>region sources c. wrYAML res = render region sources c \<and> region \<noteq> [] \<and> sources \<noteq> []
    \<and> distinct (map zsEngine sources)
    \<and> (\<forall>s \<in> set sources. zsInstances s \<noteq> [] \<and> zsEngine s \<in> {''postgres'', ''mysql'', ''mariadb''})
    \<and> ((scKind c = ''s3'' \<and> scBucket c \<noteq> [] \<and> scBucketRegion c \<noteq> [])
       \<or> (scKind c = ''kafka'' \<and> scBrokers c \<noteq> [] \<and> [] \<notin> set (scBrokers c) \<and> scTopic c \<noteq> [])
       \<or> (scKind c = ''http'' \<and> scURL c \<noteq> []) \<or> scKind c = ''stdout'')"
proof -
  obtain region sources c w1 w2 w3 where s: "region \<noteq> []" "pickInstances d region w1 = (Inr sources, w2)"
      "pickSink d region w2 = (Inr c, w3)" "wrYAML res = render region sources c"
    using wizard_Run_parts [OF assms(1)] by metis
  have "sources_ok sources" by (rule pickInstances_ok [OF s(2)]) (use assms(2) in \<open>auto simp: known_engines_def\<close>)
  moreover have "choice_ok c" by (rule pickSink_ok [OF s(3,1)])
  ultimately show ?thesis using s(1,4) unfolding sources_ok_def choice_ok_def known_engines_def by blast
qed

lemma wizard_config_complete_witness:
  "\<exists>res w' region sources c.
     wizard_Run \<lparr>wdListInstances = None, wdListBuckets = None, wdFileExists = None\<rparr> ''r''
       ''c.yaml'' \<lparr>wzLines = [[], ''db'', [], ''4'', []], wzErr = None, wzOut = []\<rparr> = (Inr res, w')
     \<and> wrYAML res = render region sources c \<and> sources \<noteq> []"
proof -
  let ?d = "\<lparr>wdListInstances = None, wdListBuckets = None, wdFileExists = None\<rparr>"
  let ?w = "\<lparr>wzLines = [[], ''db'', [], ''4'', []], wzErr = None, wzOut = []\<rparr>"
  obtain res w' where r: "wizard_Run ?d ''r'' ''c.yaml'' ?w = (Inr res, w')"
    by (simp add: wizard_Run_def and_then_def say_def ask_def pickInstances_def manualInstances_def
        pickSink_def confirm_overwrite_def answer_def give_up_def comma_list_def trim_space_def is_space_def
        to_lower_def to_lower_char_def Let_def char_of_def bit_0)
  show ?thesis using wizard_config_complete [OF r] r by auto
qed

text \<open>A URL without a scheme goes through the wizard, and validation then rejects it.\<close>

lemma wizard_accepts_bad_url:
  assumes "trim_space url = url" "url \<noteq> []" "\<not> has_prefix url ''http://''" "\<not> has_prefix url ''https://''"
    and "csType s = ''http''" "csHTTP s = Some h" "htURL h = url"
  shows "\<exists>w'. pickSink d region \<lparr>wzLines = [''3'', url], wzErr = None, wzOut = out\<rparr>
      = (Inr (no_choice\<lparr>scKind := ''http'', scURL := url\<rparr>), w')"
    "validateSinkShape p s \<noteq> []"
  using assms
  by (simp_all add: pickSink_def and_then_def say_def ask_def answer_def Let_def to_lower_def
      to_lower_char_def trim_space_def is_space_def char_of_def bit_0 validateSinkShape_def chk_def)

end
