(* ===== verification/Dump.thy ===== *)
theory Dump
  imports Sim Discovery
begin

text \<open>
  internal/cli/dump.go: the one-shot fetch of a window of logs, and from internal/cli/tail.go
  the engine detection it shares with tail.  A dump reads every file from its beginning to its
  end and holds the newest record back until the next chunk tells whether it goes on.
\<close>

section \<open>Engine detection\<close>

text \<open>The argument is DescribeDBInstances for one identifier.\<close>

definition detectEngine ::
    "(string \<Rightarrow> 'w \<Rightarrow> (go_err + db_instance list) \<times> 'w) \<Rightarrow> string \<Rightarrow> string \<Rightarrow> 'w
       \<Rightarrow> (go_err + string) \<times> 'w" where
  "detectEngine describe inst region w =
     (case describe inst w of
        (Inl e, w1) \<Rightarrow> (Inl (Wrapped (''describe '' @ inst) e), w1)
      | (Inr [], w1) \<Rightarrow> (Inl (ErrMsg (''instance '' @ go_quote inst @ '' not found in '' @ region)), w1)
      | (Inr (db # _), w1) \<Rightarrow>
          (let engine = NormalizeEngine (dbiEngine db) in
           if engine = []
           then (Inl (ErrMsg (''instance '' @ go_quote inst @ '' runs '' @ go_quote (dbiEngine db)
                        @ '', which rdstail cannot tail'')), w1)
           else (Inr engine, w1)))"

section \<open>The sinks of a dump\<close>

text \<open>The counter of countingSink is beside the world.\<close>

type_synonym 'w counted = "'w \<times> int"

definition counting_Write ::
    "'w sink \<Rightarrow> logrecord list \<Rightarrow> 'w counted \<Rightarrow> go_err option \<times> 'w counted" where
  "counting_Write s rs st =
     (case skWrite s rs (fst st) of (r, w1) \<Rightarrow> (r, (w1, snd st + int (length rs))))"

definition counting_sink :: "'w sink \<Rightarrow> 'w counted sink" where
  "counting_sink s = \<lparr>skName = skName s, skType = skType s, skWrite = counting_Write s,
     skClose = (\<lambda>st. case skClose s (fst st) of (r, w1) \<Rightarrow> (r, (w1, snd st)))\<rparr>"

definition dump_sink ::
    "'w sink \<Rightarrow> (string \<Rightarrow> bool) option \<Rightarrow> time \<Rightarrow> 'w counted sink" where
  "dump_sink out grepRE cutoff = WithSince (WithGrep (counting_sink out) grepRE) cutoff"

section \<open>One file\<close>

definition dump_join ::
    "bool \<Rightarrow> logrecord list \<Rightarrow> logrecord list \<Rightarrow> logrecord list \<times> logrecord list" where
  "dump_join leading held recs =
     (if leading \<and> recs \<noteq> [] \<and> held \<noteq> [] then
        (case JoinContinuation (hd held) (hd recs) of
           (joined, ok) \<Rightarrow> if ok then (joined # tl held, tl recs) else (held, recs))
      else (held, recs))"

text \<open>What a chunk lets the dump write, and the record it holds back.\<close>

definition dump_batch :: "logrecord list \<Rightarrow> chunk \<Rightarrow> logrecord list \<times> logrecord list" where
  "dump_batch held ch =
     (let recs = stamp (chNextMarker ch) (chBatchID ch) (chRecords ch);
          (held1, recs1) = dump_join (chLeading ch) held recs;
          batch = held1 @ recs1
      in if chPending ch \<and> batch \<noteq> [] then (butlast batch, [last batch]) else (batch, []))"

partial_function (option) dump_file ::
    "'w fetcher \<Rightarrow> 'w counted sink \<Rightarrow> ('w \<Rightarrow> go_err option) \<Rightarrow> string \<Rightarrow> string
       \<Rightarrow> logrecord list \<Rightarrow> 'w counted \<Rightarrow> (go_err option \<times> 'w counted) option" where
  "dump_file f s ctx logFile marker held st =
     (case ctx (fst st) of
        Some e \<Rightarrow> Some (Some e, st)
      | None \<Rightarrow>
          (case PullPortion f logFile marker (fst st) of
             (Inl e, w1) \<Rightarrow> Some (Some e, (w1, snd st))
           | (Inr ch, w1) \<Rightarrow>
               (case skWrite s (fst (dump_batch held ch)) (w1, snd st) of
                  (Some e, st2) \<Rightarrow> Some (Some e, st2)
                | (None, st2) \<Rightarrow>
                    if \<not> chPending ch then Some (None, st2)
                    else dump_file f s ctx logFile (chNextMarker ch) (snd (dump_batch held ch)) st2)))"

section \<open>The command\<close>

fun dump_files ::
    "'w fetcher \<Rightarrow> 'w counted sink \<Rightarrow> ('w \<Rightarrow> go_err option) \<Rightarrow> time \<Rightarrow> file_meta list \<Rightarrow> nat
       \<Rightarrow> 'w counted \<Rightarrow> ((go_err + nat) \<times> 'w counted) option" where
  "dump_files f s ctx cutoff [] n st = Some (Inr n, st)"
| "dump_files f s ctx cutoff (file # files) n st =
     (if \<not> is_zero_time (LastWritten file) \<and> LastWritten file < cutoff
      then dump_files f s ctx cutoff files n st
      else (case dump_file f s ctx (fmName file) MarkerBeginning [] st of
              None \<Rightarrow> None
            | Some (Some e, st1) \<Rightarrow> Some (Inl e, st1)
            | Some (None, st1) \<Rightarrow> dump_files f s ctx cutoff files (Suc n) st1))"

text \<open>
  The flags, and what the command needs of the outside: the environment variable, the compiler
  of patterns, AWS, the order sort.Slice leaves the files in, the output file and the closers
  behind it (gzip before the file).
\<close>

record dump_opts =
  doInstances :: "string list"
  doRegion :: string
  doEngine :: string
  doAssumeRole :: string
  doFormat :: string
  doGrep :: string
  doSince :: duration
  doOutput :: string

record 'w dump_env =
  deGetenv :: "string \<Rightarrow> string"
  deCompile :: "string \<Rightarrow> go_err + (string \<Rightarrow> bool)"
  deAws :: "string \<Rightarrow> string \<Rightarrow> go_err option"
  deApi :: "'w rds_api"
  deDescribe :: "string \<Rightarrow> 'w \<Rightarrow> (go_err + db_instance list) \<times> 'w"
  deNow :: "'w \<Rightarrow> time"
  deCtx :: "'w \<Rightarrow> go_err option"
  deSort :: "file_meta list \<Rightarrow> file_meta list"
  deCreate :: "string \<Rightarrow> 'w \<Rightarrow> go_err option \<times> 'w"
  deCloseGzip :: "string \<Rightarrow> 'w \<Rightarrow> go_err option \<times> 'w"
  deCloseFile :: "string \<Rightarrow> 'w \<Rightarrow> go_err option \<times> 'w"
  deStdout :: "string \<Rightarrow> stdout_sink \<Rightarrow> 'w sink"

fun dump_instances ::
    "'w dump_env \<Rightarrow> string \<Rightarrow> string \<Rightarrow> 'w counted sink \<Rightarrow> time \<Rightarrow> string list \<Rightarrow> nat
       \<Rightarrow> 'w counted \<Rightarrow> ((go_err + nat) \<times> 'w counted) option" where
  "dump_instances de region engine s cutoff [] n st = Some (Inr n, st)"
| "dump_instances de region engine s cutoff (inst # insts) n st =
     (case (if engine \<noteq> [] then (Inr engine, fst st)
            else detectEngine (deDescribe de) inst region (fst st)) of
        (Inl e, w1) \<Rightarrow> Some (Inl e, (w1, snd st))
      | (Inr eng, w1) \<Rightarrow>
          (case NewFetcher \<lparr>foAPI = Some (deApi de), foInstanceID = inst, foEngine = eng,
                   foIncludeAudit = False, foClock = None, foObserver = None\<rparr> (deNow de) of
             Inl e \<Rightarrow> Some (Inl e, (w1, snd st))
           | Inr f \<Rightarrow>
               (case DiscoverFiles f w1 of
                  None \<Rightarrow> None
                | Some (Inl e, w2) \<Rightarrow> Some (Inl e, (w2, snd st))
                | Some (Inr files, w2) \<Rightarrow>
                    (case dump_files f s (deCtx de) cutoff (deSort de files) n (w2, snd st) of
                       None \<Rightarrow> None
                     | Some (Inl e, st3) \<Rightarrow> Some (Inl e, st3)
                     | Some (Inr n3, st3) \<Rightarrow> dump_instances de region engine s cutoff insts n3 st3))))"

definition dump_check :: "'w dump_env \<Rightarrow> dump_opts \<Rightarrow> go_err + string \<times> (string \<Rightarrow> bool) option" where
  "dump_check de o' =
     (let region = (if doRegion o' = [] then deGetenv de ''AWS_REGION'' else doRegion o') in
      if doInstances o' = [] then Inl (ErrMsg ''--instance is required'')
      else if region = [] then Inl (ErrMsg ''--region is required (or set AWS_REGION)'')
      else if doSince o' \<le> 0 then Inl (ErrMsg ''--since must be positive (e.g. 24h)'')
      else if doGrep o' = [] then Inr (region, None)
      else (case deCompile de (doGrep o') of
              Inl e \<Rightarrow> Inl (Wrapped ''--grep'' e) | Inr m \<Rightarrow> Inr (region, Some m)))"

definition to_file :: "dump_opts \<Rightarrow> bool" where
  "to_file o' = (doOutput o' \<noteq> [] \<and> doOutput o' \<noteq> ''-'')"

text \<open>Close the sink, then the closers, the last one added first.\<close>

definition dump_close :: "'w dump_env \<Rightarrow> dump_opts \<Rightarrow> 'w sink \<Rightarrow> 'w \<Rightarrow> go_err option \<times> 'w" where
  "dump_close de o' out w =
     (case skClose out w of
        (Some e, w1) \<Rightarrow> (Some e, w1)
      | (None, w1) \<Rightarrow>
          if \<not> to_file o' then (None, w1)
          else (case (if has_suffix (doOutput o') ''.gz'' then deCloseGzip de (doOutput o') w1
                      else (None, w1)) of
                  (Some e, w2) \<Rightarrow> (Some e, w2)
                | (None, w2) \<Rightarrow> deCloseFile de (doOutput o') w2))"

text \<open>The result is the summary: the records and the files dumped.\<close>

definition dump_run ::
    "'w dump_env \<Rightarrow> dump_opts \<Rightarrow> 'w \<Rightarrow> ((go_err + int \<times> nat) \<times> 'w) option" where
  "dump_run de o' w =
     (case dump_check de o' of
        Inl e \<Rightarrow> Some (Inl e, w)
      | Inr (region, grepRE) \<Rightarrow>
          (case deAws de region (doAssumeRole o') of
             Some e \<Rightarrow> Some (Inl e, w)
           | None \<Rightarrow>
               (let cutoff = deNow de w - doSince o' in
                case (if to_file o' then deCreate de (doOutput o') w else (None, w)) of
                  (Some e, w1) \<Rightarrow> Some (Inl e, w1)
                | (None, w1) \<Rightarrow>
                    (case stdout_New ''dump'' (doFormat o') of
                       Inl e \<Rightarrow> Some (Inl e, w1)
                     | Inr so \<Rightarrow>
                         (let out = deStdout de (doOutput o') so in
                          case dump_instances de region (doEngine o') (dump_sink out grepRE cutoff)
                                 cutoff (doInstances o') 0 (w1, 0) of
                            None \<Rightarrow> None
                          | Some (Inl e, st2) \<Rightarrow> Some (Inl e, fst st2)
                          | Some (Inr n, st2) \<Rightarrow>
                              (case dump_close de o' out (fst st2) of
                                 (Some e, w3) \<Rightarrow> Some (Inl e, w3)
                               | (None, w3) \<Rightarrow> Some (Inr (snd st2, n), w3)))))))"

section \<open>What a dump writes\<close>

text \<open>The records a dump keeps of those it reads.\<close>

definition dump_keep :: "(string \<Rightarrow> bool) option \<Rightarrow> time \<Rightarrow> logrecord \<Rightarrow> bool" where
  "dump_keep grepRE cutoff r =
     ((case grepRE of None \<Rightarrow> True | Some m \<Rightarrow> m (lrMessage r))
      \<and> (is_zero_time cutoff \<or> \<not> lrTimestamp r < cutoff))"

text \<open>A write of the dump sink counts and passes on what it keeps.\<close>

definition dumped ::
    "('w \<Rightarrow> logrecord list) \<Rightarrow> logrecord list \<Rightarrow> 'w counted \<Rightarrow> 'w counted \<Rightarrow> bool" where
  "dumped acc rs st st' = (acc (fst st') = acc (fst st) @ rs \<and> snd st' = snd st + int (length rs))"

lemma counting_Write_ok:
  assumes "sink_contract (skWrite out) acc" "counting_Write out rs st = (r, st')"
  shows "r = None \<Longrightarrow> dumped acc rs st st'" "r \<noteq> None \<Longrightarrow> acc (fst st') = acc (fst st)"
  using assms sink_contract.ack [OF assms(1)] sink_contract.nack [OF assms(1)]
  by (auto simp: counting_Write_def dumped_def split: prod.splits)

lemma dump_sink_filter:
  "skWrite (dump_sink out grepRE cutoff) rs st =
     (if filter (dump_keep grepRE cutoff) rs = [] \<and> (grepRE \<noteq> None \<or> \<not> is_zero_time cutoff)
      then (None, st) else counting_Write out (filter (dump_keep grepRE cutoff) rs) st)"
  by (cases grepRE)
    (auto simp: dump_sink_def WithSince_def WithGrep_def keep_sink_def keep_Write_def counting_sink_def
      dump_keep_def conj_commute filter_empty_conv intro!: arg_cong [of _ _ "\<lambda>x. counting_Write out x st"]
      filter_cong)

lemma dump_sink_Write:
  assumes "sink_contract (skWrite out) acc" "skWrite (dump_sink out grepRE cutoff) rs st = (r, st')"
  shows "r = None \<Longrightarrow> dumped acc (filter (dump_keep grepRE cutoff) rs) st st'"
    "r \<noteq> None \<Longrightarrow> acc (fst st') = acc (fst st)"
  using assms(2) counting_Write_ok [OF assms(1)]
  by (auto simp: dump_sink_filter dumped_def split: if_splits)

lemma dump_join_glue:
  assumes "dump_join leading held recs = (h, rs)" "length held \<le> 1"
    and "cdMsgs c = map lrMessage recs" "cdLeading c = leading"
  shows "map lrMessage (h @ rs) = glue False (map lrMessage held) c"
proof -
  have "join_leading leading False held recs = (h, rs, snd (snd (join_leading leading False held recs)))"
    using assms(1,2) by (cases held) (auto simp: dump_join_def join_leading_def split: prod.splits if_splits)
  from join_leading_glue [OF this assms(3,4), of "[]"] show ?thesis by simp
qed

lemma dump_batch_glue:
  assumes "dump_batch held ch = (batch, held')" "length held \<le> 1"
    and "cdMsgs c = map lrMessage (chRecords ch)" "cdLeading c = chLeading ch"
  shows "map lrMessage (batch @ held') = glue False (map lrMessage held) c" "length held' \<le> 1"
    "\<not> chPending ch \<Longrightarrow> held' = []" "held' = [] \<Longrightarrow> chPending ch \<Longrightarrow> batch = []"
proof -
  obtain h rs where j: "dump_join (chLeading ch) held
      (stamp (chNextMarker ch) (chBatchID ch) (chRecords ch)) = (h, rs)" by fastforce
  have g: "map lrMessage (h @ rs) = glue False (map lrMessage held) c"
    using dump_join_glue [OF j assms(2)] assms(3,4) by simp
  show "map lrMessage (batch @ held') = glue False (map lrMessage held) c"
  proof -
    have "batch @ held' = h @ rs"
      using assms(1) j append_butlast_last_id [of "h @ rs"]
      by (auto simp: dump_batch_def Let_def simp del: append_is_Nil_conv append_butlast_last_id split: if_splits)
    then show ?thesis using g by simp
  qed
  show "length held' \<le> 1" "\<not> chPending ch \<Longrightarrow> held' = []"
      "held' = [] \<Longrightarrow> chPending ch \<Longrightarrow> batch = []"
    using assms(1) j by (auto simp: dump_batch_def Let_def split: if_splits)
qed

lemma PullPortion_frame:
  assumes "\<And>m w r w'. pullRaw f name m w = (r, w') \<Longrightarrow> obs w' = obs w"
    and "PullPortion f name marker w = (x, w')"
  shows "obs w' = obs w"
  using assms(2) assms(1) by (fastforce simp: PullPortion_def split: if_splits prod.splits sum.splits)

text \<open>What a dump of a file has done when it returns: sent is what went through the filters.\<close>

definition dump_done ::
    "('w \<Rightarrow> logrecord list) \<Rightarrow> (logrecord \<Rightarrow> bool) \<Rightarrow> string list \<Rightarrow> go_err option
       \<Rightarrow> 'w counted \<Rightarrow> 'w counted \<Rightarrow> bool" where
  "dump_done acc keep full err st st' =
     (\<exists>sent. prefix (map lrMessage sent) full \<and> acc (fst st') = acc (fst st) @ filter keep sent
        \<and> (err = None \<longrightarrow> map lrMessage sent = full \<and> snd st' = snd st + int (length (filter keep sent))))"

lemma dump_done_err: "acc (fst st') = acc (fst st) \<Longrightarrow> dump_done acc keep full (Some e) st st'"
  unfolding dump_done_def by (intro exI [of _ "[]"]) simp

lemma dump_done_step:
  assumes "dumped acc (filter keep batch) st st1" "dump_done acc keep full err st1 st'"
  shows "dump_done acc keep (map lrMessage batch @ full) err st st'"
proof -
  obtain sent where "prefix (map lrMessage sent) full" "acc (fst st') = acc (fst st1) @ filter keep sent"
      "err = None \<longrightarrow> map lrMessage sent = full \<and> snd st' = snd st1 + int (length (filter keep sent))"
    using assms(2) unfolding dump_done_def by blast
  then show ?thesis
    using assms(1) unfolding dump_done_def dumped_def by (intro exI [of _ "batch @ sent"]) auto
qed

lemma dump_file_done:
  assumes name: "name \<noteq> []"
    and serves: "\<And>m w raw w'. pullRaw f name m w = (Inr raw, w') \<Longrightarrow> raw = R m"
    and frame: "\<And>m w r w'. pullRaw f name m w = (r, w') \<Longrightarrow> acc w' = acc w"
    and sink: "sink_contract (skWrite out) acc"
  shows "chain (chunk_at (ftParser f) R) m cs \<Longrightarrow> length held \<le> 1 \<Longrightarrow>
    \<exists>err st'. dump_file f (dump_sink out grepRE cutoff) ctx name m held st = Some (err, st')
      \<and> dump_done acc (dump_keep grepRE cutoff) (stream False (map lrMessage held) cs) err st st'"
proof (induction cs arbitrary: m held st)
  case (Cons c cs)
  let ?s = "dump_sink out grepRE cutoff"
  obtain p w1 where p: "PullPortion f name m (fst st) = (p, w1)"
    by (cases "PullPortion f name m (fst st)")
  have fr: "acc w1 = acc (fst st)" using PullPortion_frame [OF frame p] .
  show ?case
  proof (cases "ctx (fst st)")
    case (Some e)
    then show ?thesis by (subst dump_file.simps) (auto intro: dump_done_err)
  next
    case None
    note live = None
    show ?thesis
    proof (cases p)
      case (Inl e)
      then show ?thesis using live p fr by (subst dump_file.simps) (auto intro: dump_done_err)
    next
      case (Inr ch)
      obtain raw where raw: "pullRaw f name (if m = [] then MarkerBeginning else m) (fst st) = (Inr raw, w1)"
          "map lrMessage (chRecords ch) = cdMsgs (chunk_data (ftParser f) raw)"
          "chLeading ch = cdLeading (chunk_data (ftParser f) raw)"
          "chNextMarker ch = cdNext (chunk_data (ftParser f) raw)"
          "chPending ch = cdPending (chunk_data (ftParser f) raw)"
        using PullPortion_chunk [OF p [unfolded Inr]] by blast
      have c: "c = chunk_data (ftParser f) raw"
        using chain_hd [OF Cons.prems(1)] serves [OF raw(1)] by (simp add: chunk_at_def)
      obtain batch held' where b: "dump_batch held ch = (batch, held')" by (cases "dump_batch held ch")
      note g = dump_batch_glue [OF b Cons.prems(2), of c]
      obtain r st2 where w: "skWrite ?s batch (w1, snd st) = (r, st2)"
        by (cases "skWrite ?s batch (w1, snd st)")
      note wr = dump_sink_Write [OF sink w]
      show ?thesis
      proof (cases r)
        case (Some e)
        then show ?thesis using live p Inr b w wr(2) fr
          by (subst dump_file.simps) (auto intro: dump_done_err)
      next
        case None
        have d: "dumped acc (filter (dump_keep grepRE cutoff) batch) st st2"
          using wr(1) [OF None] fr by (simp add: dumped_def)
        show ?thesis
        proof (cases "chPending ch")
          case False
          then have cs: "cs = []" using chain_pending [OF Cons.prems(1)] raw(5) c by simp
          have "stream False (map lrMessage held) (c # cs) = map lrMessage batch"
            using g(1,3) False raw c cs by simp
          moreover have "dump_done acc (dump_keep grepRE cutoff) (map lrMessage batch @ []) None st st2"
            using d by (rule dump_done_step) (simp add: dump_done_def)
          ultimately show ?thesis using live p Inr b w None False by (subst dump_file.simps) simp
        next
          case True
          then have cs: "cs \<noteq> []" using chain_pending [OF Cons.prems(1)] raw(5) c by simp
          have nx: "chain (chunk_at (ftParser f) R) (chNextMarker ch) cs"
            using chain_tl [OF Cons.prems(1) cs] raw(4) c by simp
          have l: "length held' \<le> 1" using g(2) raw c by simp
          obtain err st' where ih: "dump_file f ?s ctx name (chNextMarker ch) held' st2 = Some (err, st')"
              "dump_done acc (dump_keep grepRE cutoff) (stream False (map lrMessage held') cs) err st2 st'"
            using Cons.IH [OF nx l] by blast
          have "stream False (map lrMessage held) (c # cs)
              = map lrMessage batch @ stream False (map lrMessage held') cs"
            using g(1,4) True raw c stream_append [of "map lrMessage held'" "map lrMessage batch" cs]
            by (cases "held' = []") auto
          then show ?thesis
            using dump_done_step [OF d ih(2)] ih(1) live p Inr b w None True by (subst dump_file.simps) simp
        qed
      qed
    qed
  qed
qed simp

section \<open>Properties\<close>



end
