(* ===== verification/Cli.thy ===== *)
theory Cli
  imports Deep Wizard IamPolicy Dump Replay
begin

text \<open>
  internal/cli: the commands run, validate, iam-policy, init, dlq, state gc, discover and tail, from
  their flags to what they print and do.  The flag parser (cobra), the file system and AWS are
  arguments; load is config.Load of a path.  Columns are padded by bytes.
\<close>

section \<open>Loading the configuration\<close>

datatype log_level = LevelDebug | LevelInfo | LevelWarn | LevelError

definition parseLevel :: "string \<Rightarrow> log_level" where
  "parseLevel s =
     (let l = to_lower (trim_space s) in
      if l = ''debug'' then LevelDebug
      else if l = ''warn'' \<or> l = ''warning'' then LevelWarn
      else if l = ''error'' \<or> l = ''err'' then LevelError else LevelInfo)"

type_synonym loader = "string \<Rightarrow> go_err + config"

text \<open>The level of the configuration counts only when the flag is at its default.\<close>

definition loadAndInstall :: "loader \<Rightarrow> string \<Rightarrow> string \<Rightarrow> go_err + config \<times> log_level" where
  "loadAndInstall load path level =
     (if path = [] then Inl (ErrMsg ''--config is required'')
      else (case load path of
              Inl e \<Rightarrow> Inl e
            | Inr cfg \<Rightarrow>
                (case Validate cfg of
                   Some e \<Rightarrow> Inl e
                 | None \<Rightarrow>
                     Inr (cfg, parseLevel (if level = ''info'' \<and> cfLoggingLevel cfg \<noteq> [] then cfLoggingLevel cfg
                                           else level)))))"

section \<open>run\<close>

definition run_config :: "loader \<Rightarrow> string \<Rightarrow> string \<Rightarrow> string \<Rightarrow> go_err + config \<times> log_level" where
  "run_config load path level shardFlag =
     (case loadAndInstall load path level of
        Inl e \<Rightarrow> Inl e
      | Inr (cfg, lvl) \<Rightarrow>
          if shardFlag = [] then Inr (cfg, lvl)
          else (case shard_Parse shardFlag of
                  Inl e \<Rightarrow> Inl e
                | Inr _ \<Rightarrow> Inr (cfg\<lparr>cfRuntime := (cfRuntime cfg)\<lparr>rtShard := shardFlag\<rparr>\<rparr>, lvl)))"

definition run_start ::
    "'w opened registry \<Rightarrow> 'w outside \<Rightarrow> 'w env \<Rightarrow> 'w probe \<Rightarrow> 'w aws \<Rightarrow> loader \<Rightarrow> string \<Rightarrow> string \<Rightarrow> string
       \<Rightarrow> 'w \<Rightarrow> ((go_err + 'w started) \<times> 'w) option" where
  "run_start reg os en probe aws load path level shardFlag w =
     (case run_config load path level shardFlag of
        Inl e \<Rightarrow> Some (Inl e, w)
      | Inr (cfg, _) \<Rightarrow> app_start reg os en probe aws cfg w)"

section \<open>validate\<close>

text \<open>The error of a command, and what it wrote to its two outputs.\<close>

record outcome =
  ocErr :: "go_err option"
  ocOut :: string
  ocErrOut :: string

definition failed_with :: "go_err \<Rightarrow> outcome" where
  "failed_with e = \<lparr>ocErr = Some e, ocOut = [], ocErrOut = []\<rparr>"

definition said :: "string \<Rightarrow> outcome" where
  "said s = \<lparr>ocErr = None, ocOut = s, ocErrOut = []\<rparr>"

definition loadValid :: "loader \<Rightarrow> string \<Rightarrow> go_err + config" where
  "loadValid load path =
     (if path = [] then Inl (ErrMsg ''--config is required'')
      else (case load path of
              Inl e \<Rightarrow> Inl e
            | Inr cfg \<Rightarrow>
                (case Validate cfg of
                   Some e \<Rightarrow> Inl (Wrapped (''schema validation failed:'' @ newline) e) | None \<Rightarrow> Inr cfg)))"

fun report_checks :: "check list \<Rightarrow> nat \<times> string \<times> string" where
  "report_checks [] = (0, [], [])"
| "report_checks (r # rs) =
     (case report_checks rs of
        (n, out, err) \<Rightarrow>
          (case ckErr r of
             None \<Rightarrow> (n, ''  OK   '' @ ckName r @ newline @ out, err)
           | Some e \<Rightarrow> (Suc n, out, ''  FAIL '' @ ckName r @ '': '' @ error_text e @ newline @ err)))"

definition validate_run ::
    "'w services \<Rightarrow> 'w opened registry \<Rightarrow> loader \<Rightarrow> string \<Rightarrow> bool \<Rightarrow> 'w \<Rightarrow> outcome \<times> 'w" where
  "validate_run sv reg load path deep w =
     (case loadValid load path of
        Inl e \<Rightarrow> (failed_with e, w)
      | Inr cfg \<Rightarrow>
          if \<not> deep then (said (''schema OK'' @ newline), w)
          else (case Deep sv reg cfg w of
                  (results, w1) \<Rightarrow>
                    (case report_checks results of
                       (failed, out, err) \<Rightarrow>
                         if failed > 0
                         then (\<lparr>ocErr = Some (ErrMsg (nat_str failed @ '' deep check(s) failed'')),
                                ocOut = ''schema OK'' @ newline @ out, ocErrOut = err\<rparr>, w1)
                         else (\<lparr>ocErr = None, ocOut = ''schema OK'' @ newline @ out @ ''deep OK'' @ newline,
                                ocErrOut = err\<rparr>, w1))))"

section \<open>iam-policy\<close>

definition iam_policy_run ::
    "loader \<Rightarrow> (policy \<Rightarrow> go_err + string) \<Rightarrow> string \<Rightarrow> bool \<Rightarrow> bool \<Rightarrow> outcome" where
  "iam_policy_run load json path deep terraform =
     (case loadValid load path of
        Inl e \<Rightarrow> failed_with e
      | Inr cfg \<Rightarrow>
          (case Generate cfg deep of
             (pol, notes') \<Rightarrow>
               (case (if terraform then Inr (Terraform pol) else map_sum id (\<lambda>s. s @ newline) (json pol)) of
                  Inl e \<Rightarrow> failed_with e
                | Inr out \<Rightarrow>
                    \<lparr>ocErr = None, ocOut = out,
                     ocErrOut = concat (map (\<lambda>n. ''note: '' @ n @ newline) notes')\<rparr>)))"

section \<open>init\<close>

text \<open>The wizard, the file it writes, and the check of that file through the loader.\<close>

record 'w init_env =
  inGetenv :: "string \<Rightarrow> string"
  inWriteFile :: "string \<Rightarrow> string \<Rightarrow> 'w \<Rightarrow> go_err option \<times> 'w"
  inLoad :: "string \<Rightarrow> 'w \<Rightarrow> go_err + config"

definition init_region :: "'w init_env \<Rightarrow> string \<Rightarrow> string" where
  "init_region ie region =
     (if region \<noteq> [] then region
      else if inGetenv ie ''AWS_REGION'' \<noteq> [] then inGetenv ie ''AWS_REGION''
      else inGetenv ie ''AWS_DEFAULT_REGION'')"

definition init_next :: "string \<Rightarrow> string" where
  "init_next path =
     newline @ ''wrote '' @ path @ '' (validated)'' @ newline @ newline @ ''next:'' @ newline
     @ ''  rdstail iam-policy -c '' @ path @ ''          # least-privilege IAM policy for this config'' @ newline
     @ ''  rdstail validate -c '' @ path @ '' --deep     # probe AWS + the sink end to end'' @ newline
     @ ''  rdstail run -c '' @ path @ ''                 # start shipping'' @ newline"

definition init_run ::
    "'w init_env \<Rightarrow> wiz_deps \<Rightarrow> string \<Rightarrow> string \<Rightarrow> wizard \<Rightarrow> 'w \<Rightarrow> outcome \<times> wizard \<times> 'w" where
  "init_run ie deps region output wz w =
     (case wizard_Run deps (init_region ie region) output wz of
        (Inl e, wz1) \<Rightarrow> (failed_with e, wz1, w)
      | (Inr res, wz1) \<Rightarrow>
          (case inWriteFile ie (wrPath res) (wrYAML res) w of
             (Some e, w1) \<Rightarrow> (failed_with (Wrapped (''write '' @ wrPath res) e), wz1, w1)
           | (None, w1) \<Rightarrow>
               (case (case inLoad ie (wrPath res) w1 of Inl e \<Rightarrow> Some e | Inr cfg \<Rightarrow> Validate cfg) of
                  Some e \<Rightarrow>
                    (failed_with (Wrapped (''wrote '' @ wrPath res
                       @ '' but it failed validation (please report this)'') e), wz1, w1)
                | None \<Rightarrow> (said (init_next (wrPath res)), wz1, w1))))"

text \<open>The listings the command gives the wizard, on the services it calls.\<close>

definition listInstancesFor ::
    "(string \<Rightarrow> go_err option) \<Rightarrow> 'w discovery_api \<Rightarrow> string \<Rightarrow> 'w
       \<Rightarrow> ((go_err + wiz_instance list) \<times> 'w) option" where
  "listInstancesFor ld api region w =
     (case NewConfig ld region of
        Some e \<Rightarrow> Some (Inl e, w)
      | None \<Rightarrow>
          map_option (\<lambda>(r, w1). (map_sum id
              (map (\<lambda>d. \<lparr>wiID = dvID d, wiEngine = dvEngine d, wiStatus = dvStatus d\<rparr>)) r, w1))
            (ListInstances api [] w))"

definition listBuckets ::
    "(string \<Rightarrow> go_err option) \<Rightarrow> (string \<Rightarrow> 'w \<Rightarrow> (go_err + string list) \<times> 'w) \<Rightarrow> string \<Rightarrow> 'w
       \<Rightarrow> (go_err + string list) \<times> 'w" where
  "listBuckets ld s3 region w =
     (case NewConfig ld region of Some e \<Rightarrow> (Inl e, w) | None \<Rightarrow> s3 region w)"

section \<open>The dead-letter queue\<close>

text \<open>Open the store of the configuration and its queue; without one the store is closed again.\<close>

definition openDLQ ::
    "'w opened registry \<Rightarrow> loader \<Rightarrow> string \<Rightarrow> string \<Rightarrow> 'w
       \<Rightarrow> (go_err + config \<times> 'w opened \<times> 'w dlq) \<times> 'w" where
  "openDLQ reg load path level w =
     (case loadAndInstall load path level of
        Inl e \<Rightarrow> (Inl e, w)
      | Inr (cfg, _) \<Rightarrow>
          (case state_Open reg (cfState cfg) of
             Inl e \<Rightarrow> (Inl (Wrapped ''open state store'' e), w)
           | Inr op \<Rightarrow>
               (case opDlq op of
                  None \<Rightarrow> (Inl (ErrMsg (''state store type '' @ go_quote (scType (cfState cfg))
                             @ '' has no DLQ support (use sqlite)'')), opClose op w)
                | Some q \<Rightarrow> (Inr (cfg, op, q), w))))"

definition clock_String :: "time \<Rightarrow> string" where
  "clock_String t =
     (let (y, m, d) = date_of_time t; secs = (t mod (24 * hour)) div second in
      pad_int 4 y @ ''-'' @ pad_int 2 m @ ''-'' @ pad_int 2 d @ '' ''
      @ pad_int 2 (secs div 3600) @ '':'' @ pad_int 2 (secs div 60 mod 60) @ '':'' @ pad_int 2 (secs mod 60))"

definition dlq_columns :: "string \<Rightarrow> string \<Rightarrow> string \<Rightarrow> string \<Rightarrow> string \<Rightarrow> string" where
  "dlq_columns a b c d e =
     pad_right 6 a @ '' '' @ pad_right 20 b @ '' '' @ pad_right 18 c @ '' '' @ pad_right 20 d @ '' '' @ e @ newline"

definition dlq_row :: "dlq_item \<Rightarrow> string" where
  "dlq_row it =
     (let reason = (if length (diReason it) > 60 then take 57 (diReason it) @ ''...'' else diReason it) in
      dlq_columns (format_int (diID it)) (diSinkName it) (diBatchID it) (clock_String (diCreatedAt it)) reason)"

text \<open>The JSON form, one object per line; enc encodes one, and the first failure ends it.\<close>

fun dlq_json :: "(dlq_item \<Rightarrow> go_err + string) \<Rightarrow> dlq_item list \<Rightarrow> go_err option \<times> string" where
  "dlq_json enc [] = (None, [])"
| "dlq_json enc (it # its) =
     (case enc it of
        Inl e \<Rightarrow> (Some e, [])
      | Inr s \<Rightarrow> (case dlq_json enc its of (r, out) \<Rightarrow> (r, s @ newline @ out)))"

definition dlq_list_run ::
    "'w opened registry \<Rightarrow> loader \<Rightarrow> (dlq_item \<Rightarrow> go_err + string) \<Rightarrow> string \<Rightarrow> string \<Rightarrow> int \<Rightarrow> string \<Rightarrow> bool
       \<Rightarrow> 'w \<Rightarrow> outcome \<times> 'w" where
  "dlq_list_run reg load enc path level limit sinkName asJSON w =
     (case openDLQ reg load path level w of
        (Inl e, w1) \<Rightarrow> (failed_with e, w1)
      | (Inr (cfg, op, q), w1) \<Rightarrow>
          (case dlqCount q sinkName w1 of
             (Inl e, w2) \<Rightarrow> (failed_with e, opClose op w2)
           | (Inr size_all, w2) \<Rightarrow>
               (case dlqList q \<lparr>dqSinkName = sinkName, dqAfterID = 0, dqLimit = limit\<rparr> w2 of
                  (Inl e, w3) \<Rightarrow> (failed_with e, opClose op w3)
                | (Inr items, w3) \<Rightarrow>
                    ((if asJSON then
                        (case dlq_json enc items of (r, out) \<Rightarrow> \<lparr>ocErr = r, ocOut = out, ocErrOut = []\<rparr>)
                      else if size_all = 0 then said (''DLQ is empty'' @ newline)
                      else said (dlq_columns ''ID'' ''SINK'' ''BATCH'' ''CREATED'' ''REASON''
                             @ concat (map dlq_row items)
                             @ (if int (length items) < size_all
                                then ''... showing '' @ nat_str (length items) @ '' of '' @ format_int size_all
                                  @ '' (use --limit to see more)'' @ newline else []))),
                     opClose op w3))))"

text \<open>The counts are printed even when Run failed.\<close>

definition dlq_replay_run ::
    "'w opened registry \<Rightarrow> loader \<Rightarrow> 'w outside \<Rightarrow> 'w env \<Rightarrow> (string \<Rightarrow> logrecord list option) \<Rightarrow> string \<Rightarrow> string
       \<Rightarrow> string \<Rightarrow> int \<Rightarrow> bool \<Rightarrow> 'w \<Rightarrow> (outcome \<times> 'w) option" where
  "dlq_replay_run reg load os en decode path level sinkName limit dryRun w =
     (case openDLQ reg load path level w of
        (Inl e, w1) \<Rightarrow> Some (failed_with e, w1)
      | (Inr (cfg, op, q), w1) \<Rightarrow>
          (case replay_Run en (Build os) decode cfg q
                  \<lparr>opSinkFilter = sinkName, opLimit = limit, opDryRun = dryRun, opPageSize = 0\<rparr> w1 of
             None \<Rightarrow> None
           | Some (res, r, w2) \<Rightarrow>
               Some (\<lparr>ocErr = (case r of
                          Some e \<Rightarrow> Some e
                        | None \<Rightarrow> if rsFailed res > 0
                                  then Some (ErrMsg (nat_str (rsFailed res)
                                         @ '' batch(es) failed to replay (left in DLQ)''))
                                  else None),
                      ocOut = (if dryRun then ''would replay'' else ''replayed'') @ '' '' @ nat_str (rsReplayed res)
                        @ '', failed '' @ nat_str (rsFailed res) @ '', skipped '' @ nat_str (rsSkipped res) @ newline,
                      ocErrOut = []\<rparr>, opClose op w2)))"

definition dlq_purge_run ::
    "'w opened registry \<Rightarrow> loader \<Rightarrow> string \<Rightarrow> string \<Rightarrow> string \<Rightarrow> int \<Rightarrow> bool \<Rightarrow> 'w \<Rightarrow> outcome \<times> 'w" where
  "dlq_purge_run reg load path level sinkName n yes w =
     (if \<not> yes
      then (failed_with (ErrMsg ''purge permanently drops log data; re-run with --yes to confirm''), w)
      else (case openDLQ reg load path level w of
              (Inl e, w1) \<Rightarrow> (failed_with e, w1)
            | (Inr (cfg, op, q), w1) \<Rightarrow>
                if n > 0 then
                  (case dlqDelete q n w1 of
                     (Some e, w2) \<Rightarrow> (failed_with e, opClose op w2)
                   | (None, w2) \<Rightarrow> (said (''purged item '' @ format_int n @ newline), opClose op w2))
                else
                  (case dlqPurge q sinkName w1 of
                     (Inl e, w2) \<Rightarrow> (failed_with e, opClose op w2)
                   | (Inr k, w2) \<Rightarrow> (said (''purged '' @ format_int k @ '' item(s)'' @ newline), opClose op w2))))"

section \<open>state gc\<close>

text \<open>Duration.String: the largest unit first, fractions without trailing zeros.\<close>

definition frac_String :: "int \<Rightarrow> nat \<Rightarrow> string" where
  "frac_String v prec =
     (let ds = rev (dropWhile (\<lambda>c. c = CHR ''0'') (rev (pad_int prec (v mod 10 ^ prec)))) in
      if ds = [] then [] else ''.'' @ ds)"

definition duration_String :: "duration \<Rightarrow> string" where
  "duration_String d =
     (let u = abs d; sign = (if d < 0 then ''-'' else []) in
      if u = 0 then ''0s''
      else if u < 1000 then sign @ format_int u @ ''ns''
      else if u < millisecond then sign @ format_int (u div 1000) @ frac_String u 3 @ [CHR 0xC2, CHR 0xB5] @ ''s''
      else if u < second then sign @ format_int (u div millisecond) @ frac_String u 6 @ ''ms''
      else
        (let secs = u div second; mins = secs div 60; hours = mins div 60 in
         sign @ (if hours > 0 then format_int hours @ ''h'' else [])
         @ (if mins > 0 then format_int (mins mod 60) @ ''m'' else [])
         @ format_int (secs mod 60) @ frac_String u 9 @ ''s''))"

definition state_gc_run ::
    "'w opened registry \<Rightarrow> loader \<Rightarrow> ('w \<Rightarrow> time) \<Rightarrow> string \<Rightarrow> string \<Rightarrow> duration \<Rightarrow> bool \<Rightarrow> 'w \<Rightarrow> outcome \<times> 'w" where
  "state_gc_run reg load now path level olderThan dryRun w =
     (if olderThan < hour
      then (failed_with (ErrMsg (''--older-than must be >= 1h (got '' @ duration_String olderThan @ '')'')), w)
      else (case loadAndInstall load path level of
              Inl e \<Rightarrow> (failed_with e, w)
            | Inr (cfg, _) \<Rightarrow>
                (case state_Open reg (cfState cfg) of
                   Inl e \<Rightarrow> (failed_with (Wrapped ''open state store'' e), w)
                 | Inr op \<Rightarrow>
                     (case opGc op of
                        None \<Rightarrow> (failed_with (ErrMsg (''state store type '' @ go_quote (scType (cfState cfg))
                                   @ '' does not support gc (use sqlite)'')), opClose op w)
                      | Some gc \<Rightarrow>
                          (case gc (now w - olderThan) dryRun w of
                             (Inl e, w1) \<Rightarrow> (failed_with e, opClose op w1)
                           | (Inr n, w1) \<Rightarrow>
                               (said ((if dryRun then ''would prune '' else ''pruned '') @ format_int n
                                  @ '' checkpoint(s) older than '' @ duration_String olderThan @ newline),
                                opClose op w1))))))"

section \<open>discover\<close>

text \<open>fmt's %v of a map: the pairs by key.\<close>

definition map_String :: "(string \<times> string) list \<Rightarrow> string" where
  "map_String m =
     ''map['' @ join_str '' '' (map (\<lambda>k. k @ '':'' @ (case map_of m k of None \<Rightarrow> [] | Some v \<Rightarrow> v))
        (sorted_keys (remdups (map fst m)))) @ '']''"

definition right_arrow :: string where
  "right_arrow = [CHR 0xE2, CHR 0x86, CHR 0x92]"

definition discovered_row :: "discovered \<Rightarrow> string" where
  "discovered_row d = ''  '' @ pad_right 40 (dvID d) @ '' '' @ pad_right 10 (dvEngine d) @ '' '' @ dvStatus d @ newline"

fun discover_sources ::
    "(string \<Rightarrow> go_err option) \<Rightarrow> (client_key \<Rightarrow> 'w discovery_api) \<Rightarrow> nat \<Rightarrow> bool \<Rightarrow> source list \<Rightarrow> string \<Rightarrow> 'w
       \<Rightarrow> (outcome \<times> 'w) option" where
  "discover_sources ld api i any [] out w =
     Some (said (out @ (if any then [] else ''no sources use discover; nothing to preview'' @ newline)), w)"
| "discover_sources ld api i any (src # srcs) out w =
     (case soDiscover src of
        None \<Rightarrow> discover_sources ld api (Suc i) any srcs out w
      | Some d \<Rightarrow>
          (case NewConfig ld (soRegion src) of
             Some e \<Rightarrow>
               Some (\<lparr>ocErr = Some (Wrapped (''aws config for '' @ soRegion src) e), ocOut = out, ocErrOut = []\<rparr>, w)
           | None \<Rightarrow>
               (case DiscoverInstances (api (source_key src))
                       \<lparr>dfTags = dcTags d, dfExcludeTags = dcExcludeTags d, dfAll = dcAll d, dfEngine = soEngine src\<rparr> w of
                  None \<Rightarrow> None
                | Some (Inl e, w1) \<Rightarrow>
                    Some (\<lparr>ocErr = Some (Wrapped (idx_prefix ''sources'' i) e), ocOut = out, ocErrOut = []\<rparr>, w1)
                | Some (Inr found, w1) \<Rightarrow>
                    (let sel = (if dcAll d then ''all (exclude_tags='' @ map_String (dcExcludeTags d) @ '')''
                                else ''tags='' @ map_String (dcTags d)) in
                     discover_sources ld api (Suc i) True srcs
                       (out @ idx_prefix ''sources'' i @ '' region='' @ soRegion src @ '' '' @ sel @ '' '' @ right_arrow
                        @ '' '' @ nat_str (length found) @ '' instance(s)'' @ newline
                        @ concat (map discovered_row found)) w1))))"

definition discover_run ::
    "(string \<Rightarrow> go_err option) \<Rightarrow> (client_key \<Rightarrow> 'w discovery_api) \<Rightarrow> loader \<Rightarrow> string \<Rightarrow> string \<Rightarrow> 'w
       \<Rightarrow> (outcome \<times> 'w) option" where
  "discover_run ld api load path level w =
     (case loadAndInstall load path level of
        Inl e \<Rightarrow> Some (failed_with e, w)
      | Inr (cfg, _) \<Rightarrow> discover_sources ld api 0 False (cfSources cfg) [] w)"

section \<open>tail\<close>

record tail_opts =
  toInstances :: "string list"
  toRegion :: string
  toEngine :: string
  toAssumeRole :: string
  toFormat :: string
  toMinSeverity :: string
  toGrep :: string
  toSince :: duration
  toPoll :: duration
  toBeginning :: bool

text \<open>The outside of tail: teStore is the memory store made for an instance.\<close>

record 'w tail_env =
  teGetenv :: "string \<Rightarrow> string"
  teCompile :: "string \<Rightarrow> go_err + (string \<Rightarrow> bool)"
  teLoad :: "string \<Rightarrow> go_err option"
  teApi :: "'w rds_api"
  teDescribe :: "string \<Rightarrow> 'w \<Rightarrow> (go_err + db_instance list) \<times> 'w"
  teEnv :: "'w env"
  teStore :: "string \<Rightarrow> 'w state_store"
  teStdout :: "stdout_sink \<Rightarrow> 'w sink"

definition tail_check :: "'w tail_env \<Rightarrow> tail_opts \<Rightarrow> go_err + string \<times> (string \<Rightarrow> bool) option" where
  "tail_check te o' =
     (let region = (if toRegion o' = [] then teGetenv te ''AWS_REGION'' else toRegion o') in
      if toInstances o' = [] then Inl (ErrMsg ''--instance is required'')
      else if region = [] then Inl (ErrMsg ''--region is required (or set AWS_REGION)'')
      else if toMinSeverity o' \<noteq> [] \<and> SeverityRank (toMinSeverity o') = 0
      then Inl (ErrMsg (''--min-severity: unknown severity '' @ go_quote (toMinSeverity o')))
      else if toSince o' > 0 \<and> toBeginning o'
      then Inl (ErrMsg ''--since and --from-beginning are mutually exclusive'')
      else if toGrep o' = [] then Inr (region, None)
      else (case teCompile te (toGrep o') of
              Inl e \<Rightarrow> Inl (Wrapped ''--grep'' e) | Inr m \<Rightarrow> Inr (region, Some m)))"

text \<open>The cutoff is the zero time without --since.\<close>

definition tail_cutoff :: "tail_opts \<Rightarrow> time \<Rightarrow> time" where
  "tail_cutoff o' now = (if toSince o' > 0 then now - toSince o' else time_zero)"

definition tail_start_from :: "tail_opts \<Rightarrow> string" where
  "tail_start_from o' = (if toSince o' > 0 \<or> toBeginning o' then StartFromBeginning else StartFromEnd)"

definition tail_sink :: "tail_opts \<Rightarrow> (string \<Rightarrow> bool) option \<Rightarrow> time \<Rightarrow> 'w sink \<Rightarrow> 'w sink" where
  "tail_sink o' grepRE cutoff out =
     (let s1 = (if toMinSeverity o' = [] then out
                else WithFilter out \<lparr>fcMinSeverity = toMinSeverity o', fcSeverities = []\<rparr>);
          s2 = WithGrep s1 grepRE
      in if toSince o' > 0 then WithSince s2 cutoff else s2)"

definition tail_worker ::
    "'w tail_env \<Rightarrow> tail_opts \<Rightarrow> 'w sink \<Rightarrow> time \<Rightarrow> string \<Rightarrow> string \<Rightarrow> 'w \<Rightarrow> go_err + 'w worker \<times> wst" where
  "tail_worker te o' s cutoff inst eng w =
     (case NewFetcher \<lparr>foAPI = Some (teApi te), foInstanceID = inst, foEngine = eng, foIncludeAudit = False,
              foClock = None, foObserver = None\<rparr> (enNow (teEnv te)) of
        Inl e \<Rightarrow> Inl e
      | Inr f \<Rightarrow>
          NewInstanceWorker \<lparr>woFetcher = Some f, woStore = Some (teStore te inst), woSink = Some s,
            woPollInterval = toPoll o', woPollIntervalMax = 0, woPollMultiplier = 0, woMaxBatchBytes = 0,
            woMaxBatchRecords = 0, woParallelReads = 0, woDrainSem = False, woStartFrom = tail_start_from o',
            woMinFileTime = cutoff, woEnv = teEnv te\<rparr> w)"

fun tail_workers ::
    "'w tail_env \<Rightarrow> tail_opts \<Rightarrow> string \<Rightarrow> 'w sink \<Rightarrow> time \<Rightarrow> string list \<Rightarrow> 'w
       \<Rightarrow> (go_err + ('w worker \<times> wst) list) \<times> 'w" where
  "tail_workers te o' region s cutoff [] w = (Inr [], w)"
| "tail_workers te o' region s cutoff (inst # insts) w =
     (case (if toEngine o' \<noteq> [] then (Inr (toEngine o'), w)
            else detectEngine (teDescribe te) inst region w) of
        (Inl e, w1) \<Rightarrow> (Inl e, w1)
      | (Inr eng, w1) \<Rightarrow>
          (case tail_worker te o' s cutoff inst eng w1 of
             Inl e \<Rightarrow> (Inl e, w1)
           | Inr wk \<Rightarrow>
               (case tail_workers te o' region s cutoff insts w1 of
                  (Inl e, w2) \<Rightarrow> (Inl e, w2)
                | (Inr wks, w2) \<Rightarrow> (Inr (wk # wks), w2))))"

definition tail_banner :: "tail_opts \<Rightarrow> string \<Rightarrow> string" where
  "tail_banner o' region = ''tailing '' @ join_str '', '' (toInstances o') @ '' in '' @ region @ '' '' @ em_dash
     @ '' Ctrl-C to stop'' @ newline"

text \<open>
  The command up to the start of its workers: the sink to close at the end, the workers and the
  line it prints.  The workers then run until the context ends, and the result is Close's.
\<close>

definition tail_start ::
    "'w tail_env \<Rightarrow> tail_opts \<Rightarrow> 'w \<Rightarrow> (go_err + 'w sink \<times> ('w worker \<times> wst) list \<times> string) \<times> 'w" where
  "tail_start te o' w =
     (case tail_check te o' of
        Inl e \<Rightarrow> (Inl e, w)
      | Inr (region, grepRE) \<Rightarrow>
          (case NewConfig (teLoad te) region of
             Some e \<Rightarrow> (Inl e, w)
           | None \<Rightarrow>
               (case stdout_New ''tail'' (toFormat o') of
                  Inl e \<Rightarrow> (Inl e, w)
                | Inr so \<Rightarrow>
                    (let out = teStdout te so;
                         cutoff = tail_cutoff o' (enNow (teEnv te) w);
                         s = tail_sink o' grepRE cutoff out
                     in case tail_workers te o' region s cutoff (toInstances o') w of
                          (Inl e, w1) \<Rightarrow> (Inl e, w1)
                        | (Inr wks, w1) \<Rightarrow>
                            (Inr (out, wks, tail_banner o' region), w1)))))"

section \<open>version\<close>

definition version_run :: "string \<Rightarrow> string \<Rightarrow> string \<Rightarrow> outcome" where
  "version_run version commit buildDate =
     said (''rdstail '' @ version @ '' (commit '' @ commit @ '', built '' @ buildDate @ '')'' @ newline)"

section \<open>The process\<close>

text \<open>main of cmd/rdstail: an error goes to standard error and the exit status is 1.\<close>

definition rdstail_main :: "outcome \<Rightarrow> nat \<times> string \<times> string" where
  "rdstail_main oc =
     (case ocErr oc of
        None \<Rightarrow> (0, ocOut oc, ocErrOut oc)
      | Some e \<Rightarrow> (1, ocOut oc, ocErrOut oc @ error_text e @ newline))"

section \<open>What a purge removes\<close>

lemma dlq_purge_db:
  assumes "openDLQ reg load path level db = (Inr (cfg, op, sqlite_dlq), db)" "\<And>d. dbDLQ (opClose op d) = dbDLQ d"
    and "dlq_purge_run reg load path level name n True db = (oc, db')"
  shows "dbDLQ db' = (if ocErr oc \<noteq> None then dbDLQ db
           else if n > 0 then filter (\<lambda>it. diID it \<noteq> n) (dbDLQ db)
           else filter (\<lambda>it. \<not> of_sink name it) (dbDLQ db))"
  using assms
  by (auto simp: dlq_purge_run_def sqlite_dlq_def sqlite_DLQDelete_def sqlite_DLQPurge_def failed_with_def said_def
      fail_def split: if_splits prod.splits option.splits sum.splits)


definition two_letters :: sqlite_db where
  "two_letters = \<lparr>dbCheckpoints = [],
     dbDLQ = [\<lparr>diID = 1, diSinkName = ''a'', diBatchID = ''b1'', diPayload = [], diReason = [], diCreatedAt = unix_epoch\<rparr>,
              \<lparr>diID = 2, diSinkName = ''b'', diBatchID = ''b2'', diPayload = [], diReason = [], diCreatedAt = unix_epoch\<rparr>],
     dbNextID = 3, dbVersions = [2], dbHasSkipCol = True, dbNow = unix_epoch, dbScript = []\<rparr>"

definition db_opened :: "sqlite_db opened" where
  "db_opened = \<lparr>opStore = sqlite_store, opDlq = Some sqlite_dlq, opGc = None, opClose = id\<rparr>"

lemma two_app_loads: "loadAndInstall (\<lambda>_. Inr two_app) ''c.yaml'' ''info'' = Inr (two_app, LevelInfo)"
proof -
  have "cfLoggingLevel two_app = ''info''" by (simp add: two_app_def one_cfg_def defaults_def)
  moreover have "parseLevel ''info'' = LevelInfo"
    by (simp add: parseLevel_def trim_space_def is_space_def to_lower_def to_lower_char_def)
  ultimately show ?thesis by (simp add: loadAndInstall_def two_app_valid)
qed

definition letters_reg :: "sqlite_db opened registry" where
  "letters_reg = [(''sqlite'', \<lambda>_. Inr db_opened)]"

lemma letters_open: "state_Open letters_reg (cfState two_app) = Inr db_opened"
  by (simp add: state_Open_def letters_reg_def two_app_def one_cfg_def defaults_def)

lemma letters_purge:
  "ocErr (fst (dlq_purge_run letters_reg (\<lambda>_. Inr two_app) ''c.yaml'' ''info'' name n True two_letters)) = None"
  by (simp add: dlq_purge_run_def openDLQ_def two_app_loads letters_open db_opened_def sqlite_dlq_def
      sqlite_DLQDelete_def sqlite_DLQPurge_def sql_def two_letters_def said_def)


section \<open>What tail shows\<close>

text \<open>The records tail lets through.\<close>

definition tail_keep :: "tail_opts \<Rightarrow> (string \<Rightarrow> bool) option \<Rightarrow> time \<Rightarrow> logrecord \<Rightarrow> bool" where
  "tail_keep o' grepRE cutoff r =
     ((toMinSeverity o' = []
       \<or> 0 < SeverityRank (lrSeverity r) \<and> SeverityRank (toMinSeverity o') \<le> SeverityRank (lrSeverity r))
      \<and> (case grepRE of None \<Rightarrow> True | Some m \<Rightarrow> m (lrMessage r))
      \<and> (\<not> 0 < toSince o' \<or> is_zero_time cutoff \<or> \<not> lrTimestamp r < cutoff))"

text \<open>A sink that accepts of a batch what passes keep.\<close>

definition shows_only :: "'w sink \<Rightarrow> ('w \<Rightarrow> logrecord list) \<Rightarrow> (logrecord \<Rightarrow> bool) \<Rightarrow> bool" where
  "shows_only s acc keep =
     (\<forall>rs w. case skWrite s rs w of
        (r, w') \<Rightarrow> acc w' = (if r = None then acc w @ filter keep rs else acc w))"

lemma shows_only_bare: "sink_contract (skWrite out) acc \<Longrightarrow> shows_only out acc (\<lambda>r. True)"
  using sink_contract.ack sink_contract.nack by (fastforce simp: shows_only_def)

lemma shows_only_keep:
  assumes "shows_only s acc keep"
  shows "shows_only (keep_sink s p) acc (\<lambda>r. p r \<and> keep r)"
  unfolding shows_only_def
proof (intro allI)
  fix rs w
  have f: "filter (\<lambda>r. p r \<and> keep r) rs = filter keep (filter p rs)" by (simp add: conj_commute)
  have "case skWrite s (filter p rs) w of
      (r, w') \<Rightarrow> acc w' = (if r = None then acc w @ filter keep (filter p rs) else acc w)"
    using assms by (simp add: shows_only_def)
  then show "case skWrite (keep_sink s p) rs w of
      (r, w') \<Rightarrow> acc w' = (if r = None then acc w @ filter (\<lambda>r. p r \<and> keep r) rs else acc w)"
    unfolding f by (cases "filter p rs = []") (auto simp: keep_sink_def keep_Write_def Let_def)
qed

lemma shows_only_cong: "shows_only s acc p \<Longrightarrow> (\<And>r. p r = q r) \<Longrightarrow> shows_only s acc q"
proof -
  assume "shows_only s acc p" "\<And>r. p r = q r"
  moreover have "p = q" using calculation(2) by blast
  ultimately show ?thesis by simp
qed

lemma shows_only_severity:
  assumes "shows_only s acc p"
  shows "shows_only (if sev = [] then s else WithFilter s \<lparr>fcMinSeverity = sev, fcSeverities = []\<rparr>) acc
    (\<lambda>r. (sev = [] \<or> 0 < SeverityRank (lrSeverity r) \<and> SeverityRank sev \<le> SeverityRank (lrSeverity r)) \<and> p r)"
  using shows_only_keep [OF assms, of "filter_keep \<lparr>fcMinSeverity = sev, fcSeverities = []\<rparr>"] assms
  by (auto simp: WithFilter_def filter_enabled_def filter_keep_def elim: shows_only_cong)

lemma shows_only_grep:
  assumes "shows_only s acc p"
  shows "shows_only (WithGrep s g) acc (\<lambda>r. (case g of None \<Rightarrow> True | Some m \<Rightarrow> m (lrMessage r)) \<and> p r)"
  using shows_only_keep [OF assms] assms
  by (cases g) (auto simp: WithGrep_def elim: shows_only_cong)

lemma shows_only_since:
  assumes "shows_only s acc p"
  shows "shows_only (if 0 < d then WithSince s cutoff else s) acc
    (\<lambda>r. (\<not> 0 < d \<or> is_zero_time cutoff \<or> \<not> lrTimestamp r < cutoff) \<and> p r)"
  using shows_only_keep [OF assms, of "\<lambda>r. \<not> lrTimestamp r < cutoff"] assms
  by (cases "0 < d"; cases "is_zero_time cutoff") (auto simp: WithSince_def elim: shows_only_cong)

lemma tail_sink_shows:
  assumes "sink_contract (skWrite out) acc"
  shows "shows_only (tail_sink o' g cutoff out) acc (tail_keep o' g cutoff)"
  unfolding tail_sink_def Let_def
  by (rule shows_only_cong [OF shows_only_since [OF shows_only_grep [OF shows_only_severity
        [OF shows_only_bare [OF assms]]]]]) (auto simp: tail_keep_def)

text \<open>A list of workers as tail makes it: one per instance, in order.\<close>

definition tails_with :: "'w tail_env \<Rightarrow> tail_opts \<Rightarrow> 'w sink \<Rightarrow> time \<Rightarrow> string \<Rightarrow> 'w worker \<Rightarrow> bool" where
  "tails_with te o' s cutoff inst wk =
     (ftInstanceID (wkFetcher wk) = inst \<and> wkStore wk = teStore te inst \<and> wkSink wk = s
      \<and> wkStartFrom wk = tail_start_from o' \<and> wkMinFileTime wk = cutoff)"

lemma tail_worker_parts:
  "tail_worker te o' s cutoff inst eng w = Inr (wk, st) \<Longrightarrow> tails_with te o' s cutoff inst wk"
  by (auto simp: tail_worker_def tails_with_def NewFetcher_def NewInstanceWorker_def Let_def tail_start_from_def
      StartFromBeginning_def StartFromEnd_def split: if_splits)

lemma tail_workers_parts:
  "tail_workers te o' region s cutoff insts w = (Inr wks, w') \<Longrightarrow>
     list_all2 (tails_with te o' s cutoff) insts (map fst wks)"
proof (induction insts arbitrary: w wks)
  case (Cons inst insts)
  then show ?case
    by (auto dest!: tail_worker_parts split: if_splits sum.splits prod.splits)
qed simp

lemma tail_start_parts:
  assumes "tail_start te o' w = (Inr (out, wks, msg), w')"
  shows "\<exists>region g. tail_check te o' = Inr (region, g)
    \<and> tail_workers te o' region (tail_sink o' g (tail_cutoff o' (enNow (teEnv te) w)) out)
         (tail_cutoff o' (enNow (teEnv te) w)) (toInstances o') w = (Inr wks, w')"
proof (cases "tail_check te o'")
  case (Inr rg)
  obtain region g where rg: "rg = (region, g)" by (cases rg)
  note start = assms [unfolded tail_start_def Inr rg sum.case prod.case]
  have nc: "NewConfig (teLoad te) region = None"
    using start by (cases "NewConfig (teLoad te) region") simp_all
  obtain so where so: "stdout_New ''tail'' (toFormat o') = Inr so"
    using start by (cases "stdout_New ''tail'' (toFormat o')") (simp_all add: nc)
  let ?ws = "tail_workers te o' region (tail_sink o' g (tail_cutoff o' (enNow (teEnv te) w)) (teStdout te so))
      (tail_cutoff o' (enNow (teEnv te) w)) (toInstances o') w"
  obtain r w1 where ws: "?ws = (r, w1)" by (cases ?ws)
  show ?thesis using start ws Inr rg by (cases r) (simp_all add: nc so Let_def)
qed (use assms in \<open>simp add: tail_start_def\<close>)


text \<open>A tail of one instance into the memory sink.\<close>

definition tail_one :: tail_opts where
  "tail_one = \<lparr>toInstances = [''db-1''], toRegion = ''r'', toEngine = ''mysql'', toAssumeRole = [], toFormat = ''text'',
     toMinSeverity = ''ERROR'', toGrep = [], toSince = hour, toPoll = second, toBeginning = False\<rparr>"

definition tail_sim :: "sim tail_env" where
  "tail_sim = \<lparr>teGetenv = (\<lambda>_. []), teCompile = (\<lambda>_. Inr (\<lambda>_. True)), teLoad = (\<lambda>_. None), teApi = sim_api two_chunks,
     teDescribe = (\<lambda>_ w. (Inr [], w)), teEnv = sim_env, teStore = (\<lambda>_. sim_store), teStdout = (\<lambda>_. sim_sink)\<rparr>"

lemma tail_one_starts: "\<exists>wks msg. tail_start tail_sim tail_one w = (Inr (sim_sink, wks, msg), w)"
  by (simp add: tail_start_def tail_check_def tail_one_def tail_sim_def NewConfig_def stdout_New_def Let_def
      tail_worker_def NewFetcher_def NewInstanceWorker_def SeverityRank_def severityRank_def to_upper_def
      to_upper_char_def)


end
