(* ===== verification/CostEstimate.thy ===== *)
theory CostEstimate
  imports Dump Resolver
begin

text \<open>
  internal/costestimate and internal/cli/costestimate.go: the projection of a month of log
  volume from the metadata of the retained files, its price on two paths, the report, and the
  collection of the metadata.  A float64 is a rat and every operation on it is exact, where Go
  rounds; the conversion to int64 truncates, and an overflow gives the number ovf.
\<close>

section \<open>Numbers as text\<close>

definition round_half_even :: "rat \<Rightarrow> int" where
  "round_half_even x =
     (let f = \<lfloor>x\<rfloor>; d = x - of_int f in
      if d < 1 / 2 \<or> (d = 1 / 2 \<and> even f) then f else f + 1)"

text \<open>The verb %.kf.\<close>

definition fmt_fixed :: "nat \<Rightarrow> rat \<Rightarrow> string" where
  "fmt_fixed k x =
     (let n = nat (round_half_even (\<bar>x\<bar> * 10 ^ k)); ds = nat_str n;
          pad = replicate (Suc k - length ds) (CHR ''0'') @ ds;
          i = length pad - k
      in (if x < 0 then ''-'' else []) @ take i pad @ (if k = 0 then [] else ''.'' @ drop i pad))"

text \<open>humanBytes: None is the index out of range.\<close>

function human_loop :: "int \<Rightarrow> int \<Rightarrow> nat \<Rightarrow> int \<times> nat" where
  "human_loop m dv ex =
     (if m \<ge> 1024 then human_loop (m div 1024) (dv * 1024) (ex + 1) else (dv, ex))"
  by pat_completeness auto
termination
  by (relation "measure (\<lambda>(m, dv, ex). nat m)") auto

declare human_loop.simps [simp del]

definition humanBytes :: "int \<Rightarrow> string option" where
  "humanBytes n =
     (if n < 1024 then Some (format_int n @ '' B'')
      else (case human_loop (n div 1024) 1024 0 of
              (dv, ex) \<Rightarrow>
                if ex < 6 then Some (fmt_fixed 1 (of_int n / of_int dv) @ '' '' @ [''KMGTPE'' ! ex] @ ''iB'')
                else None))"

definition usd :: "rat \<Rightarrow> string" where
  "usd v = ''$'' @ fmt_fixed 2 v"

section \<open>Data\<close>

record file_stat =
  fsSize :: int
  fsLastWritten :: time

record instance_usage =
  iuInstanceID :: string
  iuEngine :: string
  iuFiles :: "file_stat list"

record prices =
  prIngest :: rat
  prStorage :: rat
  prPut :: rat
  prS3Storage :: rat
  prRatio :: rat
  prBatchBytes :: int

definition DefaultPrices :: prices where
  "DefaultPrices = \<lparr>prIngest = 1 / 2, prStorage = 3 / 100, prPut = 5 / 1000, prS3Storage = 23 / 1000,
                    prRatio = 10, prBatchBytes = 5 * 1048576\<rparr>"

record instance_estimate =
  ieInstanceID :: string
  ieEngine :: string
  ieFileCount :: nat
  ieRetained :: int
  ieSpanHours :: rat
  ieDaily :: int
  ieMonthly :: int
  ieRough :: bool

record costs =
  coMonthlyGB :: rat
  coCWIngest :: rat
  coCWStorage :: rat
  coCWTotal :: rat
  coPutCount :: int
  coPut :: rat
  coCompressedGB :: rat
  coS3Storage :: rat
  coRdstail :: rat
  coSavings :: rat
  coPercent :: rat

record report =
  rpInstances :: "instance_estimate list"
  rpDaily :: int
  rpMonthly :: int
  rpPrices :: prices
  rpCosts :: costs
  rpNotes :: "string list"

definition minSpan :: duration where "minSpan = hour"
definition roughSpan :: duration where "roughSpan = 24 * hour"

section \<open>One instance\<close>

text \<open>int64 of a float64.\<close>

definition trunc :: "int \<Rightarrow> rat \<Rightarrow> int" where
  "trunc ovf x =
     (let t = (if x < 0 then - \<lfloor>- x\<rfloor> else \<lfloor>x\<rfloor>) in if in_i64 t then t else ovf)"

definition retained :: "file_stat list \<Rightarrow> int" where
  "retained fs = foldl (\<lambda>n f. wrap64 (n + fsSize f)) 0 fs"

definition oldest :: "file_stat list \<Rightarrow> time" where
  "oldest fs =
     foldl (\<lambda>o' f. if \<not> is_zero_time (fsLastWritten f) \<and> (is_zero_time o' \<or> fsLastWritten f < o')
                   then fsLastWritten f else o') time_zero fs"

definition span_of :: "time \<Rightarrow> time \<Rightarrow> duration \<times> bool" where
  "span_of old now =
     (if \<not> is_zero_time old \<and> old < now
      then (let span = max (time_sub now old) minSpan in (span, span < roughSpan))
      else (roughSpan, True))"

definition span_hours :: "duration \<Rightarrow> rat" where
  "span_hours d = of_int d / of_int hour"

definition estimateInstance :: "int \<Rightarrow> instance_usage \<Rightarrow> time \<Rightarrow> instance_estimate" where
  "estimateInstance ovf u now =
     (let n = retained (iuFiles u) in
      if n = 0
      then \<lparr>ieInstanceID = iuInstanceID u, ieEngine = iuEngine u, ieFileCount = length (iuFiles u),
            ieRetained = 0, ieSpanHours = 0, ieDaily = 0, ieMonthly = 0, ieRough = False\<rparr>
      else (let (span, rough) = span_of (oldest (iuFiles u)) now;
                daily = of_int n / span_hours span * 24
            in \<lparr>ieInstanceID = iuInstanceID u, ieEngine = iuEngine u,
                ieFileCount = length (iuFiles u), ieRetained = n, ieSpanHours = span_hours span,
                ieDaily = trunc ovf daily, ieMonthly = trunc ovf (daily * 30), ieRough = rough\<rparr>))"

section \<open>The price\<close>

definition put_count :: "int \<Rightarrow> int \<Rightarrow> int \<Rightarrow> int" where
  "put_count ovf bytes batch =
     (if batch > 0 \<and> bytes > 0 then trunc ovf (of_int \<lceil>of_int bytes / (of_int batch :: rat)\<rceil>) else 0)"

definition price :: "int \<Rightarrow> int \<Rightarrow> prices \<Rightarrow> costs" where
  "price ovf bytes p =
     (let gb = of_int bytes / 1000000000;
          ingest = gb * prIngest p; storage = gb * prStorage p; cw = ingest + storage;
          puts = put_count ovf bytes (prBatchBytes p);
          put = of_int puts / 1000 * prPut p;
          comp = (if prRatio p > 0 then gb / prRatio p else gb);
          s3 = comp * prS3Storage p; total = put + s3; savings = cw - total
      in \<lparr>coMonthlyGB = gb, coCWIngest = ingest, coCWStorage = storage, coCWTotal = cw,
          coPutCount = puts, coPut = put, coCompressedGB = comp, coS3Storage = s3,
          coRdstail = total, coSavings = savings,
          coPercent = (if cw > 0 then savings / cw * 100 else 0)\<rparr>)"

section \<open>The report\<close>

definition estimate_note :: "instance_estimate \<Rightarrow> string list" where
  "estimate_note e =
     (if ieRetained e = 0
      then [ieInstanceID e @ '': no log data retained '' @ em_dash @ '' is logging enabled on the instance?'']
      else if ieRough e
      then [ieInstanceID e @ '': limited log history ('' @ fmt_fixed 1 (ieSpanHours e) @ ''h window) ''
              @ em_dash @ '' its projection is rough'']
      else [])"

definition fixed_notes :: "string list" where
  "fixed_notes =
     [''volume read from DescribeDBLogFiles metadata only '' @ em_dash @ '' free, no log data downloaded'',
      ''compute cost excluded: rdstail runs on an existing node (a dedicated t4g.micro adds ~$6/mo)'',
      ''prices are us-east-1 list prices unless overridden '' @ em_dash
        @ '' check your region'' @ [CHR 0x27] @ ''s CloudWatch and S3 pricing pages'']"

text \<open>sort.Slice by identifier; instances that share one keep their order here.\<close>

definition Estimate :: "int \<Rightarrow> instance_usage list \<Rightarrow> time \<Rightarrow> prices \<Rightarrow> report" where
  "Estimate ovf usages now p =
     (let es = map (\<lambda>u. estimateInstance ovf u now) (sort_key iuInstanceID usages);
          daily = foldl (\<lambda>n e. wrap64 (n + ieDaily e)) 0 es;
          monthly = foldl (\<lambda>n e. wrap64 (n + ieMonthly e)) 0 es
      in \<lparr>rpInstances = es, rpDaily = daily, rpMonthly = monthly, rpPrices = p,
          rpCosts = price ovf monthly p, rpNotes = concat (map estimate_note es) @ fixed_notes\<rparr>)"

section \<open>The text\<close>

definition table_row :: "string list \<Rightarrow> string" where
  "table_row cols =
     ''  '' @ pad_right 32 (cols ! 0) @ '' '' @ pad_right 9 (cols ! 1) @ '' '' @ pad_left 5 (cols ! 2)
       @ ''  '' @ pad_left 10 (cols ! 3) @ ''  '' @ pad_left 8 (cols ! 4) @ ''  '' @ pad_left 11 (cols ! 5)
       @ ''  '' @ cols ! 6 @ newline"

definition instance_row :: "instance_estimate \<Rightarrow> string option" where
  "instance_row e =
     (case (humanBytes (ieRetained e), humanBytes (ieDaily e), humanBytes (ieMonthly e)) of
        (Some ret, Some daily, Some monthly) \<Rightarrow>
          Some (table_row [ieInstanceID e, ieEngine e, nat_str (ieFileCount e), ret,
            if ieSpanHours e > 0 then fmt_fixed 1 (ieSpanHours e / 24) @ ''d'' else ''-'',
            daily, pad_left 12 monthly @ (if ieRough e then '' ~'' else [])])
      | _ \<Rightarrow> None)"

fun instance_rows :: "instance_estimate list \<Rightarrow> string option" where
  "instance_rows [] = Some []"
| "instance_rows (e # es) =
     (case (instance_row e, instance_rows es) of (Some r, Some rs) \<Rightarrow> Some (r @ rs) | _ \<Rightarrow> None)"

definition cost_line :: "string \<Rightarrow> rat \<Rightarrow> string" where
  "cost_line label amount = ''  '' @ pad_right 46 label @ '' '' @ pad_left 9 (usd amount) @ newline"

definition cost_lines :: "costs \<Rightarrow> prices \<Rightarrow> string" where
  "cost_lines c p =
     cost_line ''CloudWatch export path'' (coCWTotal c)
     @ cost_line (''  ingestion   '' @ fmt_fixed 2 (coMonthlyGB c) @ '' GB x $''
          @ fmt_fixed 2 (prIngest p) @ ''/GB'') (coCWIngest c)
     @ cost_line (''  storage     '' @ fmt_fixed 2 (coMonthlyGB c) @ '' GB x $''
          @ fmt_fixed 2 (prStorage p) @ ''/GB-mo'') (coCWStorage c)
     @ cost_line ''rdstail path'' (coRdstail c)
     @ cost_line (''  S3 PUTs     '' @ format_int (coPutCount c) @ '' x $''
          @ fmt_fixed 3 (prPut p) @ ''/1k'') (coPut c)
     @ cost_line (''  S3 storage  '' @ fmt_fixed 2 (coCompressedGB c) @ '' GB gzip'' @ [CHR 0x27] @ ''d x $''
          @ fmt_fixed 3 (prS3Storage p) @ ''/GB-mo'') (coS3Storage c)"

definition verdict :: "costs \<Rightarrow> string" where
  "verdict c =
     (if coCWTotal c < 1 / 100
      then newline @ ''  -> cost is negligible either way at this log volume'' @ newline
      else newline @ ''  -> rdstail saves ~'' @ usd (coSavings c) @ ''/mo ('' @ fmt_fixed 0 (coPercent c)
             @ ''%)'' @ newline)"

definition Text :: "report \<Rightarrow> string option" where
  "Text r =
     (case (instance_rows (rpInstances r), humanBytes (rpDaily r), humanBytes (rpMonthly r)) of
        (Some rows, Some daily, Some monthly) \<Rightarrow>
          Some (''Fleet log volume (from DescribeDBLogFiles metadata '' @ em_dash @ '' free, nothing downloaded):''
            @ newline @ newline
            @ table_row [''INSTANCE'', ''ENGINE'', ''FILES'', ''RETAINED'', ''WINDOW'', ''EST. DAILY'',
                pad_left 13 ''EST. MONTHLY'']
            @ rows
            @ table_row [''fleet total'', [], [], [], [], daily, pad_left 13 monthly]
            @ newline @ ''Projected monthly cost at '' @ monthly @ ''/mo (''
            @ fmt_fixed 2 (coMonthlyGB (rpCosts r)) @ '' GB billable):'' @ newline @ newline
            @ cost_lines (rpCosts r) (rpPrices r) @ verdict (rpCosts r)
            @ (if rpNotes r = [] then []
               else newline @ concat (map (\<lambda>n. ''  note: '' @ n @ newline) (rpNotes r))))
      | _ \<Rightarrow> None)"

section \<open>The usages of a fleet\<close>

text \<open>The order in which Go iterates over a map is the argument order.\<close>

record 'w usage_env =
  ueAws :: "string \<Rightarrow> string \<Rightarrow> go_err option"
  ueApi :: "'w rds_api"
  ueDiscovery :: "'w discovery_api"
  ueDescribe :: "string \<Rightarrow> 'w \<Rightarrow> (go_err + db_instance list) \<times> 'w"
  ueNow :: "'w \<Rightarrow> time"
  ueOrder :: "(string \<times> string) list \<Rightarrow> (string \<times> string) list"

definition instanceUsage ::
    "'w usage_env \<Rightarrow> string \<Rightarrow> string \<Rightarrow> 'w \<Rightarrow> ((go_err + instance_usage) \<times> 'w) option" where
  "instanceUsage ue i engine w =
     (case NewFetcher \<lparr>foAPI = Some (ueApi ue), foInstanceID = i, foEngine = engine,
              foIncludeAudit = False, foClock = None, foObserver = None\<rparr> (ueNow ue) of
        Inl e \<Rightarrow> Some (Inl e, w)
      | Inr f \<Rightarrow>
          (case DiscoverFiles f w of
             None \<Rightarrow> None
           | Some (Inl e, w1) \<Rightarrow> Some (Inl e, w1)
           | Some (Inr files, w1) \<Rightarrow>
               Some (Inr \<lparr>iuInstanceID = i, iuEngine = engine,
                  iuFiles = map (\<lambda>m. \<lparr>fsSize = fmSize m, fsLastWritten = LastWritten m\<rparr>) files\<rparr>, w1)))"

text \<open>The instances of one source that were not seen before.\<close>

fun usages_of ::
    "'w usage_env \<Rightarrow> string \<Rightarrow> (string \<times> string) list \<Rightarrow> string list \<Rightarrow> instance_usage list \<Rightarrow> 'w
       \<Rightarrow> ((go_err + string list \<times> instance_usage list) \<times> 'w) option" where
  "usages_of ue region [] seen us w = Some (Inr (seen, us), w)"
| "usages_of ue region ((i, engine) # rest) seen us w =
     (let key = region @ ''/'' @ i in
      if key \<in> set seen then usages_of ue region rest seen us w
      else (case instanceUsage ue i engine w of
              None \<Rightarrow> None
            | Some (Inl e, w1) \<Rightarrow> Some (Inl e, w1)
            | Some (Inr u, w1) \<Rightarrow> usages_of ue region rest (key # seen) (us @ [u]) w1))"

definition set_engine :: "(string \<times> string) list \<Rightarrow> string \<times> string \<Rightarrow> (string \<times> string) list" where
  "set_engine m kv = AList.update (fst kv) (snd kv) m"

definition explicit_engines :: "source \<Rightarrow> (string \<times> string) list" where
  "explicit_engines src = foldl set_engine [] (map (\<lambda>i. (i, soEngine src)) (soInstances src))"

fun usages_from ::
    "'w usage_env \<Rightarrow> nat \<Rightarrow> source list \<Rightarrow> string list \<Rightarrow> instance_usage list \<Rightarrow> 'w
       \<Rightarrow> ((go_err + instance_usage list) \<times> 'w) option" where
  "usages_from ue i [] seen us w = Some (Inr us, w)"
| "usages_from ue i (src # srcs) seen us w =
     (case ueAws ue (soRegion src) (soAssumeRole src) of
        Some e \<Rightarrow> Some (Inl (Wrapped (''aws config for '' @ soRegion src) e), w)
      | None \<Rightarrow>
          (case (case soDiscover src of
                   None \<Rightarrow> Some (Inr [], w)
                 | Some d \<Rightarrow>
                     DiscoverInstances (ueDiscovery ue)
                       \<lparr>dfTags = dcTags d, dfExcludeTags = [], dfAll = False, dfEngine = soEngine src\<rparr> w) of
             None \<Rightarrow> None
           | Some (Inl e, w1) \<Rightarrow> Some (Inl (Wrapped (''sources['' @ nat_str i @ '']'') e), w1)
           | Some (Inr found, w1) \<Rightarrow>
               (let engines = foldl set_engine (explicit_engines src)
                                (map (\<lambda>d. (dvID d, dvEngine d)) found) in
                case usages_of ue (soRegion src) (ueOrder ue engines) seen us w1 of
                  None \<Rightarrow> None
                | Some (Inl e, w2) \<Rightarrow> Some (Inl e, w2)
                | Some (Inr (seen2, us2), w2) \<Rightarrow> usages_from ue (Suc i) srcs seen2 us2 w2)))"

text \<open>The first argument is config.Load of the path.  The result carries the prices on.\<close>

definition usagesFromConfig ::
    "go_err + config \<Rightarrow> 'w usage_env \<Rightarrow> prices \<Rightarrow> 'w
       \<Rightarrow> ((go_err + instance_usage list) \<times> prices \<times> 'w) option" where
  "usagesFromConfig loaded ue p w =
     (case loaded of
        Inl e \<Rightarrow> Some (Inl e, p, w)
      | Inr cfg \<Rightarrow>
          (case Validate cfg of
             Some e \<Rightarrow> Some (Inl (Wrapped ''schema validation failed'' e), p, w)
           | None \<Rightarrow>
               (let p1 = (if rtMaxBatchBytes (cfRuntime cfg) > 0
                          then p\<lparr>prBatchBytes := rtMaxBatchBytes (cfRuntime cfg)\<rparr> else p) in
                case usages_from ue 0 (cfSources cfg) [] [] w of
                  None \<Rightarrow> None | Some (r, w1) \<Rightarrow> Some (r, p1, w1))))"

fun detect_all ::
    "'w usage_env \<Rightarrow> string \<Rightarrow> string list \<Rightarrow> (string \<times> string) list \<Rightarrow> 'w
       \<Rightarrow> (go_err + (string \<times> string) list) \<times> 'w" where
  "detect_all ue region [] m w = (Inr m, w)"
| "detect_all ue region (i # is) m w =
     (case detectEngine (ueDescribe ue) i region w of
        (Inl e, w1) \<Rightarrow> (Inl e, w1)
      | (Inr engine, w1) \<Rightarrow> detect_all ue region is (set_engine m (i, engine)) w1)"

definition usagesFromRegion ::
    "'w usage_env \<Rightarrow> string \<Rightarrow> string \<Rightarrow> string list \<Rightarrow> 'w
       \<Rightarrow> ((go_err + instance_usage list) \<times> 'w) option" where
  "usagesFromRegion ue region role insts w =
     (case ueAws ue region role of
        Some e \<Rightarrow> Some (Inl e, w)
      | None \<Rightarrow>
          (case (if insts = [] then
                   (case ListInstances (ueDiscovery ue) [] w of
                      None \<Rightarrow> None
                    | Some (Inl e, w1) \<Rightarrow> Some (Inl e, w1)
                    | Some (Inr ds, w1) \<Rightarrow>
                        Some (Inr (foldl set_engine [] (map (\<lambda>d. (dvID d, dvEngine d)) ds)), w1))
                 else Some (detect_all ue region insts [] w)) of
             None \<Rightarrow> None
           | Some (Inl e, w1) \<Rightarrow> Some (Inl e, w1)
           | Some (Inr engines, w1) \<Rightarrow>
               (case usages_of ue region (ueOrder ue engines) [] [] w1 of
                  None \<Rightarrow> None
                | Some (Inl e, w2) \<Rightarrow> Some (Inl e, w2)
                | Some (Inr (_, us), w2) \<Rightarrow> Some (Inr us, w2))))"

section \<open>The command\<close>

record estimate_opts =
  eoConfig :: string
  eoRegion :: string
  eoInstances :: "string list"
  eoAssumeRole :: string
  eoPrices :: prices

definition cost_estimate_run ::
    "int \<Rightarrow> (string \<Rightarrow> go_err + config) \<Rightarrow> (string \<Rightarrow> string) \<Rightarrow> 'w usage_env \<Rightarrow> estimate_opts \<Rightarrow> 'w
       \<Rightarrow> ((go_err + report) \<times> 'w) option" where
  "cost_estimate_run ovf load getenv ue o' w =
     (let region = (if eoRegion o' = [] then getenv ''AWS_REGION'' else eoRegion o') in
      case (if eoConfig o' \<noteq> [] then
              (if eoRegion o' \<noteq> [] \<or> eoInstances o' \<noteq> [] \<or> eoAssumeRole o' \<noteq> []
               then Some (Inl (ErrMsg ''--region/--instance/--assume-role are for no-config mode; with --config the fleet comes from the config file''), eoPrices o', w)
               else usagesFromConfig (load (eoConfig o')) ue (eoPrices o') w)
            else if region = []
            then Some (Inl (ErrMsg ''--config or --region is required (or set AWS_REGION)''), eoPrices o', w)
            else (case usagesFromRegion ue region (eoAssumeRole o') (eoInstances o') w of
                    None \<Rightarrow> None | Some (r, w1) \<Rightarrow> Some (r, eoPrices o', w1))) of
        None \<Rightarrow> None
      | Some (Inl e, p, w1) \<Rightarrow> Some (Inl e, w1)
      | Some (Inr us, p, w1) \<Rightarrow>
          if us = [] then Some (Inl (ErrMsg ''no RDS instances to estimate''), w1)
          else Some (Inr (Estimate ovf us (ueNow ue w1) p), w1))"

text \<open>What it prints; None is the panic of the text report.\<close>

definition cost_estimate_out :: "(report \<Rightarrow> go_err + string) \<Rightarrow> bool \<Rightarrow> report \<Rightarrow> (go_err + string) option" where
  "cost_estimate_out json jsonOut r =
     (if jsonOut then Some (map_sum id (\<lambda>out. out @ newline) (json r)) else map_option Inr (Text r))"

section \<open>The size of a number\<close>

lemma human_loop_spec:
  "1 \<le> m \<Longrightarrow> m * dv \<le> n \<Longrightarrow> n < (m + 1) * dv \<Longrightarrow> dv = 1024 ^ Suc ex \<Longrightarrow>
     human_loop m dv ex = (dv', ex') \<Longrightarrow> dv' = 1024 ^ Suc ex' \<and> dv' \<le> n \<and> n < dv' * 1024"
proof (induction m dv ex rule: human_loop.induct)
  case (1 m dv ex)
  have pos: "0 < dv" using 1(5) by simp
  show ?case
  proof (cases "m \<ge> 1024")
    case True
    let ?q = "m div 1024"
    have "?q * 1024 \<le> m" "m + 1 \<le> (?q + 1) * 1024" by simp_all
    then have "?q * 1024 * dv \<le> m * dv" "(m + 1) * dv \<le> (?q + 1) * 1024 * dv"
      using pos by (simp_all only: mult_right_mono less_imp_le)
    moreover have "?q * (dv * 1024) = ?q * 1024 * dv" "(?q + 1) * (dv * 1024) = (?q + 1) * 1024 * dv"
      by simp_all
    ultimately have a: "?q * (dv * 1024) \<le> n" "n < (?q + 1) * (dv * 1024)" using 1(3,4) by linarith+
    have b: "human_loop ?q (dv * 1024) (ex + 1) = (dv', ex')"
      using 1(6) True by (simp add: human_loop.simps [of m])
    have c: "1 \<le> ?q" "dv * 1024 = 1024 ^ Suc (ex + 1)" using True 1(5) by simp_all
    show ?thesis by (rule 1(1) [OF True c(1) a c(2) b])
  next
    case False
    then have "dv' = dv" "ex' = ex" using 1(6) by (simp_all add: human_loop.simps [of m])
    moreover have "1 * dv \<le> m * dv" "(m + 1) * dv \<le> 1024 * dv"
      using False 1(2) pos by (intro mult_right_mono; simp)+
    ultimately show ?thesis unfolding \<open>dv' = dv\<close> \<open>ex' = ex\<close> using 1(3,4,5) by (intro conjI) linarith+
  qed
qed

lemma humanBytes_total:
  assumes "n \<le> i64_max"
  shows "\<exists>s. humanBytes n = Some s"
proof (cases "n < 1024")
  case False
  obtain dv ex where h: "human_loop (n div 1024) 1024 0 = (dv, ex)"
    by (cases "human_loop (n div 1024) 1024 0")
  have "dv = 1024 ^ Suc ex \<and> dv \<le> n \<and> n < dv * 1024"
    by (rule human_loop_spec [OF _ _ _ _ h]) (use False in auto)
  then have "(1024 :: int) ^ Suc ex \<le> i64_max" using assms by simp
  moreover have "(1024 :: int) ^ 7 \<le> 1024 ^ Suc ex" if "\<not> ex < 6" using that by (intro power_increasing) auto
  ultimately have "ex < 6" by (auto simp: i64_max_def)
  then show ?thesis using False h by (simp add: humanBytes_def)
qed (simp add: humanBytes_def)

section \<open>Properties\<close>

lemma in_i64_trunc: "in_i64 ovf \<Longrightarrow> in_i64 (trunc ovf x)"
  by (simp add: trunc_def Let_def)

lemma in_i64_fold_wrap: "in_i64 a \<Longrightarrow> in_i64 (foldl (\<lambda>n x. wrap64 (n + f x)) a xs)"
  by (induction xs arbitrary: a) simp_all

lemma in_i64_zero [simp]: "in_i64 0"
  by (simp add: in_i64_def i64_min_def i64_max_def)

lemma humanBytes_i64: "in_i64 n \<Longrightarrow> humanBytes n \<noteq> None"
  using humanBytes_total [of n] by (auto simp: in_i64_def)

lemma in_i64_retained: "in_i64 (retained fs)"
  unfolding retained_def by (rule in_i64_fold_wrap) simp

lemma estimateInstance_i64:
  "in_i64 ovf \<Longrightarrow> in_i64 (ieRetained (estimateInstance ovf u now))
     \<and> in_i64 (ieDaily (estimateInstance ovf u now)) \<and> in_i64 (ieMonthly (estimateInstance ovf u now))"
proof (cases "retained (iuFiles u) = 0")
  case True
  then show ?thesis by (simp add: estimateInstance_def)
next
  case False
  obtain span rough where sp: "span_of (oldest (iuFiles u)) now = (span, rough)" by fastforce
  assume "in_i64 ovf"
  then show ?thesis using in_i64_retained [of "iuFiles u"]
    unfolding estimateInstance_def Let_def sp if_not_P [OF False] prod.case
    by (intro conjI) (simp_all only: instance_estimate.select_convs in_i64_trunc)
qed

lemma instance_rows_total:
  "\<forall>e \<in> set es. in_i64 (ieRetained e) \<and> in_i64 (ieDaily e) \<and> in_i64 (ieMonthly e) \<Longrightarrow>
     \<exists>s. instance_rows es = Some s"
proof (induction es)
  case (Cons e es)
  obtain a b c where "humanBytes (ieRetained e) = Some a" "humanBytes (ieDaily e) = Some b"
      "humanBytes (ieMonthly e) = Some c"
    using Cons.prems humanBytes_i64 [of "ieRetained e"] humanBytes_i64 [of "ieDaily e"]
      humanBytes_i64 [of "ieMonthly e"] by fastforce
  then have "\<exists>r. instance_row e = Some r" unfolding instance_row_def by simp
  then show ?case using Cons by auto
qed simp

text \<open>The report of an estimate can always be rendered: whatever the sizes of the files, whatever
  wraps and whatever the conversion of an overflowing float gives, humanBytes never indexes
  behind its units.\<close>

lemma report_renders:
  assumes "in_i64 ovf"
  shows "\<exists>t. Text (Estimate ovf usages now p) = Some t"
proof -
  let ?es = "map (\<lambda>u. estimateInstance ovf u now) (sort_key iuInstanceID usages)"
  obtain rows where "instance_rows ?es = Some rows"
    using instance_rows_total [of ?es] estimateInstance_i64 [OF assms] by auto
  moreover have hb: "\<exists>s. humanBytes (foldl (\<lambda>n e. wrap64 (n + f e)) 0 ?es) = Some s" for f
    using humanBytes_i64 [OF in_i64_fold_wrap [OF in_i64_zero]] by blast
  moreover obtain d m where "humanBytes (foldl (\<lambda>n e. wrap64 (n + ieDaily e)) 0 ?es) = Some d"
      "humanBytes (foldl (\<lambda>n e. wrap64 (n + ieMonthly e)) 0 ?es) = Some m"
    using hb [of ieDaily] hb [of ieMonthly] by blast
  ultimately show ?thesis unfolding Text_def Estimate_def Let_def by simp
qed

lemma report_renders_witness: "\<exists>t. Text (Estimate i64_min [] unix_epoch DefaultPrices) = Some t"
  using report_renders [of i64_min "[]" unix_epoch DefaultPrices]
  by (simp add: in_i64_def i64_min_def i64_max_def)

text \<open>The price adds up: both totals are the sums of their parts and differ by the savings, the
  PUT requests are just enough objects of the batch size to hold the volume, no price is
  negative, and the savings never exceed the whole CloudWatch bill.\<close>

lemma price_accounts:
  fixes bytes ovf :: int and p :: prices
  assumes "in_i64 bytes" "0 \<le> bytes" "0 \<le> prIngest p" "0 \<le> prStorage p" "0 \<le> prPut p" "0 \<le> prS3Storage p"
  defines "c \<equiv> price ovf bytes p"
  shows "coCWTotal c = coCWIngest c + coCWStorage c \<and> coRdstail c = coPut c + coS3Storage c
    \<and> coRdstail c + coSavings c = coCWTotal c \<and> 0 \<le> coRdstail c \<and> coPercent c \<le> 100
    \<and> (0 < bytes \<longrightarrow> 0 < prBatchBytes p \<longrightarrow>
         (coPutCount c - 1) * prBatchBytes p < bytes \<and> bytes \<le> coPutCount c * prBatchBytes p)"
proof -
  let ?b = "prBatchBytes p" and ?q = "\<lceil>of_int bytes / (of_int (prBatchBytes p) :: rat)\<rceil>"
  have q: "(?q - 1) * ?b < bytes \<and> bytes \<le> ?q * ?b \<and> 0 \<le> ?q \<and> ?q \<le> bytes" if "0 < ?b" "0 < bytes"
  proof -
    have b: "(0 :: rat) < of_int ?b" using that by simp
    have "of_int ?q - 1 < of_int bytes / (of_int ?b :: rat)" "of_int bytes / (of_int ?b :: rat) \<le> of_int ?q"
      by linarith+
    then have "(of_int ?q - 1) * of_int ?b < (of_int bytes :: rat)" "(of_int bytes :: rat) \<le> of_int ?q * of_int ?b"
      by (simp_all only: pos_less_divide_eq [OF b] pos_divide_le_eq [OF b])
    then have "of_int ((?q - 1) * ?b) < (of_int bytes :: rat)" "(of_int bytes :: rat) \<le> of_int (?q * ?b)"
      by simp_all
    then have m: "(?q - 1) * ?b < bytes" "bytes \<le> ?q * ?b" by (simp_all only: of_int_less_iff of_int_le_iff)
    have "0 < ?q" using m(2) that by (metis less_le_trans zero_less_mult_pos2)
    moreover have "(?q - 1) * 1 \<le> (?q - 1) * ?b" using \<open>0 < ?q\<close> that by (intro mult_left_mono) auto
    then have "?q - 1 < bytes" using m(1) by simp
    ultimately show ?thesis using m by simp
  qed
  have puts: "coPutCount c = ?q" if "0 < ?b" "0 < bytes"
    using q [OF that] assms(1) that
    by (auto simp: c_def price_def put_count_def trunc_def Let_def in_i64_def i64_min_def)
  have nonneg: "0 \<le> coPutCount c"
    using puts q assms(2) by (cases "0 < ?b \<and> 0 < bytes") (auto simp: c_def price_def put_count_def Let_def)
  have r: "0 \<le> coRdstail c" "coRdstail c + coSavings c = coCWTotal c"
    using nonneg assms(2-6) by (auto simp: c_def price_def Let_def)
  have "coSavings c \<le> coCWTotal c" using r by simp
  then have "coPercent c \<le> 100"
    by (auto simp: c_def price_def Let_def divide_le_eq)
  moreover have "coCWTotal c = coCWIngest c + coCWStorage c" "coRdstail c = coPut c + coS3Storage c"
    by (simp_all add: c_def price_def Let_def)
  ultimately show ?thesis using r puts q by auto
qed

lemma price_accounts_witness:
  "(coPutCount (price 0 10485761 DefaultPrices) - 1) * 5242880 < 10485761
     \<and> 10485761 \<le> coPutCount (price 0 10485761 DefaultPrices) * 5242880"
  using price_accounts [of 10485761 DefaultPrices 0]
  by (simp add: DefaultPrices_def in_i64_def i64_min_def i64_max_def)

text \<open>C36. The estimate of a configuration whose first source discovers every instance of its region
  fails before anything is read, whatever AWS answers, although validation accepts the
  configuration: the call leaves out All (and ExcludeTags).  The call run makes for the same
  source lists the region.\<close>

theorem estimate_rejects_discover_all:
  assumes "Validate cfg = None" "cfSources cfg = src # srcs" "soDiscover src = Some d"
    and "dcTags d = []" "dcAll d" "ueAws ue (soRegion src) (soAssumeRole src) = None"
  shows "(\<exists>p'. usagesFromConfig (Inr cfg) ue p w
      = Some (Inl (Wrapped ''sources[0]'' (ErrMsg ''rds discover: set at least one tag, or all'')), p', w))
    \<and> DiscoverInstances api \<lparr>dfTags = dcTags d, dfExcludeTags = dcExcludeTags d, dfAll = dcAll d,
          dfEngine = soEngine src\<rparr> w = listInstances api (soEngine src) [] (dcExcludeTags d) w"
  using assms
  by (simp add: usagesFromConfig_def DiscoverInstances_def Let_def nat_str.simps digit_char_def
      char_of_def bit_0)

definition all_source :: source where
  "all_source = \<lparr>soType = ''rds'', soEngine = ''postgres'', soRegion = ''r'', soRegions = [],
     soInstances = [], soDiscover = Some \<lparr>dcTags = [], dcAll = True, dcExcludeTags = [], dcRefreshInterval = 0\<rparr>,
     soAssumeRole = [], soIncludeAudit = False\<rparr>"

definition all_sink :: sink_cfg where
  "all_sink = \<lparr>csName = ''out'', csType = ''stdout'',
     csRetry = \<lparr>rpMaxAttempts = 3, rpInitialWait = second, rpMaxWait = minute, rpMultiplier = 2\<rparr>,
     csFilter = None, csS3 = None, csKafka = None, csHTTP = None, csStdout = None\<rparr>"

definition all_cfg :: config where
  "all_cfg = defaults\<lparr>cfSources := [all_source], cfSinks := [all_sink]\<rparr>"

lemma all_cfg_valid: "Validate all_cfg = None"
  by (simp add: Validate_def validate_all_def all_cfg_def chk_def defaults_def all_source_def all_sink_def
      validate_source_def isValidEngine_def validateSinkShape_def validate_runtime_def shard_Parse_def
      trim_space_def second_def is_space_def Let_def shard_All_def StartFromBeginning_def StartFromEnd_def)

theorem estimate_rejects_discover_all_witness:
  "\<forall>(api :: unit discovery_api) rds desc. \<exists>p' e. usagesFromConfig (Inr all_cfg)
      \<lparr>ueAws = (\<lambda>_ _. None), ueApi = rds, ueDiscovery = api, ueDescribe = desc, ueNow = (\<lambda>_. unix_epoch),
        ueOrder = id\<rparr> DefaultPrices () = Some (Inl (Wrapped ''sources[0]'' e), p', ())"
proof (intro allI)
  fix api :: "unit discovery_api" and rds desc
  let ?ue = "\<lparr>ueAws = (\<lambda>_ _. None), ueApi = rds, ueDiscovery = api, ueDescribe = desc,
      ueNow = (\<lambda>_. unix_epoch), ueOrder = id\<rparr>"
  show "\<exists>p' e. usagesFromConfig (Inr all_cfg) ?ue DefaultPrices () = Some (Inl (Wrapped ''sources[0]'' e), p', ())"
    using estimate_rejects_discover_all [OF all_cfg_valid, of all_source "[]" _ ?ue DefaultPrices "()" api]
    by (auto simp: all_cfg_def all_source_def)
qed

end
