(* ===== verification/Commands.thy ===== *)
theory Commands
  imports Cli CostEstimate
begin

text \<open>
  The command tree that New of internal/cli/cli.go builds: every command with its name, its
  summary and its flags (name, shorthand, default, help).  The long descriptions and the
  examples are left out; what a command does with its flags is in Cli, Dump and CostEstimate,
  and parsing a command line is the library's (cobra).
\<close>

section \<open>Flags and commands\<close>

datatype flag_value =
    StringVar string
  | StringArrayVar
  | BoolVar bool
  | IntVar int
  | DurationVar duration
  | FloatVar rat

record flag =
  fgName :: string
  fgShorthand :: string
  fgDefault :: flag_value
  fgUsage :: string

definition mk_flag :: "string \<Rightarrow> string \<Rightarrow> flag_value \<Rightarrow> string \<Rightarrow> flag" where
  "mk_flag nm sh dflt usage = \<lparr>fgName = nm, fgShorthand = sh, fgDefault = dflt, fgUsage = usage\<rparr>"

text \<open>Use, Short, the flags of the command, the persistent flags, and the subcommands.\<close>

datatype command = Command string string "flag list" "flag list" "command list"

fun cm_use :: "command \<Rightarrow> string" where
  "cm_use (Command u s fl pf subs) = u"

section \<open>The flags\<close>

definition root_flags :: "flag list" where
  "root_flags =
   [mk_flag ''config'' ''c'' (StringVar '''')
      ''path to YAML config (required for run/validate)'',
    mk_flag ''log-level'' '''' (StringVar ''info'')
      ''log level: debug|info|warn|error'']"

definition run_flags :: "flag list" where
  "run_flags =
   [mk_flag ''shard'' '''' (StringVar '''')
      (''ingest only this process's share of the fleet, i/n (e.g. 2/4); each shard needs '' @
       ''its own state store'')]"

definition validate_flags :: "flag list" where
  "validate_flags =
   [mk_flag ''deep'' '''' (BoolVar False)
      ''run network-level probes against AWS and sinks'']"

definition iam_policy_flags :: "flag list" where
  "iam_policy_flags =
   [mk_flag ''deep'' '''' (BoolVar False)
      ''include the extra permissions `validate --deep` probes use (s3:ListBucket)'',
    mk_flag ''terraform'' '''' (BoolVar False)
      ''emit a Terraform aws_iam_policy_document data source instead of JSON'']"

definition init_flags :: "flag list" where
  "init_flags =
   [mk_flag ''region'' '''' (StringVar '''')
      ''AWS region to list instances in (default: $AWS_REGION, else asked)'',
    mk_flag ''output'' ''o'' (StringVar ''rdstail.yaml'')
      ''where to write the config'']"

definition cost_estimate_flags :: "flag list" where
  "cost_estimate_flags =
   [mk_flag ''region'' '''' (StringVar '''')
      ''AWS region for no-config mode (default: $AWS_REGION)'',
    mk_flag ''instance'' ''i'' (StringArrayVar)
      (''instance to estimate in no-config mode (repeatable; default: all supported '' @
       ''instances in the region)''),
    mk_flag ''assume-role'' '''' (StringVar '''')
      ''role ARN for cross-account access in no-config mode'',
    mk_flag ''json'' '''' (BoolVar False)
      ''emit the full report as JSON'',
    mk_flag ''cw-ingest-per-gb'' '''' (FloatVar (prIngest DefaultPrices))
      ''CloudWatch Logs ingestion price per GB'',
    mk_flag ''cw-storage-per-gb'' '''' (FloatVar (prStorage DefaultPrices))
      ''CloudWatch Logs storage price per GB-month'',
    mk_flag ''s3-put-per-1k'' '''' (FloatVar (prPut DefaultPrices))
      ''S3 PUT price per 1,000 requests'',
    mk_flag ''s3-storage-per-gb'' '''' (FloatVar (prS3Storage DefaultPrices))
      ''S3 storage price per GB-month'',
    mk_flag ''compression-ratio'' '''' (FloatVar (prRatio DefaultPrices))
      ''assumed NDJSON+gzip compression ratio for S3 storage'']"

definition dlq_list_flags :: "flag list" where
  "dlq_list_flags =
   [mk_flag ''limit'' '''' (IntVar 50)
      ''maximum items to show'',
    mk_flag ''sink'' '''' (StringVar '''')
      ''only items parked for this sink name'',
    mk_flag ''json'' '''' (BoolVar False)
      ''emit one JSON object per line (includes full payload)'']"

definition dlq_replay_flags :: "flag list" where
  "dlq_replay_flags =
   [mk_flag ''sink'' '''' (StringVar '''')
      ''only replay items parked for this sink name'',
    mk_flag ''limit'' '''' (IntVar 0)
      ''stop after this many items (0 = all)'',
    mk_flag ''dry-run'' '''' (BoolVar False)
      ''report what would be replayed without writing'']"

definition dlq_purge_flags :: "flag list" where
  "dlq_purge_flags =
   [mk_flag ''sink'' '''' (StringVar '''')
      ''only purge items parked for this sink name (default: all)'',
    mk_flag ''id'' '''' (IntVar 0)
      ''purge a single item by ID'',
    mk_flag ''yes'' '''' (BoolVar False)
      ''confirm the purge'']"

definition tail_flags :: "flag list" where
  "tail_flags =
   [mk_flag ''instance'' ''i'' (StringArrayVar)
      ''RDS instance identifier (repeatable to tail several)'',
    mk_flag ''region'' '''' (StringVar '''')
      ''AWS region (default: $AWS_REGION)'',
    mk_flag ''engine'' '''' (StringVar '''')
      ''postgres|mysql|mariadb (default: auto-detect per instance)'',
    mk_flag ''assume-role'' '''' (StringVar '''')
      ''role ARN for cross-account access'',
    mk_flag ''format'' '''' (StringVar ''text'')
      ''output format: text|ndjson'',
    mk_flag ''min-severity'' '''' (StringVar '''')
      ''only lines at/above this severity (e.g. ERROR)'',
    mk_flag ''grep'' '''' (StringVar '''')
      ''only lines matching this regular expression (RE2)'',
    mk_flag ''since'' '''' (DurationVar 0)
      (''replay the last N (e.g. 1h) before following (implies reading kept files from the '' @
       ''beginning)''),
    mk_flag ''poll'' '''' (DurationVar (5 * second))
      ''poll interval'',
    mk_flag ''from-beginning'' '''' (BoolVar False)
      ''start from the beginning of each log file instead of the tail'']"

definition dump_flags :: "flag list" where
  "dump_flags =
   [mk_flag ''instance'' ''i'' (StringArrayVar)
      ''RDS instance identifier (repeatable)'',
    mk_flag ''region'' '''' (StringVar '''')
      ''AWS region (default: $AWS_REGION)'',
    mk_flag ''engine'' '''' (StringVar '''')
      ''postgres|mysql|mariadb (default: auto-detect per instance)'',
    mk_flag ''assume-role'' '''' (StringVar '''')
      ''role ARN for cross-account access'',
    mk_flag ''format'' '''' (StringVar ''ndjson'')
      ''output format: ndjson|text'',
    mk_flag ''grep'' '''' (StringVar '''')
      ''only lines matching this regular expression (RE2)'',
    mk_flag ''since'' '''' (DurationVar (24 * hour))
      ''how far back to fetch (e.g. 24h)'',
    mk_flag ''output'' ''o'' (StringVar '''')
      ''output path (.gz for gzip; default: stdout)'']"

definition state_gc_flags :: "flag list" where
  "state_gc_flags =
   [mk_flag ''older-than'' '''' (DurationVar (30 * 24 * hour))
      ''prune checkpoints not updated in this long (>= 1h)'',
    mk_flag ''dry-run'' '''' (BoolVar False)
      ''report what would be pruned without deleting'']"

section \<open>The tree\<close>

definition init_command :: command where
  "init_command = Command ''init''
     ''Interactively create a working rdstail.yaml from your live AWS account.''
     init_flags [] []"

definition run_command :: command where
  "run_command = Command ''run''
     ''Run the log shipper.''
     run_flags [] []"

definition validate_command :: command where
  "validate_command = Command ''validate''
     ''Validate a config file (schema only; --deep probes AWS/sinks).''
     validate_flags [] []"

definition iam_policy_command :: command where
  "iam_policy_command = Command ''iam-policy''
     ''Print the minimal IAM policy this config needs.''
     iam_policy_flags [] []"

definition cost_estimate_command :: command where
  "cost_estimate_command = Command ''cost-estimate''
     ''Project your fleet's monthly log volume and price CloudWatch vs rdstail.''
     cost_estimate_flags [] []"

definition dlq_list_command :: command where
  "dlq_list_command = Command ''list''
     ''List dead-lettered batches (oldest first).''
     dlq_list_flags [] []"

definition dlq_replay_command :: command where
  "dlq_replay_command = Command ''replay''
     ''Re-deliver dead-lettered batches through their sinks; delete on ACK.''
     dlq_replay_flags [] []"

definition dlq_purge_command :: command where
  "dlq_purge_command = Command ''purge''
     ''Permanently delete dead-lettered batches WITHOUT replaying them.''
     dlq_purge_flags [] []"

definition dlq_command :: command where
  "dlq_command = Command ''dlq''
     ''Inspect, replay, or purge dead-lettered batches.''
     [] [] [dlq_list_command, dlq_replay_command, dlq_purge_command]"

definition discover_command :: command where
  "discover_command = Command ''discover''
     ''Preview which RDS instances tag-based discovery would ingest.''
     [] [] []"

definition tail_command :: command where
  "tail_command = Command ''tail''
     (''Stream RDS instances' logs to stdout '' @ em_dash @ '' tail -f, no config file.'')
     tail_flags [] []"

definition dump_command :: command where
  "dump_command = Command ''dump''
     (''One-shot fetch of a time window of RDS logs '' @ em_dash @ '' for postmortems and tickets.'')
     dump_flags [] []"

definition state_gc_command :: command where
  "state_gc_command = Command ''gc''
     ''Prune checkpoints for log files not seen recently (rotated out / departed instances).''
     state_gc_flags [] []"

definition state_command :: command where
  "state_command = Command ''state''
     ''Inspect and maintain the checkpoint store.''
     [] [] [state_gc_command]"

definition version_command :: command where
  "version_command = Command ''version''
     ''Print version information.''
     [] [] []"

definition New :: command where
  "New = Command ''rdstail'' ''Stream AWS RDS logs to S3, Kafka, or HTTP sinks.'' [] root_flags
     [init_command, run_command, validate_command, iam_policy_command, cost_estimate_command, dlq_command,
      discover_command, tail_command, dump_command, state_command, version_command]"

lemmas command_tree = New_def init_command_def run_command_def validate_command_def iam_policy_command_def
  cost_estimate_command_def dlq_command_def dlq_list_command_def dlq_replay_command_def dlq_purge_command_def
  discover_command_def tail_command_def dump_command_def state_command_def state_gc_command_def
  version_command_def

lemmas command_flags = root_flags_def run_flags_def validate_flags_def iam_policy_flags_def init_flags_def
  cost_estimate_flags_def dlq_list_flags_def dlq_replay_flags_def dlq_purge_flags_def tail_flags_def
  dump_flags_def state_gc_flags_def mk_flag_def

section \<open>No flag shadows another\<close>

text \<open>
  The flag library panics when a command sees two flags of one name or one shorthand, its own
  or inherited; subcommands are told apart by name.
\<close>

fun clash_free :: "flag list \<Rightarrow> command \<Rightarrow> bool" where
  "clash_free inherited (Command u s fl pf subs) =
     (distinct (map fgName (inherited @ pf @ fl))
      \<and> distinct (filter (\<lambda>x. x \<noteq> []) (map fgShorthand (inherited @ pf @ fl)))
      \<and> distinct (map cm_use subs) \<and> (\<forall>c \<in> set subs. clash_free (inherited @ pf) c))"

text \<open>The command tree is well formed, the flag -h, --help of the library included.\<close>

lemma New_clash_free: "clash_free [mk_flag ''help'' ''h'' (BoolVar False) ''help''] New"
  by (simp add: command_tree command_flags)

end
