(* ===== verification/Spec2Isabelle.thy ===== *)
theory Spec2Isabelle
  imports ParallelProps PollProps Metrics FileStore Watch IamPolicy Commands
begin

text \<open>
  Verification of rdstail, a daemon that ships the log files of RDS instances to sinks (S3, Kafka,
  HTTP, standard output).  Each theory models one component of the Go code under src/ and proves
  what makes it correct; this theory states the properties that span components.

  \<^bold>\<open>The program.\<close>  internal/config validates the configuration.  internal/app opens the state store
  (internal/state: SQLite, a JSON file, or memory), builds one stack of decorators per sink
  (internal/sink/factory: filter, dead letters, retry, metrics around the bare sink), joins the
  stacks by a fan-out, resolves the instances (explicit ones and internal/source/rds discovery,
  restricted to the shard of the process) and starts the scheduler of internal/pipeline.  The
  scheduler runs one worker per instance and reconciles them with a periodic refresh.  A worker
  polls: it lists the log files (fetcher), plans hourly rotation, and drains each file portion by
  portion into the sink, moving the checkpoint of the file forward only over what the sink has
  acknowledged.  Batches a sink refuses for good are parked in the dead-letter queue, which
  internal/replay drains again.  internal/cli wraps these operations and adds one-shot commands.

  \<^bold>\<open>Theories and code.\<close>
  Base, Regex and Hash hold the Go values and library functions the code uses (errors.Is and Join,
  package strings, strconv, time, regexp, FNV-1a, SHA-256).
  LogRecord: pkg/logrecord.  Parse: internal/parse.  Rotation, Classifier, Fetcher, Discovery:
  rotation.go, classifier.go, fetcher.go with client.go, discovery.go and events.go of
  internal/source/rds.  Shard: internal/shard.  State, MemStore, FileStore, SqliteStore:
  internal/state.  Sink, SinkTypes, Factory: internal/sink, its five destinations and its factory.
  Config: internal/config.  Worker, Drain, Rotate, Poll: internal/pipeline/worker.go (the struct and
  its fields as the records worker and wst; drainFile with its closures and parallelDrain;
  planRotation; pollOnce, drainAll and Run).  Resolver and App: internal/app/app.go, and
  internal/metrics/dlqwatch.go.  Metrics: the collectors and the HTTP server of internal/metrics, and
  the adapter of internal/sink/metrics.go that counts into them.  Scheduler, Watch: internal/pipeline/scheduler.go (Run, and
  watchRestarts).  Replay: internal/replay.  IamPolicy, CostEstimate, Wizard: internal/iampolicy,
  internal/costestimate with its command, internal/initwizard.  Dump: internal/cli/dump.go.  Deep:
  internal/validate/deep.go and internal/awsx.  Cli: the remaining commands of internal/cli, main and
  the level parser of internal/logging.  Commands: the tree of commands and flags internal/cli builds.
  RecordProps, ShipStream, DrainProps, DrainLive, RangeProps, ParallelProps, PollProps and Delivery hold
  specifications and proofs about the definitions of the theories above; Sim is a concrete world
  (memory store, memory sink, SQLite queue, a scripted RDS) in which the witnesses run.

  \<^bold>\<open>How the code is modelled.\<close>  State is passed explicitly: an operation takes the world 'w and returns
  its result with the new world; errors are values of a sum or option type.  Interfaces of the code
  (RDS client, StateStore, DLQ, Sink, metrics probe) are records of such operations, so a component
  is modelled for every implementation of the interfaces it calls.  What lies outside the
  repository (AWS, HTTP, Kafka, SQL, the file system, JSON, YAML, gzip, the random source, Go's map
  order) is an argument.  A Go string is a byte list, a time an int of nanoseconds, an int64
  is wrapped where the code can overflow, float64 products are exact rationals, and the conversion of
  one that does not fit gives the number the environment names.  Loops whose end depends on the
  outside are partial functions into option: None is a call that does not return, and theorems
  that speak of results also prove that there is one.  No fuel bounds are used except the number of
  attempts of a retry and the number of ticks of a ticker.  The scheduler and its goroutines are a
  step relation; the drains of one poll run one after another in an arbitrary order.

  \<^bold>\<open>Interfaces as locales.\<close>  state_store and dead_letters (State) say what clients rely on of a store and
  of a queue; MemStore, FileStore and SqliteStore interpret them.  sink_contract and delivery (Delivery)
  say what a Write promises, through the decorators.  drain_world and its extension drain_store
  (DrainProps), healthy (DrainLive), rotation (Rotate, an extension of state_store) and replaying
  (Replay) are the interfaces the pipeline is proved against; Sim interprets them on the model.
  poll_world (PollProps) is a family of drain_stores that leave one another's checkpoints alone, and
  metering (Metrics) a Prometheus client that adds up what it is told, each interpreted in its theory.

  \<^bold>\<open>What is proved.\<close> A drain ships a prefix of the stream of messages a file
  owes and its durable checkpoint owes the rest, so that a crash or a failure anywhere re-ships but
  never loses (DrainProps, here); a drain in a world without faults ends without error (DrainLive);
  the drains of one poll do not disturb one another, so a whole poll keeps the contract for every
  file, ships everything when nothing fails, and after a failed poll and a restart recovers what was
  owed (PollProps); parallel range reads neither lose nor repeat a line, and the parallel drain
  returns and ships exactly the lines its checkpoint covers (RangeProps, ParallelProps); rotation
  hands the checkpoint of the live file over to the rotated hour; an acknowledged Write means
  accepted or parked, for one sink, a fan-out and a whole started process (Delivery, App), whose
  counter of processed records is exact (Metrics); a replay loses nothing; the scheduler never runs
  two workers of an instance and keeps the desired set; a restart is noted once; the stores read
  back what was written, survive crashes of a persist, and collect no fresh checkpoint; shards
  partition the fleet and move keys only to a new shard; parsing, classification, discovery, pacing
  and retry meet their bounds and specifications; validation, shallow and deep, predicts that the
  process starts; and the commands do what their flags say (Cli, Dump, CostEstimate, Wizard,
  IamPolicy), no flag of which shadows another (Commands). Where the code falls short of its
  comments, the theorem states what it does (backoff_overflow_panics,
  throttling_speeds_up_slow_polls, policy_allows_puts, estimate_rejects_discover_all,
  dlq_purge_scope).

  \<^bold>\<open>Not modelled.\<close>  Structured logging, the parser of command lines, the long help texts, signal
  handling and the accept loop of the HTTP server only call libraries.  The YAML decoder and the JSON
  codecs are third-party or library code: configurations start decoded, encoders are arguments; the
  Prometheus client is one too.  Truly simultaneous drains within one instance, the sharing of one sink
  by concurrent workers and the concurrent workers of tail are covered only as sequences.  poll_world
  asks for logs without restart banners and without rotated files, whose polls other theorems cover
  (restart_noted_once, rotation_handover).  What is left of the source beyond this is imports,
  comments and the declarations of the interfaces.
\<close>

section \<open>A drain ships every message at least once\<close>

text \<open>C1. Whatever fails and wherever a flush falls, drainFile returns; the messages the sink
  acknowledged are a prefix of the stream the log file owes from its durable checkpoint on,
  the new durable checkpoint owes everything that was not shipped, and a drain without error
  shipped the whole stream and checkpointed its end.\<close>

theorem drainFile_at_least_once:
  assumes "drain_store wk name R acked view" "fmName file = name" "reads_on wk ws file (view w)"
    and "chain (chunk_at (ftParser (wkFetcher wk)) R) (fst (resume_at (view w))) cs" "cs \<noteq> []"
  defines "full \<equiv> stream (snd (resume_at (view w))) [] cs"
  shows "\<exists>n err ws' w' sent. drainFile wk file ws w = Some ((n, err), ws', w')
      \<and> acked w' = acked w @ sent \<and> n = length sent \<and> prefix (map lrMessage sent) full
      \<and> covers_at (chunk_at (ftParser (wkFetcher wk)) R) full (cdNext (last cs)) (view w')
          (map lrMessage sent)
      \<and> (err = None \<longrightarrow> map lrMessage sent = full \<and> resume_at (view w') = (cdNext (last cs), False))"
  unfolding full_def by (rule drainFile_ships [OF assms(1-5)])

theorem drainFile_at_least_once_witness:
  "\<exists>n err ws' w' sent.
     drainFile two_wk log_a (initial_wst unix_epoch) (sim_init [False, True]) = Some ((n, err), ws', w')
     \<and> sim_acked w' = sim_acked (sim_init [False, True]) @ sent \<and> n = length sent"
  using drainFile_at_least_once [of two_wk "''a.log''" "sim_raw two_chunks" sim_acked "sim_view ''a.log''"
      log_a "initial_wst unix_epoch" "sim_init [False, True]" two_cs]
    two_chunks_run by (auto simp: log_a_def)

text \<open>C2. A drain that failed, crashed or was cancelled anywhere, followed by a drain that
  succeeds, ships every message of the stream: the second run ships exactly what the durable
  checkpoint of the first still owed, and what the two share is at most re-shipped, never lost.\<close>

theorem drainFile_resumes:
  assumes "drain_store wk name R acked view" "fmName file = name"
    and "reads_on wk ws file (view w)"
    and "chain (chunk_at (ftParser (wkFetcher wk)) R) (fst (resume_at (view w))) cs" "cs \<noteq> []"
    and "drainFile wk file ws w = Some ((n, err), ws1, w1)"
    and "reads_on wk ws2 file2 (view w1)" "fmName file2 = name"
    and "chain (chunk_at (ftParser (wkFetcher wk)) R) (fst (resume_at (view w1))) cs2" "cs2 \<noteq> []"
    and "drainFile wk file2 ws2 w1 = Some ((m, None), ws3, w2)"
  shows "\<exists>sent1 sent2 pre rest. acked w2 = acked w @ sent1 @ sent2
      \<and> stream (snd (resume_at (view w))) [] cs = pre @ rest
      \<and> prefix pre (map lrMessage sent1) \<and> prefix (map lrMessage sent1) (pre @ rest)
      \<and> (rest = map lrMessage sent2 \<or> rest = [])"
proof -
  let ?P = "chunk_at (ftParser (wkFetcher wk)) R"
  let ?full = "stream (snd (resume_at (view w))) [] cs"
  obtain sent1 where 1: "acked w1 = acked w @ sent1" "prefix (map lrMessage sent1) ?full"
      "covers_at ?P ?full (cdNext (last cs)) (view w1) (map lrMessage sent1)"
    using drainFile_ships [OF assms(1-5)] assms(6) by auto
  obtain sent2 where 2: "acked w2 = acked w1 @ sent2"
      "map lrMessage sent2 = stream (snd (resume_at (view w1))) [] cs2"
    using drainFile_ships [OF assms(1,8,7,9,10)] assms(11) by auto
  obtain pre rest where c: "?full = pre @ rest" "prefix pre (map lrMessage sent1)"
      "rest = map lrMessage sent2 \<or> rest = []"
    using covers_resume [OF 1(3) assms(9)] 2(2) prefix_order.trans by metis
  then show ?thesis using 1 2(1) c by (intro exI [of _ sent1] exI [of _ sent2]) auto
qed


theorem drainFile_resumes_witness:
  "\<exists>ws1 w1 m ws3 w2 e sent1 sent2 pre rest.
     drainFile two_wk log_a (initial_wst unix_epoch) (sim_init [True]) = Some ((0, Some e), ws1, w1)
     \<and> drainFile two_wk log_a (initial_wst unix_epoch) w1 = Some ((m, None), ws3, w2)
     \<and> sim_acked w2 = sim_acked (sim_init [True]) @ sent1 @ sent2
     \<and> prefix pre (map lrMessage sent1) \<and> (rest = map lrMessage sent2 \<or> rest = [])"
proof -
  let ?ws = "initial_wst unix_epoch"
  obtain e ws1 w1 where 1: "drainFile two_wk log_a ?ws (sim_init [True]) = Some ((0, Some e), ws1, w1)"
      "w1 = sim_init []"
    using two_run_fault by blast
  obtain m err ws3 w2 where 2: "drainFile two_wk log_a ?ws w1 = Some ((m, err), ws3, w2)"
    using drainFile_ships [of two_wk "''a.log''" "sim_raw two_chunks" sim_acked "sim_view ''a.log''"
      log_a ?ws w1 two_cs] two_chunks_run 1(2) by (auto simp: log_a_def)
  have "err = None"
    using simhl.drainFile_no_error [OF _ _ _ _ 2] two_start 1(2) sim_init_healthy [of "[]"] by simp
  then show ?thesis
    using drainFile_resumes [of two_wk "''a.log''" "sim_raw two_chunks" sim_acked "sim_view ''a.log''"
      log_a ?ws "sim_init [True]" two_cs 0 "Some e" ws1 w1 ?ws log_a two_cs m ws3 w2]
      two_chunks_run 1 2 by (auto simp: log_a_def)
qed

text \<open>Where no call fails, the drain returns without error, ships the whole stream of the
  file and leaves the checkpoint at its end.\<close>

lemma drainFile_live:
  assumes "drain_store wk name R acked view" "healthy wk name ok" "ok w" "fmName file = name"
    and "reads_on wk ws file (view w)"
    and "chain (chunk_at (ftParser (wkFetcher wk)) R) (fst (resume_at (view w))) cs" "cs \<noteq> []"
  shows "\<exists>ws' w' sent. drainFile wk file ws w = Some ((length sent, None), ws', w')
      \<and> acked w' = acked w @ sent
      \<and> map lrMessage sent = stream (snd (resume_at (view w))) [] cs
      \<and> resume_at (view w') = (cdNext (last cs), False)"
proof -
  obtain n err ws' w' sent where r: "drainFile wk file ws w = Some ((n, err), ws', w')"
      "acked w' = acked w @ sent" "n = length sent"
      "err = None \<longrightarrow> map lrMessage sent = stream (snd (resume_at (view w))) [] cs
         \<and> resume_at (view w') = (cdNext (last cs), False)"
    using drainFile_ships [OF assms(1,4-7)] by blast
  have "err = None"
    using drainFile_reads_on_ok [OF assms(1-5) r(1)] by blast
  then show ?thesis using r by blast
qed

lemma drainFile_live_witness:
  "\<exists>ws' w' sent. drainFile two_wk log_a (initial_wst unix_epoch) (sim_init []) = Some ((length sent, None), ws', w')
     \<and> map lrMessage sent = stream False [] two_cs \<and> sim_acked w' = sim_acked (sim_init []) @ sent"
  using drainFile_live [of two_wk "''a.log''" "sim_raw two_chunks" sim_acked "sim_view ''a.log''" sim_healthy
      "sim_init []" log_a "initial_wst unix_epoch" two_cs]
    two_chunks_run two_start sim_init_healthy [of "[]"] simhl.healthy_axioms [of two_chunks None 0]
  by auto

text \<open>C6. Batching never changes what is shipped: two workers on the same file that differ in
  their batch limits ship the same messages when both drains succeed.\<close>

theorem drainFile_batching_independent:
  assumes "drain_store wk1 name R acked1 view1" "drain_store wk2 name R acked2 view2"
    and "ftParser (wkFetcher wk1) = ftParser (wkFetcher wk2)" "fmName file = name"
    and "reads_on wk1 ws1 file (view1 w1)" "reads_on wk2 ws2 file (view2 w2)"
    and "resume_at (view1 w1) = resume_at (view2 w2)"
    and "chain (chunk_at (ftParser (wkFetcher wk1)) R) (fst (resume_at (view1 w1))) cs" "cs \<noteq> []"
    and "drainFile wk1 file ws1 w1 = Some ((n1, None), ws1', w1')"
    and "drainFile wk2 file ws2 w2 = Some ((n2, None), ws2', w2')"
  shows "n1 = n2 \<and> (\<exists>sent1 sent2. acked1 w1' = acked1 w1 @ sent1 \<and> acked2 w2' = acked2 w2 @ sent2
           \<and> map lrMessage sent1 = map lrMessage sent2)"
proof -
  obtain sent1 where 1: "n1 = length sent1" "acked1 w1' = acked1 w1 @ sent1"
      "map lrMessage sent1 = stream (snd (resume_at (view1 w1))) [] cs"
    using drainFile_ships [OF assms(1,4,5,8,9)] assms(10) by auto
  obtain sent2 where 2: "n2 = length sent2" "acked2 w2' = acked2 w2 @ sent2"
      "map lrMessage sent2 = stream (snd (resume_at (view1 w1))) [] cs"
    using drainFile_ships [OF assms(2,4,6) _ assms(9)] assms(3,7,8,11) by auto
  have "length sent1 = length sent2" using 1(3) 2(3) by (metis length_map)
  then show ?thesis using 1 2 by auto
qed

theorem drainFile_batching_independent_witness:
  "\<exists>n1 n2 ws1 ws2 w1 w2.
     drainFile two_wk log_a (initial_wst unix_epoch) (sim_init []) = Some ((n1, None), ws1, w1)
     \<and> drainFile (sim_worker two_chunks None 1000) log_a (initial_wst unix_epoch) (sim_init [])
         = Some ((n2, None), ws2, w2) \<and> n1 = n2"
proof -
  let ?wk2 = "sim_worker two_chunks None 1000" and ?ws = "initial_wst unix_epoch" and ?w = "sim_init []"
  have h: "sim_healthy ?w" by (simp add: sim_init_healthy)
  obtain n1 e1 ws1 w1 where 1: "drainFile two_wk log_a ?ws ?w = Some ((n1, e1), ws1, w1)"
    using drainFile_ships [of two_wk "''a.log''" "sim_raw two_chunks" sim_acked "sim_view ''a.log''"
        log_a ?ws ?w two_cs] two_chunks_run by auto
  obtain n2 e2 ws2 w2 where 2: "drainFile ?wk2 log_a ?ws ?w = Some ((n2, e2), ws2, w2)"
    using drainFile_ships [of ?wk2 "''a.log''" "sim_raw two_chunks" sim_acked "sim_view ''a.log''"
        log_a ?ws ?w two_cs] two_chunks_run by (auto simp: log_a_def)
  have "e1 = None" using simhl.drainFile_no_error [OF h _ _ _ 1] two_start by simp
  moreover have "e2 = None" using simhl.drainFile_no_error [OF h _ _ _ 2] two_start by simp
  ultimately show ?thesis
    using 1 2 drainFile_batching_independent [of two_wk "''a.log''" "sim_raw two_chunks" sim_acked
        "sim_view ''a.log''" ?wk2 sim_acked "sim_view ''a.log''" log_a ?ws ?w ?ws ?w two_cs n1 ws1 w1 n2 ws2 w2]
      two_chunks_run by (auto simp: log_a_def)
qed

section \<open>Hourly rotation\<close>

text \<open>C8. When the hour the base checkpoint points into has been rotated out, planning hands the
  checkpoint over without losing a byte: the base keeps its marker until the hour file holds it,
  whatever Set fails; a plan that succeeds leaves the hour file at the old marker, every newer
  unread hour at its beginning, every older unread hour without a checkpoint, and the base at the
  beginning of the live file.\<close>

theorem rotation_handover:
  assumes "rotation wk view nrm valid" "distinct (map fmName files)"
    and "plan_base wk files b out ws w = (res, ws', w')"
    and "view w (wkInstance wk) b = Some bcp" "ParseHourMarker (ckMarker bcp) = Some (bid, off)"
    and "r \<in> set (rotations files b)" "rfID r = bid" "view w (wkInstance wk) (fmName (rfMeta r)) = None"
  defines "mark v f \<equiv> map_option ckMarker (view v (wkInstance wk) f)"
  shows "(mark w' b = Some (ckMarker bcp) \<or> mark w' (fmName (rfMeta r)) = Some (ckMarker bcp))
    \<and> ((\<exists>planned. res = Inr planned) \<longrightarrow>
         mark w' (fmName (rfMeta r)) = Some (ckMarker bcp) \<and> mark w' b = Some MarkerBeginning
         \<and> (\<forall>q \<in> set (rotations files b). mark w (fmName (rfMeta q)) = None \<longrightarrow>
               (bid < rfID q \<longrightarrow> mark w' (fmName (rfMeta q)) = Some MarkerBeginning)
               \<and> (rfID q < bid \<longrightarrow> mark w' (fmName (rfMeta q)) = None)))"
proof -
  let ?rs = "sort_key rfID (rotations files b)"
  define p where "p = base_plan_of (Some bcp) (startFor wk ws (base_meta files b) = StartFromBeginning) ?rs"
  have pr: "bpRotated p" "bpHour p = Some bid" "bpCkpt p = Some bcp"
    using base_plan_rotated [OF assms(5) _ assms(7)] assms(6) by (simp_all add: p_def)
  have m: "rotation.mk wk view v f = mark v f" for v f
    by (simp add: rotation.mk_def [OF assms(1)] mark_def)
  note h = rotation.plan_base_handover [OF assms(1,3) rotations_distinct [OF assms(2)] rotations_not_base,
      unfolded m assms(4), folded p_def]
  have seed: "planned_marker p None q = (if rfID q = bid then Some (ckMarker bcp)
      else if bid < rfID q then Some MarkerBeginning else None)" for q
    using seed_rotated [of p bcp bid] pr by (simp add: planned_marker_def)
  have w0: "mark w b = Some (ckMarker bcp)" "mark w (fmName (rfMeta r)) = None"
    using assms(4,8) by (simp_all add: mark_def)
  have pm: "planned_marker p (mark w (fmName (rfMeta r))) r = Some (ckMarker bcp)"
    using seed assms(7) w0 by simp
  show ?thesis using h pr(1) w0 pm seed assms(6) by (auto simp: order_less_imp_not_eq)
qed

theorem rotation_handover_witness:
  "\<exists>res ws' w'. plan_base two_wk [live_log, hour_log] ''m.log'' [] (initial_wst 0) sim_hour = (res, ws', w')
     \<and> (map_option ckMarker (mem_view (smStore w') ''db-1'' ''m.log'') = Some ''2024-01-01.5:40''
        \<or> map_option ckMarker (mem_view (smStore w') ''db-1'' ''m.log.2024-01-01.5'') = Some ''2024-01-01.5:40'')"
proof -
  obtain res ws' w' where p: "plan_base two_wk [live_log, hour_log] ''m.log'' [] (initial_wst 0) sim_hour
      = (res, ws', w')" by (cases "plan_base two_wk [live_log, hour_log] ''m.log'' [] (initial_wst 0) sim_hour")
  have i: "wkInstance two_wk = ''db-1''" by (simp add: sim_worker_def sim_fetcher_def)
  show ?thesis
    using rotation_handover [OF simrot.rotation_axioms _ p _ hour_marker hour_rotation, unfolded i] p
      sim_hour_view by (simp add: live_log_def hour_log_def hour_ckpt_def)
qed

section \<open>Delivery\<close>

text \<open>C9. A nil Write of a configured sink, through its filter, dead-letter queue, retries and
  metrics, means that every record its filter keeps was accepted by the destination or parked
  in one dead letter under the name of the sink; a refused Write left the batch in neither
  place, and the queue stays well formed.\<close>

theorem configured_sink_delivers:
  assumes "delivery q parked valid s acc en probe" "valid w"
    and "skWrite (decorate en (Some q) probe c s) rs w = (r, w')"
  shows "(if r = None then delivered_or_parked acc parked en (skName s) (filter (cfg_keep c) rs) w w'
          else acc w' = acc w \<and> parked w' = parked w) \<and> valid w'"
  using delivery.stack_delivers [OF assms] by auto

theorem configured_sink_delivers_witness:
  "\<exists>r w'. skWrite (decorate sim_env (Some sim_dlq) (Some sim_probe) mem_cfg sim_sink) [rec_a] (sim_init []) = (r, w')
     \<and> (r = None \<longrightarrow> delivered_or_parked sim_acked (\<lambda>w. dbDLQ (smDb w)) sim_env ''mem''
          (filter (cfg_keep mem_cfg) [rec_a]) (sim_init []) w')"
proof -
  obtain r w' where s: "skWrite (decorate sim_env (Some sim_dlq) (Some sim_probe) mem_cfg sim_sink) [rec_a] (sim_init [])
      = (r, w')" by (cases "skWrite (decorate sim_env (Some sim_dlq) (Some sim_probe) mem_cfg sim_sink) [rec_a] (sim_init [])")
  show ?thesis
    using configured_sink_delivers [OF simdel.delivery_axioms sim_init_dlq s] s
    unfolding sim_sink_name by auto
qed

section \<open>Replay\<close>





text \<open>C18. A retried Write calls the sink at most MaxAttempts times.\<close>

theorem retry_attempts_bounded:
  assumes "\<And>rs w. calls (snd (skWrite s rs w)) = calls w + (1 :: nat)" "sleep_keeps en calls"
  shows "calls (snd (skWrite (WithRetry en s cfg) rs w))
           \<le> calls w + nat (rcMaxAttempts (retry_defaults cfg))"
  using retry_loop_attempts [of calls s en "retry_defaults cfg" rs 1 "nat (rcMaxAttempts (retry_defaults cfg)) - 1" w] assms
  by (auto simp: WithRetry_def retry_Write_def retry_defaults_def split: if_splits)

theorem retry_attempts_bounded_witness:
  "\<forall>w. snd (snd (skWrite (WithRetry count_env count_sink
        \<lparr>rcMaxAttempts = 4, rcInitialWait = second, rcMaxWait = minute, rcMultiplier = 2\<rparr>) [rec_a] w))
       \<le> snd w + nat 4"
  using retry_attempts_bounded [of snd count_sink count_env
      "\<lparr>rcMaxAttempts = 4, rcInitialWait = second, rcMaxWait = minute, rcMultiplier = 2\<rparr>" "[rec_a]"]
  by (simp add: retry_defaults_def count_sink_def sleep_keeps_def count_env_def second_def minute_def)

text \<open>C19. As long as the exponential wait fits an int64, the backoff before a retry is between
  half of it and all of it, capped at MaxWait.\<close>

theorem backoff_bounds:
  assumes "0 < rcInitialWait cfg" "0 < rcMaxWait cfg" "1 \<le> rcMultiplier cfg" "rand_ok en"
    and "in_i64 \<lfloor>of_int (rcInitialWait cfg) * rcMultiplier cfg ^ (attempt - 1)\<rfloor>"
  defines "d \<equiv> min \<lfloor>of_int (rcInitialWait cfg) * rcMultiplier cfg ^ (attempt - 1)\<rfloor> (rcMaxWait cfg)"
  shows "\<exists>t. backoff en cfg attempt w = Some t \<and> d div 2 \<le> t \<and> t \<le> d"
  unfolding d_def by (rule backoff_value [OF assms(1-3,5,4)])

theorem backoff_bounds_witness:
  "\<forall>w. \<exists>t. backoff sim_env \<lparr>rcMaxAttempts = 4, rcInitialWait = second, rcMaxWait = minute, rcMultiplier = 2\<rparr> 3 w = Some t
     \<and> 2 * second \<le> t \<and> t \<le> 4 * second"
  using backoff_bounds [of "\<lparr>rcMaxAttempts = 4, rcInitialWait = second, rcMaxWait = minute, rcMultiplier = 2\<rparr>" sim_env 3]
  by (simp add: second_def minute_def rand_ok_def sim_env_def in_i64_def i64_max_def i64_min_def)

text \<open>C20. With the default waits, the 36th backoff is out of the range of int64: where the
  conversion gives the least int64, as it does on amd64, MaxWait does not cap it and drawing
  the jitter panics.\<close>

theorem backoff_overflow_panics:
  assumes "enOverflow en = i64_min" "36 \<le> attempt"
    and "cfg = \<lparr>rcMaxAttempts = 100, rcInitialWait = 500 * millisecond, rcMaxWait = 60 * second, rcMultiplier = 2\<rparr>"
  shows "backoff en cfg attempt w = None"
proof -
  have "(2 :: rat) ^ 35 \<le> 2 ^ (attempt - 1)" using assms(2) by (intro power_increasing) simp_all
  then have "of_int (2 ^ 63) < of_int (500 * millisecond) * (2 :: rat) ^ (attempt - 1)"
    by (simp add: millisecond_def)
  then have f: "2 ^ 63 \<le> \<lfloor>of_int (500 * millisecond) * (2 :: rat) ^ (attempt - 1)\<rfloor>"
    by (simp only: le_floor_iff less_imp_le)
  have "0 \<le> of_int (500 * millisecond) * (2 :: rat) ^ (attempt - 1)" by (simp add: millisecond_def)
  then have "to_duration i64_min (of_int (500 * millisecond) * (2 :: rat) ^ (attempt - 1)) = i64_min"
    using f by (simp add: to_duration_def in_i64_def i64_max_def Let_def)
  then show ?thesis using assms(1,3) by (simp add: backoff_def half_def i64_min_def second_def Let_def)
qed

theorem backoff_overflow_panics_witness:
  "\<forall>w. backoff sim_env \<lparr>rcMaxAttempts = 100, rcInitialWait = 500 * millisecond, rcMaxWait = 60 * second,
       rcMultiplier = 2\<rparr> 36 w = None"
  using backoff_overflow_panics [of sim_env 36] by (simp add: sim_env_def)

end
